theory Spec2Isabelle
  imports Complex_Main "HOL-Library.Word"
begin

section \<open>Balance-board game: configuration, data model\<close>

text \<open>
  The development embeds the control and game-state engine of \<^verbatim>\<open>game.c\<close>. C \<^verbatim>\<open>float\<close>
  and \<^verbatim>\<open>double\<close> values are modelled as \<^typ>\<open>real\<close> (exact arithmetic, no rounding);
  \<^verbatim>\<open>Uint32\<close> tick counts as \<^typ>\<open>32 word\<close>; \<^verbatim>\<open>int\<close> counters as \<^typ>\<open>int\<close> (the counters
  stay far below \<open>2^31\<close>). Audio, drawing and window calls do not feed back into the
  state and are left out.
\<close>

subsection \<open>Configuration macros\<close>

definition WINDOW_WIDTH :: int where [simp]: "WINDOW_WIDTH = 1920"
definition WINDOW_HEIGHT :: int where [simp]: "WINDOW_HEIGHT = 1080"
definition GAME_OBJECT_SIZE :: int where [simp]: "GAME_OBJECT_SIZE = 150"
definition COB_SCALE_GENERAL :: real where [simp]: "COB_SCALE_GENERAL = 15 / 100000"
definition COB_SCALE_DODGE :: real where [simp]: "COB_SCALE_DODGE = 25 / 100000"
definition DEAD_ZONE :: real where [simp]: "DEAD_ZONE = 400"
definition TRAIL_LENGTH :: nat where [simp]: "TRAIL_LENGTH = 60"
definition WIN_ANIMATION_DURATION :: nat where [simp]: "WIN_ANIMATION_DURATION = 2500"
definition POLL_TIMEOUT_THRESHOLD :: int where [simp]: "POLL_TIMEOUT_THRESHOLD = 100"
definition MAX_DODGE_BLOCKS :: nat where [simp]: "MAX_DODGE_BLOCKS = 10"
definition BLOCK_WIDTH :: int where [simp]: "BLOCK_WIDTH = 50"
definition BLOCK_HEIGHT :: int where [simp]: "BLOCK_HEIGHT = 100"
definition BLOCK_INITIAL_SPEED :: real where [simp]: "BLOCK_INITIAL_SPEED = 300"
definition BLOCK_SPEED_INCREMENT :: real where [simp]: "BLOCK_SPEED_INCREMENT = 50"
definition BLOCK_SPAWN_INTERVAL :: real where [simp]: "BLOCK_SPAWN_INTERVAL = 2"
definition MENU_SELECT_TIME_REQUIRED :: real where [simp]: "MENU_SELECT_TIME_REQUIRED = 3 / 2"
definition TRANSITION_DURATION :: real where [simp]: "TRANSITION_DURATION = 3 / 2"
definition MIN_TOTAL_WEIGHT :: real where [simp]: "MIN_TOTAL_WEIGHT = 2000"
definition INACTIVITY_TIMEOUT_SECONDS :: nat where [simp]: "INACTIVITY_TIMEOUT_SECONDS = 15"
definition BH_HOLD_TIME_REQUIRED :: real where [simp]: "BH_HOLD_TIME_REQUIRED = 3 / 2"
definition BH_GRACE_ZONE_RADIUS :: int where [simp]: "BH_GRACE_ZONE_RADIUS = 200"
definition BH_HOLD_RADIUS :: int where [simp]: "BH_HOLD_RADIUS = 100"
definition BH_TARGET_MOVEMENT_SPEED_EASY :: real where [simp]: "BH_TARGET_MOVEMENT_SPEED_EASY = 0"
definition BH_TARGET_MOVEMENT_SPEED_MEDIUM :: real where [simp]: "BH_TARGET_MOVEMENT_SPEED_MEDIUM = 25"
definition BH_TARGET_MOVEMENT_SPEED_HARD :: real where [simp]: "BH_TARGET_MOVEMENT_SPEED_HARD = 50"
definition COIN_SAFE_MARGIN :: int where [simp]: "COIN_SAFE_MARGIN = 300"
definition STARTING_COIN_SIZE :: int where [simp]: "STARTING_COIN_SIZE = 150"
definition CC_COIN_TIMER :: real where [simp]: "CC_COIN_TIMER = 10"
definition COIN_SPAWN_MIN_DIST_PLAYER :: int where [simp]: "COIN_SPAWN_MIN_DIST_PLAYER = 250"
definition SPRING_CONSTANT :: real where [simp]: "SPRING_CONSTANT = 10"
definition DAMPING_FACTOR :: real where [simp]: "DAMPING_FACTOR = 5"
definition NUM_CONFETTI :: nat where [simp]: "NUM_CONFETTI = 150"
definition CONFETTI_LIFETIME :: real where [simp]: "CONFETTI_LIFETIME = 2"
definition CONFETTI_GRAVITY :: real where [simp]: "CONFETTI_GRAVITY = 200"
definition CONFETTI_SPREAD :: real where [simp]: "CONFETTI_SPREAD = 300"

subsection \<open>Enumerations and structs\<close>

datatype GameState =
  CONNECTING | TRANSITIONING | PLAYER_SELECTION | MAIN_MENU | DIFFICULTY_SELECTION
  | GAME_BALANCE_HOLD | GAME_COIN_COLLECTOR | GAME_DODGE | WINNING

datatype GameType = NO_GAME_SELECTED | BALANCE_HOLD | COIN_COLLECTOR | DODGE

datatype Difficulty = EASY | MEDIUM | HARD

record PlayerObject =
  p_x :: real
  p_y :: real
  p_velocity_x :: real
  p_velocity_y :: real

record TargetObject =
  t_x :: real
  t_y :: real
  t_velocity_x :: real
  t_velocity_y :: real

record ConfettiParticle =
  cf_x :: real
  cf_y :: real
  cf_vx :: real
  cf_vy :: real
  cf_lifetime :: real
  cf_color :: nat

record Coin =
  c_x :: real
  c_y :: real
  c_active :: int

record DodgeBlock =
  b_x :: real
  b_y :: real
  b_speed :: real
  b_active :: int

text \<open>
  The globals of the program together with the locals of \<^verbatim>\<open>main\<close> that survive from
  one frame to the next. \<open>iface\<close> is \<open>True\<close> when the interface pointer is not
  \<^verbatim>\<open>NULL\<close>. The three \<open>_files\<close> maps are the profile files on disk, by file name; a
  file holds the value last written to it. \<open>rand_pos\<close> counts the calls of
  \<^verbatim>\<open>rand()\<close> made so far: the generator's output sequence is a parameter \<open>rnd\<close> of
  the functions that draw from it. \<open>unwritable\<close> is the set of file names for which
  \<^verbatim>\<open>fopen(name, "w")\<close> returns \<^verbatim>\<open>NULL\<close>; the program never changes it.
\<close>

record game =
  state :: GameState
  player :: PlayerObject
  x_cob :: real
  y_cob :: real
  last_frame_time :: "32 word"
  last_input_time :: "32 word"
  iface :: bool
  fd :: int
  confetti :: "ConfettiParticle list"
  lowest_time_to_win :: real
  total_wins :: int
  trail_points :: "PlayerObject list"
  trail_head :: nat
  poll_timeout_count :: int
  coin_collector_coins :: "Coin list"
  current_total_weight :: real
  coin_timer :: real
  dodge_blocks :: "DodgeBlock list"
  block_spawn_timer :: real
  current_block_speed :: real
  dodge_score :: int
  dodge_high_score :: int
  dynamic_block_spawn_interval :: real
  menu_select_timer :: real
  selected_game :: GameType
  current_difficulty :: Difficulty
  difficulty_selection :: int
  selected_player_index :: int
  player_selection_choice :: int
  current_game_target :: int
  hold_timer :: real
  coins :: int
  game_start_time :: "32 word"
  win_message_start_time :: "32 word"
  beeps_played :: int
  balance_hold_target :: TargetObject
  transition_start_time :: "32 word"
  connection_start_time :: "32 word"
  score_files :: "string \<rightharpoonup> real"
  wins_files :: "string \<rightharpoonup> int"
  dodge_files :: "string \<rightharpoonup> int"
  rand_pos :: nat
  unwritable :: "string set"

section \<open>Motion smoother\<close>

text \<open>
  \<^verbatim>\<open>update_player_position\<close> in two parts. The first is what the function does to the
  \<^verbatim>\<open>PlayerObject\<close> it is given: one explicit Euler step of the damped spring, then the
  four clamps in the order of the source (\<^verbatim>\<open>GAME_OBJECT_SIZE/2\<close> is an integer
  division). The second is the function itself, which stores the new avatar in the trail
  ring buffer and advances the head of the buffer.
\<close>

definition spring_step :: "real \<Rightarrow> real \<Rightarrow> real \<Rightarrow> PlayerObject \<Rightarrow> PlayerObject" where
  "spring_step target_x target_y delta_time p =
    (let force_x = (target_x - p_x p) * SPRING_CONSTANT;
         force_y = (target_y - p_y p) * SPRING_CONSTANT;
         force_x = force_x - p_velocity_x p * DAMPING_FACTOR;
         force_y = force_y - p_velocity_y p * DAMPING_FACTOR;
         p = p\<lparr>p_velocity_x := p_velocity_x p + force_x * delta_time\<rparr>;
         p = p\<lparr>p_velocity_y := p_velocity_y p + force_y * delta_time\<rparr>;
         p = p\<lparr>p_x := p_x p + p_velocity_x p * delta_time\<rparr>;
         p = p\<lparr>p_y := p_y p + p_velocity_y p * delta_time\<rparr>;
         p = (if p_x p < real_of_int (GAME_OBJECT_SIZE div 2)
              then p\<lparr>p_x := real_of_int (GAME_OBJECT_SIZE div 2), p_velocity_x := 0\<rparr> else p);
         p = (if p_x p > real_of_int (WINDOW_WIDTH - GAME_OBJECT_SIZE div 2)
              then p\<lparr>p_x := real_of_int (WINDOW_WIDTH - GAME_OBJECT_SIZE div 2), p_velocity_x := 0\<rparr>
              else p);
         p = (if p_y p < real_of_int (GAME_OBJECT_SIZE div 2)
              then p\<lparr>p_y := real_of_int (GAME_OBJECT_SIZE div 2), p_velocity_y := 0\<rparr> else p);
         p = (if p_y p > real_of_int (WINDOW_HEIGHT - GAME_OBJECT_SIZE div 2)
              then p\<lparr>p_y := real_of_int (WINDOW_HEIGHT - GAME_OBJECT_SIZE div 2), p_velocity_y := 0\<rparr>
              else p)
     in p)"

definition update_player_position :: "real \<Rightarrow> real \<Rightarrow> real \<Rightarrow> game \<Rightarrow> game" where
  "update_player_position target_x target_y delta_time g =
    (let p = spring_step target_x target_y delta_time (player g)
     in g\<lparr>player := p,
          trail_points := (trail_points g)[trail_head g := p],
          trail_head := (trail_head g + 1) mod TRAIL_LENGTH\<rparr>)"

text \<open>
  \<^verbatim>\<open>init_player\<close>: the avatar goes to the centre of the window at rest; of every
  trail point only the coordinates are overwritten.
\<close>

definition init_player :: "game \<Rightarrow> game" where
  "init_player g =
    (let p = (player g)\<lparr>p_x := real_of_int WINDOW_WIDTH / 2, p_y := real_of_int WINDOW_HEIGHT / 2,
                         p_velocity_x := 0, p_velocity_y := 0\<rparr>
     in g\<lparr>player := p,
          trail_points := map (\<lambda>q. q\<lparr>p_x := p_x p, p_y := p_y p\<rparr>) (trail_points g),
          trail_head := 0\<rparr>)"

text \<open>
  The state in which \<^verbatim>\<open>main\<close> enters its frame loop: the static initialisers of the
  globals (zero where none is written), \<^verbatim>\<open>init_player\<close> applied, the three time stamps
  set to the tick count \<open>t\<close> of start-up, and no profile file on disk.
\<close>

definition zero_player :: PlayerObject where
  "zero_player = \<lparr>p_x = 0, p_y = 0, p_velocity_x = 0, p_velocity_y = 0\<rparr>"

definition program_start :: "32 word \<Rightarrow> game" where
  "program_start t = init_player
    \<lparr>state = CONNECTING, player = zero_player, x_cob = 0, y_cob = 0,
     last_frame_time = t, last_input_time = t, iface = False, fd = - 1,
     confetti = replicate NUM_CONFETTI
       \<lparr>cf_x = 0, cf_y = 0, cf_vx = 0, cf_vy = 0, cf_lifetime = 0, cf_color = 0\<rparr>,
     lowest_time_to_win = - 1, total_wins = 0,
     trail_points = replicate TRAIL_LENGTH zero_player, trail_head = 0,
     poll_timeout_count = 0,
     coin_collector_coins = replicate 30 \<lparr>c_x = 0, c_y = 0, c_active = 0\<rparr>,
     current_total_weight = 0, coin_timer = 0,
     dodge_blocks = replicate MAX_DODGE_BLOCKS \<lparr>b_x = 0, b_y = 0, b_speed = 0, b_active = 0\<rparr>,
     block_spawn_timer = 0, current_block_speed = BLOCK_INITIAL_SPEED,
     dodge_score = 0, dodge_high_score = 0,
     dynamic_block_spawn_interval = BLOCK_SPAWN_INTERVAL,
     menu_select_timer = 0, selected_game = NO_GAME_SELECTED, current_difficulty = EASY,
     difficulty_selection = 0, selected_player_index = - 1, player_selection_choice = 0,
     current_game_target = 0, hold_timer = 0, coins = 0,
     game_start_time = 0, win_message_start_time = 0, beeps_played = 0,
     balance_hold_target = \<lparr>t_x = 0, t_y = 0, t_velocity_x = 0, t_velocity_y = 0\<rparr>,
     transition_start_time = 0, connection_start_time = t,
     score_files = Map.empty, wins_files = Map.empty, dodge_files = Map.empty,
     rand_pos = 0, unwritable = {}\<rparr>"

section \<open>Session reset and sensor reader\<close>

text \<open>
  \<^verbatim>\<open>reset_game_state\<close>: closes the device (the interface pointer becomes \<^verbatim>\<open>NULL\<close>, the
  descriptor \<open>-1\<close>) and clears the menu and score variables listed in the source.
\<close>

definition reset_game_state :: "game \<Rightarrow> game" where
  "reset_game_state g =
     g\<lparr>iface := False, fd := - 1, poll_timeout_count := 0, menu_select_timer := 0,
       selected_game := NO_GAME_SELECTED, difficulty_selection := 0,
       selected_player_index := - 1, player_selection_choice := 0,
       current_game_target := 0, hold_timer := 0, coins := 0, beeps_played := 0\<rparr>"

text \<open>
  One call of \<^verbatim>\<open>poll\<close> on the device either fails, times out, or reports the device
  readable; in the last case \<^verbatim>\<open>xwii_iface_dispatch\<close> hands out the pending events one by
  one. A balance-board event carries the four raw sensor values \<^verbatim>\<open>abs[0].x\<close> to
  \<^verbatim>\<open>abs[3].x\<close>.
\<close>

datatype xwii_event = BALANCE_BOARD int int int int | OTHER_EVENT

datatype poll_result = POLL_FAILED | POLL_TIMEOUT | POLL_READY "xwii_event list"

text \<open>
  The body of the dispatch loop. The accumulator is \<^verbatim>\<open>got_data\<close> with the state.
\<close>

fun dispatch_events :: "xwii_event list \<Rightarrow> bool \<times> game \<Rightarrow> bool \<times> game" where
  "dispatch_events [] acc = acc"
| "dispatch_events (OTHER_EVENT # es) acc = dispatch_events es acc"
| "dispatch_events (BALANCE_BOARD a0 a1 a2 a3 # es) (got_data, g) =
    (let cells0 = real_of_int a2 / 100;
         cells1 = real_of_int a0 / 100;
         cells2 = real_of_int a3 / 100;
         cells3 = real_of_int a1 / 100;
         total_weight = cells0 + cells1 + cells2 + cells3;
         g = g\<lparr>current_total_weight := total_weight * 100\<rparr>
     in if current_total_weight g > MIN_TOTAL_WEIGHT then
          (let g = g\<lparr>x_cob := (cells1 + cells3 - cells0 - cells2) * 100\<rparr>;
               g = g\<lparr>y_cob := (cells0 + cells1 - cells2 - cells3) * 100\<rparr>;
               g = (if \<bar>x_cob g\<bar> < DEAD_ZONE then g\<lparr>x_cob := 0\<rparr> else g);
               g = (if \<bar>y_cob g\<bar> < DEAD_ZONE then g\<lparr>y_cob := 0\<rparr> else g)
           in dispatch_events es (True, g))
        else dispatch_events es (got_data, g))"

text \<open>
  \<^verbatim>\<open>read_wii_balance_board_data\<close> returns its status (\<open>0\<close>, or \<open>-1\<close> for a
  disconnection) with the updated state; the two output pointers are the fields
  \<open>x_cob\<close> and \<open>y_cob\<close>.
\<close>

definition read_wii_balance_board_data :: "poll_result \<Rightarrow> game \<Rightarrow> int \<times> game" where
  "read_wii_balance_board_data ret g =
    (if \<not> iface g \<or> fd g < 0 then (- 1, g\<lparr>x_cob := 0, y_cob := 0\<rparr>)
     else case ret of
       POLL_FAILED \<Rightarrow> (- 1, g)
     | POLL_TIMEOUT \<Rightarrow>
         (let g = g\<lparr>poll_timeout_count := poll_timeout_count g + 1\<rparr>
          in if poll_timeout_count g \<ge> POLL_TIMEOUT_THRESHOLD then (- 1, g) else (0, g))
     | POLL_READY es \<Rightarrow>
         (let g = g\<lparr>poll_timeout_count := 0\<rparr>;
              (got_data, g) = dispatch_events es (False, g)
          in if got_data then (0, g) else (0, g\<lparr>x_cob := 0, y_cob := 0\<rparr>)))"

section \<open>Profile files\<close>

text \<open>
  \<^verbatim>\<open>get_profile_filename\<close> reads \<^verbatim>\<open>available_players[player_index]\<close>; an index outside
  the table of three profiles is a read out of bounds and is reported as a fault.
\<close>

datatype fault = Out_Of_Bounds | Never_Returns

definition available_players :: "(string \<times> string) list" where
  "available_players =
     [(''Player 1'', ''example1.jpg''), (''Player 2'', ''example2.jpg''),
      (''Player 3'', ''example3.jpg'')]"

definition lowercase_char :: "char \<Rightarrow> char" where
  "lowercase_char c =
     (if (of_char c :: nat) \<ge> 65 \<and> (of_char c :: nat) \<le> 90
      then char_of ((of_char c :: nat) + 32) else c)"

definition get_profile_filename :: "string \<Rightarrow> int \<Rightarrow> string option" where
  "get_profile_filename base_filename player_index =
     (if 0 \<le> player_index \<and> player_index < int (length available_players) then
        (let player_name = fst (available_players ! nat player_index);
             lowercase_name = map lowercase_char (take 63 player_name)
         in Some (take 255 (lowercase_name @ ''_'' @ base_filename)))
      else None)"

text \<open>
  A file that does not exist reads as the default of the source (no record \<open>-1\<close>,
  zero wins, zero high score). The best time is written with the format \<^verbatim>\<open>"%.2f"\<close>:
  the file then holds the time rounded to the nearest hundredth, a tie going to the even
  hundredth as in the C library under the default rounding mode. The two integer files
  hold the integer written. The writers of the best time and of the win counter write
  only when the file opens, and leave it as it is otherwise; the high-score file of
  Dodge is taken to open.
\<close>

definition printf_2f :: "real \<Rightarrow> real" where
  "printf_2f v =
     (let n = \<lfloor>v * 100\<rfloor>;
          r = v * 100 - real_of_int n
      in real_of_int (if r < 1 / 2 then n else if r > 1 / 2 then n + 1
                      else if even n then n else n + 1) / 100)"

definition read_lowest_time :: "game \<Rightarrow> string \<Rightarrow> real" where
  "read_lowest_time g filename = (case score_files g filename of None \<Rightarrow> - 1 | Some score \<Rightarrow> score)"

definition write_lowest_time :: "string \<Rightarrow> real \<Rightarrow> game \<Rightarrow> game" where
  "write_lowest_time filename new_score g =
     (if filename \<in> unwritable g then g
      else g\<lparr>score_files := (score_files g)(filename \<mapsto> printf_2f new_score)\<rparr>)"

definition read_total_wins :: "game \<Rightarrow> string \<Rightarrow> int" where
  "read_total_wins g filename = (case wins_files g filename of None \<Rightarrow> 0 | Some wins \<Rightarrow> wins)"

definition write_total_wins :: "string \<Rightarrow> int \<Rightarrow> game \<Rightarrow> game" where
  "write_total_wins filename wins g =
     (if filename \<in> unwritable g then g
      else g\<lparr>wins_files := (wins_files g)(filename \<mapsto> wins)\<rparr>)"

definition read_dodge_high_score :: "game \<Rightarrow> string \<Rightarrow> int" where
  "read_dodge_high_score g filename = (case dodge_files g filename of None \<Rightarrow> 0 | Some score \<Rightarrow> score)"

definition write_dodge_high_score :: "string \<Rightarrow> int \<Rightarrow> game \<Rightarrow> game" where
  "write_dodge_high_score filename score g = g\<lparr>dodge_files := (dodge_files g)(filename \<mapsto> score)\<rparr>"

section \<open>Confetti\<close>

text \<open>
  \<^verbatim>\<open>init_confetti\<close> draws three random numbers for each of the 150 particles, in the
  order velocity x, velocity y, colour.
\<close>

definition init_confetti :: "(nat \<Rightarrow> nat) \<Rightarrow> real \<Rightarrow> real \<Rightarrow> game \<Rightarrow> game" where
  "init_confetti rnd px py g =
     g\<lparr>confetti := map (\<lambda>i.
          \<lparr>cf_x = px, cf_y = py,
           cf_vx = real_of_int (int (rnd (rand_pos g + 3 * i)) mod \<lfloor>CONFETTI_SPREAD\<rfloor>)
                     - CONFETTI_SPREAD / 2,
           cf_vy = real_of_int (int (rnd (rand_pos g + 3 * i + 1)) mod \<lfloor>CONFETTI_SPREAD\<rfloor>)
                     - CONFETTI_SPREAD / 2,
           cf_lifetime = CONFETTI_LIFETIME,
           cf_color = rnd (rand_pos g + 3 * i + 2) mod 3\<rparr>) [0..<NUM_CONFETTI],
       rand_pos := rand_pos g + 3 * NUM_CONFETTI\<rparr>"

definition update_confetti :: "real \<Rightarrow> game \<Rightarrow> game" where
  "update_confetti delta_time g =
     g\<lparr>confetti := map (\<lambda>c.
          if cf_lifetime c > 0 then
            c\<lparr>cf_x := cf_x c + cf_vx c * delta_time,
              cf_y := cf_y c + cf_vy c * delta_time,
              cf_vy := cf_vy c + CONFETTI_GRAVITY * delta_time,
              cf_lifetime := cf_lifetime c - delta_time\<rparr>
          else c) (confetti g)\<rparr>"

section \<open>Mode initialisation\<close>

definition hypot :: "real \<Rightarrow> real \<Rightarrow> real" where
  "hypot a b = sqrt (a * a + b * b)"

text \<open>\<^verbatim>\<open>is_in_zone\<close>: the avatar lies within \<open>zone_radius\<close> of the target's centre.\<close>

definition is_in_zone :: "PlayerObject \<Rightarrow> TargetObject \<Rightarrow> int \<Rightarrow> bool" where
  "is_in_zone p target zone_radius =
    (let dx = p_x p - t_x target;
         dy = p_y p - t_y target;
         distance = hypot dx dy
     in distance \<le> real_of_int zone_radius)"

text \<open>
  \<^verbatim>\<open>init_balance_hold_game\<close>; \<open>now\<close> is the value \<^verbatim>\<open>SDL_GetTicks()\<close> returns.
\<close>

definition init_balance_hold_game :: "(nat \<Rightarrow> nat) \<Rightarrow> 32 word \<Rightarrow> game \<Rightarrow> game" where
  "init_balance_hold_game rnd now g =
    (let g = init_player g;
         r = rand_pos g;
         target = balance_hold_target g;
         target = target\<lparr>t_x := real_of_int (int (rnd r) mod (WINDOW_WIDTH - GAME_OBJECT_SIZE * 2))
                              + real_of_int GAME_OBJECT_SIZE\<rparr>;
         target = target\<lparr>t_y := real_of_int (int (rnd (r + 1)) mod (WINDOW_HEIGHT - GAME_OBJECT_SIZE * 2))
                              + real_of_int GAME_OBJECT_SIZE\<rparr>;
         movement_speed = (case current_difficulty g of
                             EASY \<Rightarrow> BH_TARGET_MOVEMENT_SPEED_EASY
                           | MEDIUM \<Rightarrow> BH_TARGET_MOVEMENT_SPEED_MEDIUM
                           | HARD \<Rightarrow> BH_TARGET_MOVEMENT_SPEED_HARD);
         target = target\<lparr>t_velocity_x := (if rnd (r + 2) mod 2 = 0 then movement_speed else - movement_speed)\<rparr>;
         target = target\<lparr>t_velocity_y := (if rnd (r + 3) mod 2 = 0 then movement_speed else - movement_speed)\<rparr>
     in g\<lparr>balance_hold_target := target, rand_pos := r + 4,
          game_start_time := now, hold_timer := 0, beeps_played := 0\<rparr>)"

text \<open>
  The rejection-sampling loop that places a coin, as it stands in
  \<^verbatim>\<open>init_coin_collector_game\<close> and again in the coin respawn of \<^verbatim>\<open>main\<close>: the two
  copies differ only in the slot the accepted position is written to, so the loop
  returns the accepted position together with the new position in the random sequence
  and the caller writes the slot. The loop has no bound; a run that never accepts is the
  value \<open>None\<close>.
\<close>

partial_function (option) spawn_coin :: "(nat \<Rightarrow> nat) \<Rightarrow> real \<Rightarrow> real \<Rightarrow> nat \<Rightarrow> (real \<times> real \<times> nat) option" where
  "spawn_coin rnd px py r =
    (let new_coin_x = real_of_int (int (rnd r) mod (WINDOW_WIDTH - COIN_SAFE_MARGIN * 2))
                        + real_of_int COIN_SAFE_MARGIN;
         new_coin_y = real_of_int (int (rnd (r + 1)) mod (WINDOW_HEIGHT - COIN_SAFE_MARGIN * 2))
                        + real_of_int COIN_SAFE_MARGIN;
         dist_x = new_coin_x - px;
         dist_y = new_coin_y - py;
         distance = hypot dist_x dist_y
     in if distance > real_of_int COIN_SPAWN_MIN_DIST_PLAYER
        then Some (new_coin_x, new_coin_y, r + 2)
        else spawn_coin rnd px py (r + 2))"

text \<open>The first \<open>n\<close> coin slots are marked inactive.\<close>

definition deactivate_coins :: "int \<Rightarrow> Coin list \<Rightarrow> Coin list" where
  "deactivate_coins n cs = map (\<lambda>c. c\<lparr>c_active := 0\<rparr>) (take (nat n) cs) @ drop (nat n) cs"

definition init_coin_collector_game :: "(nat \<Rightarrow> nat) \<Rightarrow> 32 word \<Rightarrow> game \<Rightarrow> game option" where
  "init_coin_collector_game rnd now g =
    (let g = init_player g;
         g = g\<lparr>coin_collector_coins := deactivate_coins (current_game_target g) (coin_collector_coins g)\<rparr>
     in case spawn_coin rnd (p_x (player g)) (p_y (player g)) (rand_pos g) of
          None \<Rightarrow> None
        | Some (new_coin_x, new_coin_y, r) \<Rightarrow>
            (let g = g\<lparr>coin_collector_coins := (coin_collector_coins g)
                          [0 := \<lparr>c_x = new_coin_x, c_y = new_coin_y, c_active = 1\<rparr>],
                       rand_pos := r\<rparr>;
                 g = g\<lparr>game_start_time := now, coins := 0\<rparr>
             in Some (if current_difficulty g = HARD then g\<lparr>coin_timer := CC_COIN_TIMER\<rparr> else g)))"

definition init_dodge_game :: "32 word \<Rightarrow> game \<Rightarrow> game" where
  "init_dodge_game now g =
    (let g = init_player g
     in g\<lparr>dodge_blocks := map (\<lambda>b. b\<lparr>b_active := 0\<rparr>) (dodge_blocks g),
          block_spawn_timer := 0,
          current_block_speed := BLOCK_INITIAL_SPEED,
          dodge_score := 0,
          game_start_time := now\<rparr>)"

text \<open>
  \<^verbatim>\<open>spawn_dodge_block\<close>: the first inactive slot becomes a block at the right edge;
  \<^verbatim>\<open>rand()\<close> is called only when a free slot is found.
\<close>

fun spawn_in_first_free :: "real \<Rightarrow> real \<Rightarrow> DodgeBlock list \<Rightarrow> (DodgeBlock list \<times> bool)" where
  "spawn_in_first_free y0 speed [] = ([], False)"
| "spawn_in_first_free y0 speed (b # bs) =
    (if b_active b = 0
     then (\<lparr>b_x = real_of_int (WINDOW_WIDTH + BLOCK_WIDTH), b_y = y0, b_speed = speed, b_active = 1\<rparr> # bs, True)
     else (let (bs', found) = spawn_in_first_free y0 speed bs in (b # bs', found)))"

definition spawn_dodge_block :: "(nat \<Rightarrow> nat) \<Rightarrow> game \<Rightarrow> game" where
  "spawn_dodge_block rnd g =
    (let (bs, found) = spawn_in_first_free
                         (real_of_int (int (rnd (rand_pos g)) mod (WINDOW_HEIGHT - BLOCK_HEIGHT)))
                         (current_block_speed g) (dodge_blocks g)
     in if found then g\<lparr>dodge_blocks := bs, rand_pos := rand_pos g + 1\<rparr> else g)"

section \<open>The frame loop of main\<close>

text \<open>
  What one iteration of the frame loop receives from outside: \<open>current_time\<close> is the
  tick count read at the top of the frame, \<open>logic_time\<close> the tick count returned by the
  calls of \<^verbatim>\<open>SDL_GetTicks\<close> made later in the same frame, \<open>poll_ret\<close> the outcome of
  polling the device, and \<open>xwii_init\<close> the outcome of
  \<^verbatim>\<open>init_xwiimote_non_blocking\<close> (the descriptor on success).
\<close>

datatype init_result = INIT_FAILED | INIT_OK nat

record frame_input =
  current_time :: "32 word"
  logic_time :: "32 word"
  poll_ret :: poll_result
  xwii_init :: init_result

subsection \<open>Connecting and transitioning\<close>

definition case_connecting :: "frame_input \<Rightarrow> game \<Rightarrow> game" where
  "case_connecting inp g =
    (case xwii_init inp of
       INIT_OK new_fd \<Rightarrow>
         g\<lparr>iface := True, fd := int new_fd, state := TRANSITIONING,
           transition_start_time := logic_time inp\<rparr>
     | INIT_FAILED \<Rightarrow> g\<lparr>iface := False\<rparr>)"

text \<open>The camera shake of the transition draws two random numbers per frame.\<close>

definition case_transitioning :: "frame_input \<Rightarrow> game \<Rightarrow> game" where
  "case_transitioning inp g =
    (let elapsed = real (unat (logic_time inp - transition_start_time g)) / 1000
     in if elapsed \<ge> TRANSITION_DURATION then g\<lparr>state := PLAYER_SELECTION\<rparr>
        else g\<lparr>rand_pos := rand_pos g + 2\<rparr>)"

subsection \<open>The three selection screens\<close>

text \<open>
  Each selection screen is written in two parts: the scan, which buckets the balance
  into a zone, resets the timer when the choice differs from that of the previous frame
  and lets it run while a choice is held; and the commit, which runs when the timer has
  reached \<open>MENU_SELECT_TIME_REQUIRED\<close>.
\<close>

definition player_selection_scan :: "real \<Rightarrow> game \<Rightarrow> game" where
  "player_selection_scan delta_time g =
    (let prev_player_selection_choice = player_selection_choice g;
         g = g\<lparr>player_selection_choice := 0\<rparr>;
         g = (if current_total_weight g > MIN_TOTAL_WEIGHT then
                (if x_cob g < - 200 then g\<lparr>player_selection_choice := 1\<rparr>
                 else if \<bar>x_cob g\<bar> < 150 then g\<lparr>player_selection_choice := 2\<rparr>
                 else if x_cob g > 200 then g\<lparr>player_selection_choice := 3\<rparr>
                 else g)
              else g);
         g = (if player_selection_choice g \<noteq> prev_player_selection_choice
              then g\<lparr>menu_select_timer := 0\<rparr> else g);
         g = (if player_selection_choice g \<noteq> 0
              then g\<lparr>menu_select_timer := menu_select_timer g + delta_time\<rparr> else g)
     in g)"

definition player_selection_commit :: "game \<Rightarrow> fault + game" where
  "player_selection_commit g =
    (let g = g\<lparr>selected_player_index := player_selection_choice g - 1\<rparr>
     in case get_profile_filename ''score.txt'' (selected_player_index g) of
          None \<Rightarrow> Inl Out_Of_Bounds
        | Some score_name \<Rightarrow>
            (case get_profile_filename ''wins.txt'' (selected_player_index g) of
               None \<Rightarrow> Inl Out_Of_Bounds
             | Some wins_name \<Rightarrow>
                 Inr (g\<lparr>lowest_time_to_win := read_lowest_time g score_name,
                        total_wins := read_total_wins g wins_name,
                        state := MAIN_MENU,
                        menu_select_timer := 0\<rparr>)))"

definition case_player_selection :: "real \<Rightarrow> game \<Rightarrow> fault + game" where
  "case_player_selection delta_time g =
    (let g = player_selection_scan delta_time g
     in if menu_select_timer g \<ge> MENU_SELECT_TIME_REQUIRED
        then player_selection_commit g else Inr g)"

definition main_menu_scan :: "real \<Rightarrow> game \<Rightarrow> game" where
  "main_menu_scan delta_time g =
    (let prev_selected_game = selected_game g;
         g = g\<lparr>selected_game := NO_GAME_SELECTED\<rparr>;
         g = (if current_total_weight g > MIN_TOTAL_WEIGHT then
                (if x_cob g < - 200 then g\<lparr>selected_game := BALANCE_HOLD\<rparr>
                 else if \<bar>x_cob g\<bar> < 150 then g\<lparr>selected_game := DODGE\<rparr>
                 else if x_cob g > 200 then g\<lparr>selected_game := COIN_COLLECTOR\<rparr>
                 else g)
              else g);
         g = (if selected_game g \<noteq> prev_selected_game
              then g\<lparr>menu_select_timer := 0\<rparr> else g);
         g = (if selected_game g \<noteq> NO_GAME_SELECTED
              then g\<lparr>menu_select_timer := menu_select_timer g + delta_time\<rparr> else g)
     in g)"

definition main_menu_commit :: "frame_input \<Rightarrow> game \<Rightarrow> fault + game" where
  "main_menu_commit inp g =
    (if selected_game g = DODGE then
       (case get_profile_filename ''dodge_score.txt'' (selected_player_index g) of
          None \<Rightarrow> Inl Out_Of_Bounds
        | Some dodge_name \<Rightarrow>
            (let g = g\<lparr>state := GAME_DODGE,
                       dodge_high_score := read_dodge_high_score g dodge_name\<rparr>;
                 g = init_dodge_game (logic_time inp) g
             in Inr (g\<lparr>menu_select_timer := 0\<rparr>)))
     else Inr (g\<lparr>state := DIFFICULTY_SELECTION, menu_select_timer := 0\<rparr>))"

definition case_main_menu :: "frame_input \<Rightarrow> real \<Rightarrow> game \<Rightarrow> fault + game" where
  "case_main_menu inp delta_time g =
    (let g = main_menu_scan delta_time g
     in if menu_select_timer g \<ge> MENU_SELECT_TIME_REQUIRED
        then main_menu_commit inp g else Inr g)"

definition difficulty_selection_scan :: "real \<Rightarrow> game \<Rightarrow> game" where
  "difficulty_selection_scan delta_time g =
    (let prev_difficulty_selection = difficulty_selection g;
         g = g\<lparr>difficulty_selection := 0\<rparr>;
         g = (if current_total_weight g > MIN_TOTAL_WEIGHT then
                (if x_cob g < - 200 then g\<lparr>difficulty_selection := 1\<rparr>
                 else if \<bar>x_cob g\<bar> < 150 then g\<lparr>difficulty_selection := 2\<rparr>
                 else if x_cob g > 200 then g\<lparr>difficulty_selection := 3\<rparr>
                 else g)
              else g);
         g = (if difficulty_selection g \<noteq> prev_difficulty_selection
              then g\<lparr>menu_select_timer := 0\<rparr> else g);
         g = (if difficulty_selection g \<noteq> 0
              then g\<lparr>menu_select_timer := menu_select_timer g + delta_time\<rparr> else g)
     in g)"

definition difficulty_selection_commit :: "(nat \<Rightarrow> nat) \<Rightarrow> frame_input \<Rightarrow> game \<Rightarrow> fault + game" where
  "difficulty_selection_commit rnd inp g =
    (let g = (if difficulty_selection g = 1 then g\<lparr>current_difficulty := EASY\<rparr>
              else if difficulty_selection g = 2 then g\<lparr>current_difficulty := MEDIUM\<rparr>
              else if difficulty_selection g = 3 then g\<lparr>current_difficulty := HARD\<rparr>
              else g)
     in if selected_game g = BALANCE_HOLD then
          (let g = g\<lparr>state := GAME_BALANCE_HOLD\<rparr>;
               g = g\<lparr>current_game_target :=
                      (if current_difficulty g = EASY then 10
                       else if current_difficulty g = HARD then 25 else 15)\<rparr>;
               g = init_balance_hold_game rnd (logic_time inp) g;
               g = g\<lparr>coins := 0\<rparr>
           in Inr (g\<lparr>menu_select_timer := 0\<rparr>))
        else if selected_game g = COIN_COLLECTOR then
          (let g = g\<lparr>state := GAME_COIN_COLLECTOR\<rparr>;
               g = g\<lparr>current_game_target :=
                      (if current_difficulty g = EASY then 15
                       else if current_difficulty g = HARD then 30 else 20)\<rparr>
           in case init_coin_collector_game rnd (logic_time inp) g of
                None \<Rightarrow> Inl Never_Returns
              | Some g \<Rightarrow> Inr (g\<lparr>coins := 0, menu_select_timer := 0\<rparr>))
        else if selected_game g = DODGE then
          (let g = g\<lparr>state := GAME_DODGE\<rparr>;
               g = init_dodge_game (logic_time inp) g
           in Inr (g\<lparr>menu_select_timer := 0\<rparr>))
        else Inr (g\<lparr>menu_select_timer := 0\<rparr>))"

definition case_difficulty_selection :: "(nat \<Rightarrow> nat) \<Rightarrow> frame_input \<Rightarrow> real \<Rightarrow> game \<Rightarrow> fault + game" where
  "case_difficulty_selection rnd inp delta_time g =
    (let g = difficulty_selection_scan delta_time g
     in if menu_select_timer g \<ge> MENU_SELECT_TIME_REQUIRED
        then difficulty_selection_commit rnd inp g else Inr g)"

subsection \<open>Balance-Hold and Coin-Collector\<close>

text \<open>
  The target of Balance-Hold moves and bounces off the walls of its region; then the hold
  timer runs while the avatar is within the hold radius, and a completed hold scores.
\<close>

definition move_target :: "real \<Rightarrow> TargetObject \<Rightarrow> TargetObject" where
  "move_target delta_time target =
    (let target = target\<lparr>t_x := t_x target + t_velocity_x target * delta_time\<rparr>;
         target = target\<lparr>t_y := t_y target + t_velocity_y target * delta_time\<rparr>;
         target = (if t_x target < real_of_int BH_GRACE_ZONE_RADIUS
                      \<or> t_x target > real_of_int (WINDOW_WIDTH - BH_GRACE_ZONE_RADIUS)
                   then target\<lparr>t_velocity_x := t_velocity_x target * - 1\<rparr> else target);
         target = (if t_y target < real_of_int BH_GRACE_ZONE_RADIUS
                      \<or> t_y target > real_of_int (WINDOW_HEIGHT - BH_GRACE_ZONE_RADIUS)
                   then target\<lparr>t_velocity_y := t_velocity_y target * - 1\<rparr> else target)
     in target)"

definition balance_hold_update :: "(nat \<Rightarrow> nat) \<Rightarrow> frame_input \<Rightarrow> real \<Rightarrow> game \<Rightarrow> game" where
  "balance_hold_update rnd inp delta_time g =
    (let g = g\<lparr>balance_hold_target := move_target delta_time (balance_hold_target g)\<rparr>;
         g = (if is_in_zone (player g) (balance_hold_target g) BH_HOLD_RADIUS
              then g\<lparr>hold_timer := hold_timer g + delta_time\<rparr>
              else g\<lparr>hold_timer := 0, beeps_played := 0\<rparr>)
     in if hold_timer g \<ge> BH_HOLD_TIME_REQUIRED then
          (let g = g\<lparr>coins := coins g + 1\<rparr>
           in if coins g \<ge> current_game_target g then g\<lparr>state := WINNING\<rparr>
              else init_balance_hold_game rnd (logic_time inp) g)
        else g)"

text \<open>
  One iteration of the loop over the coin slots. The array has 30 slots; the read of
  slot \<open>i\<close> and the write of slot \<open>i + 1\<close> are faults outside it. The capture radius
  \<^verbatim>\<open>STARTING_COIN_SIZE * 1.2\<close> is converted to \<^verbatim>\<open>int\<close> when passed to \<^verbatim>\<open>is_in_zone\<close>.
\<close>

definition coin_slot_step :: "(nat \<Rightarrow> nat) \<Rightarrow> nat \<Rightarrow> game \<Rightarrow> fault + game" where
  "coin_slot_step rnd i g =
    (if i \<ge> length (coin_collector_coins g) then Inl Out_Of_Bounds
     else if c_active (coin_collector_coins g ! i) \<noteq> 0 then
       (if is_in_zone (player g)
             \<lparr>t_x = c_x (coin_collector_coins g ! i), t_y = c_y (coin_collector_coins g ! i),
              t_velocity_x = 0, t_velocity_y = 0\<rparr>
             \<lfloor>real_of_int STARTING_COIN_SIZE * (12 / 10)\<rfloor>
        then
          (let g = g\<lparr>coin_collector_coins :=
                       (coin_collector_coins g)[i := (coin_collector_coins g ! i)\<lparr>c_active := 0\<rparr>]\<rparr>;
               g = g\<lparr>coins := coins g + 1\<rparr>
           in if coins g < current_game_target g then
                (let next_coin_index = i + 1
                 in case spawn_coin rnd (p_x (player g)) (p_y (player g)) (rand_pos g) of
                      None \<Rightarrow> Inl Never_Returns
                    | Some (new_coin_x, new_coin_y, r) \<Rightarrow>
                        (if next_coin_index \<ge> length (coin_collector_coins g) then Inl Out_Of_Bounds
                         else
                           (let g = g\<lparr>coin_collector_coins := (coin_collector_coins g)
                                        [next_coin_index :=
                                           \<lparr>c_x = new_coin_x, c_y = new_coin_y, c_active = 1\<rparr>],
                                      rand_pos := r\<rparr>
                            in Inr (if current_difficulty g = HARD
                                    then g\<lparr>coin_timer := CC_COIN_TIMER\<rparr> else g))))
              else Inr (g\<lparr>state := WINNING\<rparr>))
        else Inr g)
     else Inr g)"

fun coin_slots_loop :: "(nat \<Rightarrow> nat) \<Rightarrow> nat list \<Rightarrow> game \<Rightarrow> fault + game" where
  "coin_slots_loop rnd [] g = Inr g"
| "coin_slots_loop rnd (i # rest) g =
    (case coin_slot_step rnd i g of
       Inl e \<Rightarrow> Inl e
     | Inr g \<Rightarrow> coin_slots_loop rnd rest g)"

text \<open>
  The block run when the state has just become \<open>WINNING\<close> in Balance-Hold or
  Coin-Collector.
\<close>

definition winning_entry :: "(nat \<Rightarrow> nat) \<Rightarrow> frame_input \<Rightarrow> game \<Rightarrow> fault + game" where
  "winning_entry rnd inp g =
    (let g = g\<lparr>win_message_start_time := logic_time inp\<rparr>;
         win_time = real (unat (win_message_start_time g - game_start_time g)) / 1000
     in case (if lowest_time_to_win g = - 1 \<or> win_time < lowest_time_to_win g then
                (let g = g\<lparr>lowest_time_to_win := win_time\<rparr>
                 in case get_profile_filename ''score.txt'' (selected_player_index g) of
                      None \<Rightarrow> Inl Out_Of_Bounds
                    | Some score_name \<Rightarrow> Inr (write_lowest_time score_name (lowest_time_to_win g) g))
              else Inr g) of
          Inl e \<Rightarrow> Inl e
        | Inr g \<Rightarrow>
            (let g = g\<lparr>total_wins := total_wins g + 1\<rparr>
             in case get_profile_filename ''wins.txt'' (selected_player_index g) of
                  None \<Rightarrow> Inl Out_Of_Bounds
                | Some wins_name \<Rightarrow>
                    (let g = write_total_wins wins_name (total_wins g) g
                     in Inr (init_confetti rnd (p_x (player g)) (p_y (player g)) g))))"

text \<open>
  The shared case of the two modes. A Coin-Collector countdown that runs out resets the
  session, sets the state to \<open>MAIN_MENU\<close> and leaves the frame at once.
\<close>

definition case_hold_or_coins :: "(nat \<Rightarrow> nat) \<Rightarrow> frame_input \<Rightarrow> real \<Rightarrow> game \<Rightarrow> fault + game" where
  "case_hold_or_coins rnd inp delta_time g =
    (let target_x_general = real_of_int WINDOW_WIDTH / 2
                              + x_cob g * COB_SCALE_GENERAL * real_of_int WINDOW_WIDTH;
         target_y_general = real_of_int WINDOW_HEIGHT / 2
                              + y_cob g * - COB_SCALE_GENERAL * real_of_int WINDOW_HEIGHT;
         g = update_player_position target_x_general target_y_general delta_time g
     in if state g = GAME_BALANCE_HOLD then
          (let g = balance_hold_update rnd inp delta_time g
           in if state g = WINNING then winning_entry rnd inp g else Inr g)
        else
          (let g = (if current_difficulty g = HARD
                    then g\<lparr>coin_timer := coin_timer g - delta_time\<rparr> else g)
           in if current_difficulty g = HARD \<and> coin_timer g \<le> 0 then
                Inr ((reset_game_state g)\<lparr>state := MAIN_MENU\<rparr>)
              else
                (case coin_slots_loop rnd [0..<nat (current_game_target g)] g of
                   Inl e \<Rightarrow> Inl e
                 | Inr g \<Rightarrow> if state g = WINNING then winning_entry rnd inp g else Inr g)))"

subsection \<open>Dodge\<close>

text \<open>
  The C conversion of a \<^verbatim>\<open>float\<close> to \<^verbatim>\<open>int\<close> truncates towards zero.
  \<^verbatim>\<open>SDL_HasIntersection\<close> is the SDL2 library's rectangle test: two rectangles
  \<open>(x, y, w, h)\<close> intersect when they overlap in a region of positive width and height.
\<close>

definition c_trunc :: "real \<Rightarrow> int" where
  "c_trunc r = (if r \<ge> 0 then \<lfloor>r\<rfloor> else \<lceil>r\<rceil>)"

definition SDL_HasIntersection :: "int \<times> int \<times> int \<times> int \<Rightarrow> int \<times> int \<times> int \<times> int \<Rightarrow> bool" where
  "SDL_HasIntersection A B =
    (case A of (ax, ay, aw, ah) \<Rightarrow> case B of (bx, by, bw, bh) \<Rightarrow>
       aw > 0 \<and> ah > 0 \<and> bw > 0 \<and> bh > 0
       \<and> max ax bx < min (ax + aw) (bx + bw)
       \<and> max ay by < min (ay + ah) (by + bh))"

text \<open>
  One iteration of the loop over the block pool: the result says whether the loop is left
  by \<^verbatim>\<open>break\<close> (a collision). The write of the high score needs the profile file name.
\<close>

definition dodge_block_step :: "real \<Rightarrow> nat \<Rightarrow> game \<Rightarrow> fault + (bool \<times> game)" where
  "dodge_block_step delta_time i g =
    (if b_active (dodge_blocks g ! i) \<noteq> 0 then
       (let b = dodge_blocks g ! i;
            g = g\<lparr>dodge_blocks := (dodge_blocks g)[i := b\<lparr>b_x := b_x b - b_speed b * delta_time\<rparr>]\<rparr>
        in case (if b_x (dodge_blocks g ! i) + real_of_int BLOCK_WIDTH < 0 then
                   (let g = g\<lparr>dodge_blocks := (dodge_blocks g)[i := (dodge_blocks g ! i)\<lparr>b_active := 0\<rparr>]\<rparr>;
                        g = g\<lparr>dodge_score := dodge_score g + 1\<rparr>
                    in if dodge_score g > dodge_high_score g then
                         (let g = g\<lparr>dodge_high_score := dodge_score g\<rparr>
                          in case get_profile_filename ''dodge_score.txt'' (selected_player_index g) of
                               None \<Rightarrow> Inl Out_Of_Bounds
                             | Some dodge_name \<Rightarrow>
                                 Inr (write_dodge_high_score dodge_name (dodge_high_score g) g))
                       else Inr g)
                 else Inr g) of
             Inl e \<Rightarrow> Inl e
           | Inr g \<Rightarrow>
               (let block_rect = (c_trunc (b_x (dodge_blocks g ! i)), c_trunc (b_y (dodge_blocks g ! i)),
                                  BLOCK_WIDTH, BLOCK_HEIGHT);
                    player_rect = (c_trunc (p_x (player g) - real_of_int (GAME_OBJECT_SIZE div 2)),
                                   c_trunc (p_y (player g) - real_of_int (GAME_OBJECT_SIZE div 2)),
                                   GAME_OBJECT_SIZE, GAME_OBJECT_SIZE)
                in if SDL_HasIntersection block_rect player_rect
                   then Inr (True, g\<lparr>state := WINNING\<rparr>)
                   else Inr (False, g)))
     else Inr (False, g))"

fun dodge_blocks_loop :: "real \<Rightarrow> nat list \<Rightarrow> game \<Rightarrow> fault + game" where
  "dodge_blocks_loop delta_time [] g = Inr g"
| "dodge_blocks_loop delta_time (i # rest) g =
    (case dodge_block_step delta_time i g of
       Inl e \<Rightarrow> Inl e
     | Inr (broke, g) \<Rightarrow> if broke then Inr g else dodge_blocks_loop delta_time rest g)"

definition case_dodge :: "(nat \<Rightarrow> nat) \<Rightarrow> real \<Rightarrow> game \<Rightarrow> fault + game" where
  "case_dodge rnd delta_time g =
    (let target_x_dodge = real_of_int WINDOW_WIDTH / 2
                            + x_cob g * COB_SCALE_DODGE * real_of_int WINDOW_WIDTH;
         target_y_dodge = real_of_int WINDOW_HEIGHT / 2
                            + y_cob g * - COB_SCALE_DODGE * real_of_int WINDOW_HEIGHT;
         g = (if current_total_weight g > MIN_TOTAL_WEIGHT
                 \<and> (\<bar>x_cob g\<bar> > DEAD_ZONE \<or> \<bar>y_cob g\<bar> > DEAD_ZONE)
              then update_player_position target_x_dodge target_y_dodge delta_time g else g)
     in case dodge_blocks_loop delta_time [0..<MAX_DODGE_BLOCKS] g of
          Inl e \<Rightarrow> Inl e
        | Inr g \<Rightarrow>
            (let g = g\<lparr>block_spawn_timer := block_spawn_timer g + delta_time\<rparr>;
                 g = (if block_spawn_timer g \<ge> dynamic_block_spawn_interval g
                      then (spawn_dodge_block rnd g)\<lparr>block_spawn_timer := 0\<rparr> else g);
                 g = g\<lparr>current_block_speed := current_block_speed g + BLOCK_SPEED_INCREMENT * delta_time\<rparr>
             in Inr (g\<lparr>dynamic_block_spawn_interval :=
                        max (1 / 2) (dynamic_block_spawn_interval g - (1 / 100) * delta_time)\<rparr>)))"

subsection \<open>Winning\<close>

definition case_winning :: "frame_input \<Rightarrow> real \<Rightarrow> game \<Rightarrow> game" where
  "case_winning inp delta_time g =
    (let g = update_confetti delta_time g
     in if unat (logic_time inp - win_message_start_time g) > WIN_ANIMATION_DURATION then
          (let g = (if dodge_score g > 0 then
                      g\<lparr>block_spawn_timer := 0,
                        current_block_speed := BLOCK_INITIAL_SPEED,
                        dynamic_block_spawn_interval := BLOCK_SPAWN_INTERVAL,
                        dodge_blocks := map (\<lambda>b. b\<lparr>b_active := 0\<rparr>) (dodge_blocks g),
                        dodge_score := 0\<rparr>
                    else g);
               g = reset_game_state g;
               g = g\<lparr>state := PLAYER_SELECTION\<rparr>
           in init_player g)
        else g)"

subsection \<open>One frame\<close>

text \<open>
  The inactivity check that precedes the state switch; it does not leave the frame, so
  the switch then runs on the state \<open>CONNECTING\<close>.
\<close>

definition inactivity_check :: "frame_input \<Rightarrow> game \<Rightarrow> game" where
  "inactivity_check inp g =
    (if state g \<noteq> CONNECTING \<and> state g \<noteq> TRANSITIONING
        \<and> current_total_weight g < MIN_TOTAL_WEIGHT then
       (if unat (current_time inp - last_input_time g) > INACTIVITY_TIMEOUT_SECONDS * 1000
        then (reset_game_state g)\<lparr>state := CONNECTING, connection_start_time := logic_time inp\<rparr>
        else g)
     else g\<lparr>last_input_time := current_time inp\<rparr>)"

definition state_switch :: "(nat \<Rightarrow> nat) \<Rightarrow> frame_input \<Rightarrow> real \<Rightarrow> game \<Rightarrow> fault + game" where
  "state_switch rnd inp delta_time g =
    (case state g of
       CONNECTING \<Rightarrow> Inr (case_connecting inp g)
     | TRANSITIONING \<Rightarrow> Inr (case_transitioning inp g)
     | PLAYER_SELECTION \<Rightarrow> case_player_selection delta_time g
     | MAIN_MENU \<Rightarrow> case_main_menu inp delta_time g
     | DIFFICULTY_SELECTION \<Rightarrow> case_difficulty_selection rnd inp delta_time g
     | GAME_BALANCE_HOLD \<Rightarrow> case_hold_or_coins rnd inp delta_time g
     | GAME_COIN_COLLECTOR \<Rightarrow> case_hold_or_coins rnd inp delta_time g
     | GAME_DODGE \<Rightarrow> case_dodge rnd delta_time g
     | WINNING \<Rightarrow> Inr (case_winning inp delta_time g))"

text \<open>
  The logic of one iteration of the frame loop, from the computation of \<open>delta_time\<close>
  to the end of the state switch. The sensor is read only when the state is not
  \<open>CONNECTING\<close>; a disconnection resets the session and leaves the frame.
\<close>

definition frame :: "(nat \<Rightarrow> nat) \<Rightarrow> frame_input \<Rightarrow> game \<Rightarrow> fault + game" where
  "frame rnd inp g =
    (let delta_time = real (unat (current_time inp - last_frame_time g)) / 1000;
         g = g\<lparr>last_frame_time := current_time inp\<rparr>
     in if state g \<noteq> CONNECTING then
          (case read_wii_balance_board_data (poll_ret inp) g of (rc, g) \<Rightarrow>
             if rc \<noteq> 0 then
               Inr ((reset_game_state g)\<lparr>state := CONNECTING, connection_start_time := logic_time inp\<rparr>)
             else state_switch rnd inp delta_time (inactivity_check inp g))
        else state_switch rnd inp delta_time (inactivity_check inp g))"

section \<open>Auxiliary definitions for the properties\<close>

text \<open>
  Closed form of the motion smoother for an avatar that starts at rest and is not
  clamped: after \<open>n\<close> steps of size \<open>dt\<close> the position is
  \<open>x + a * (target - x)\<close> and the velocity \<open>b * (target - x)\<close>, where
  \<open>(a, b) = spring_coef dt n\<close>.
\<close>

fun spring_coef :: "real \<Rightarrow> nat \<Rightarrow> real \<times> real" where
  "spring_coef dt 0 = (0, 0)"
| "spring_coef dt (Suc n) =
    (let a = fst (spring_coef dt n); b = snd (spring_coef dt n);
         b' = b + ((1 - a) * SPRING_CONSTANT - b * DAMPING_FACTOR) * dt;
         a' = a + b' * dt
     in (a', b'))"

text \<open>The fraction of the distance to the target covered by ten steps of a hundredth.\<close>

definition ten_step_gain :: real where
  "ten_step_gain = 47099162260688206717771128549 / 10 ^ 30"

text \<open>
  What the sensor reader computes from one event: the total weight it compares with the
  threshold, and the two balance components before the dead zone is applied. An event
  is heavy when it is a balance-board event that passes the weight gate.
\<close>

fun event_weight :: "xwii_event \<Rightarrow> real" where
  "event_weight (BALANCE_BOARD a0 a1 a2 a3) =
     (real_of_int a2 / 100 + real_of_int a0 / 100 + real_of_int a3 / 100 + real_of_int a1 / 100) * 100"
| "event_weight OTHER_EVENT = 0"

fun event_x_cob :: "xwii_event \<Rightarrow> real" where
  "event_x_cob (BALANCE_BOARD a0 a1 a2 a3) =
     (real_of_int a0 / 100 + real_of_int a1 / 100 - real_of_int a2 / 100 - real_of_int a3 / 100) * 100"
| "event_x_cob OTHER_EVENT = 0"

fun event_y_cob :: "xwii_event \<Rightarrow> real" where
  "event_y_cob (BALANCE_BOARD a0 a1 a2 a3) =
     (real_of_int a2 / 100 + real_of_int a0 / 100 - real_of_int a3 / 100 - real_of_int a1 / 100) * 100"
| "event_y_cob OTHER_EVENT = 0"

fun heavy :: "xwii_event \<Rightarrow> bool" where
  "heavy (BALANCE_BOARD a0 a1 a2 a3) = (event_weight (BALANCE_BOARD a0 a1 a2 a3) > MIN_TOTAL_WEIGHT)"
| "heavy OTHER_EVENT = False"

definition dead_zone :: "real \<Rightarrow> real" where
  "dead_zone v = (if \<bar>v\<bar> < DEAD_ZONE then 0 else v)"

text \<open>The state after \<open>n\<close> successive sensor reads whose poll timed out.\<close>

fun timeout_reads :: "nat \<Rightarrow> game \<Rightarrow> game" where
  "timeout_reads 0 g = g"
| "timeout_reads (Suc n) g = snd (read_wii_balance_board_data POLL_TIMEOUT (timeout_reads n g))"

text \<open>Concrete inputs for the worked examples.\<close>

definition zero_rand :: "nat \<Rightarrow> nat" where
  "zero_rand i = 0"

definition connected_start :: "GameState \<Rightarrow> game" where
  "connected_start st = (program_start 0)\<lparr>state := st, iface := True, fd := 3, selected_player_index := 0\<rparr>"

definition timeout_input :: frame_input where
  "timeout_input = \<lparr>current_time = 16, logic_time = 116, poll_ret = POLL_TIMEOUT, xwii_init = INIT_FAILED\<rparr>"

text \<open>
  A Coin-Collector session on hard difficulty, four coins collected, the player
  \<open>Player 1\<close> standing on the board, one hundredth of a second left on the countdown;
  and a frame of 16 milliseconds in which the board reports an evenly loaded event.
\<close>

definition coin_timeout_state :: game where
  "coin_timeout_state =
     (connected_start GAME_COIN_COLLECTOR)
       \<lparr>current_difficulty := HARD, selected_game := COIN_COLLECTOR, difficulty_selection := 3,
        current_game_target := 30, coins := 4, coin_timer := 1 / 100,
        current_total_weight := 5000\<rparr>"

definition steady_input :: frame_input where
  "steady_input =
     \<lparr>current_time = 16, logic_time = 17,
      poll_ret = POLL_READY [BALANCE_BOARD 1250 1250 1250 1250], xwii_init = INIT_FAILED\<rparr>"

text \<open>
  Names for two values of a frame: the elapsed time \<open>delta_time\<close> it computes, and the
  state right after its sensor read.
\<close>

definition frame_delta :: "frame_input \<Rightarrow> game \<Rightarrow> real" where
  "frame_delta inp g = real (unat (current_time inp - last_frame_time g)) / 1000"

definition sensed :: "frame_input \<Rightarrow> game \<Rightarrow> game" where
  "sensed inp g = snd (read_wii_balance_board_data (poll_ret inp) (g\<lparr>last_frame_time := current_time inp\<rparr>))"

text \<open>
  What the Dodge loop does to one block of the pool in a frame of length \<open>dt\<close>: an
  active block moves left by its speed; it has fully left the screen when its right edge
  is then left of the window.
\<close>

definition moved :: "real \<Rightarrow> DodgeBlock \<Rightarrow> DodgeBlock" where
  "moved dt b = b\<lparr>b_x := b_x b - b_speed b * dt\<rparr>"

definition exits :: "real \<Rightarrow> DodgeBlock \<Rightarrow> bool" where
  "exits dt b = (b_active b \<noteq> 0 \<and> b_x b - b_speed b * dt + real_of_int BLOCK_WIDTH < 0)"

definition retire_block :: "real \<Rightarrow> DodgeBlock \<Rightarrow> DodgeBlock" where
  "retire_block dt b =
     (if b_active b \<noteq> 0
      then (if exits dt b then (moved dt b)\<lparr>b_active := 0\<rparr> else moved dt b)
      else b)"


text \<open>
  A Dodge session of \<open>Player 1\<close> with two blocks on their way: the first about to leave
  the screen on the left, the second in the upper part of the field, away from the
  avatar in the centre.
\<close>

definition two_blocks_state :: game where
  "two_blocks_state =
     (connected_start GAME_DODGE)
       \<lparr>selected_game := DODGE, current_total_weight := 5000,
        dodge_blocks :=
          [\<lparr>b_x = - 49, b_y = 0, b_speed = 300, b_active = 1\<rparr>,
           \<lparr>b_x = 1000, b_y = 0, b_speed = 300, b_active = 1\<rparr>]
          @ replicate 8 \<lparr>b_x = 0, b_y = 0, b_speed = 0, b_active = 0\<rparr>\<rparr>"

text \<open>
  The zone the balance falls into on a selection screen: 1 left, 2 centre, 3 right, 0 for
  none (too little weight, or an x-component in one of the two gaps between the zones).
  The three screens test the same conditions; the main menu maps the zones to games.
\<close>

definition zone_choice :: "game \<Rightarrow> int" where
  "zone_choice g =
     (if current_total_weight g > MIN_TOTAL_WEIGHT then
        (if x_cob g < - 200 then 1
         else if \<bar>x_cob g\<bar> < 150 then 2
         else if x_cob g > 200 then 3
         else 0)
      else 0)"

definition game_of_zone :: "int \<Rightarrow> GameType" where
  "game_of_zone z =
     (if z = 1 then BALANCE_HOLD else if z = 2 then DODGE
      else if z = 3 then COIN_COLLECTOR else NO_GAME_SELECTED)"

text \<open>
  A frame at tick \<open>t\<close> in which the board reports one evenly loaded event; a connection
  attempt made in it succeeds.
\<close>

definition board_input :: "32 word \<Rightarrow> frame_input" where
  "board_input t =
     \<lparr>current_time = t, logic_time = t + 1,
      poll_ret = POLL_READY [BALANCE_BOARD 1250 1250 1250 1250], xwii_init = INIT_OK 3\<rparr>"

text \<open>
  Four selection screens twenty seconds after program start, each with a choice held for
  1.49 seconds so far: the player screen with the player leaning left, the main menu
  with the player leaning left and with the player centred, and the difficulty screen of
  Coin-Collector with the player leaning right.
\<close>

definition leaning_left_state :: game where
  "leaning_left_state =
     (connected_start PLAYER_SELECTION)
       \<lparr>last_frame_time := 20000, last_input_time := 20000,
        current_total_weight := 5000, x_cob := - 500, selected_player_index := - 1,
        player_selection_choice := 1, menu_select_timer := 149 / 100\<rparr>"

definition menu_left_state :: game where
  "menu_left_state =
     (connected_start MAIN_MENU)
       \<lparr>last_frame_time := 20000, last_input_time := 20000,
        current_total_weight := 5000, x_cob := - 500,
        selected_game := BALANCE_HOLD, menu_select_timer := 149 / 100\<rparr>"

definition menu_centre_state :: game where
  "menu_centre_state =
     (connected_start MAIN_MENU)
       \<lparr>last_frame_time := 20000, last_input_time := 20000,
        current_total_weight := 5000, x_cob := 0,
        selected_game := DODGE, menu_select_timer := 149 / 100\<rparr>"

definition difficulty_right_state :: game where
  "difficulty_right_state =
     (connected_start DIFFICULTY_SELECTION)
       \<lparr>last_frame_time := 20000, last_input_time := 20000,
        current_total_weight := 5000, x_cob := 500,
        selected_game := COIN_COLLECTOR, difficulty_selection := 3,
        menu_select_timer := 149 / 100\<rparr>"

text \<open>
  The position the rejection loop samples from the random numbers at \<open>r\<close> and
  \<open>r + 1\<close>, and the test it applies to it for an avatar at \<open>(px, py)\<close>.
\<close>

definition sample_x :: "(nat \<Rightarrow> nat) \<Rightarrow> nat \<Rightarrow> real" where
  "sample_x rnd r =
     real_of_int (int (rnd r) mod (WINDOW_WIDTH - COIN_SAFE_MARGIN * 2)) + real_of_int COIN_SAFE_MARGIN"

definition sample_y :: "(nat \<Rightarrow> nat) \<Rightarrow> nat \<Rightarrow> real" where
  "sample_y rnd r =
     real_of_int (int (rnd (r + 1)) mod (WINDOW_HEIGHT - COIN_SAFE_MARGIN * 2)) + real_of_int COIN_SAFE_MARGIN"

definition accepted :: "(nat \<Rightarrow> nat) \<Rightarrow> real \<Rightarrow> real \<Rightarrow> nat \<Rightarrow> bool" where
  "accepted rnd px py r =
     (hypot (sample_x rnd r - px) (sample_y rnd r - py) > real_of_int COIN_SPAWN_MIN_DIST_PLAYER)"

text \<open>A coin position that keeps the distance from the avatar and the margin from the edges.\<close>

definition good_coin_position :: "real \<Rightarrow> real \<Rightarrow> real \<Rightarrow> real \<Rightarrow> bool" where
  "good_coin_position px py cx cy =
     (hypot (cx - px) (cy - py) > real_of_int COIN_SPAWN_MIN_DIST_PLAYER
      \<and> real_of_int COIN_SAFE_MARGIN \<le> cx \<and> cx \<le> real_of_int (WINDOW_WIDTH - COIN_SAFE_MARGIN)
      \<and> real_of_int COIN_SAFE_MARGIN \<le> cy \<and> cy \<le> real_of_int (WINDOW_HEIGHT - COIN_SAFE_MARGIN))"

text \<open>
  The time the win handling computes: the ticks from \<open>game_start_time\<close> to the frame,
  as an unsigned 32-bit difference, in seconds; and whether it beats the best time on
  record (\<open>-1\<close> stands for no record).
\<close>

definition win_time :: "frame_input \<Rightarrow> game \<Rightarrow> real" where
  "win_time inp g = real (unat (logic_time inp - game_start_time g)) / 1000"








definition collision_state :: game where
  "collision_state =
     (connected_start GAME_DODGE)
       \<lparr>last_frame_time := 24336, last_input_time := 24336, current_total_weight := 5000,
        selected_game := DODGE, game_start_time := 20017, rand_pos := 190,
        block_spawn_timer := 368 / 1000, current_block_speed := 516,
        dynamic_block_spawn_interval := 19568 / 10000,
        dodge_blocks :=
          [\<lparr>b_x = 10393376 / 10000, b_y = 500, b_speed = 3984 / 10, b_active = 1\<rparr>,
           \<lparr>b_x = 17871776 / 10000, b_y = 120, b_speed = 4968 / 10, b_active = 1\<rparr>]
          @ replicate 8 \<lparr>b_x = 0, b_y = 0, b_speed = 0, b_active = 0\<rparr>\<rparr>"

text \<open>
  Two states agree on the pace of Dodge: the spawn interval is the same, and the Dodge
  score is the same or has been set to zero. The cleanup of the winning state is due in a
  frame when more than \<open>WIN_ANIMATION_DURATION\<close> ticks have passed since the time
  stamp of the win.
\<close>

definition kept :: "game \<Rightarrow> game \<Rightarrow> bool" where
  "kept g g' =
     (dynamic_block_spawn_interval g' = dynamic_block_spawn_interval g
      \<and> (dodge_score g' = dodge_score g \<or> dodge_score g' = 0))"

definition cleanup_due :: "frame_input \<Rightarrow> game \<Rightarrow> bool" where
  "cleanup_due inp g = (unat (logic_time inp - win_message_start_time g) > WIN_ANIMATION_DURATION)"

text \<open>
  The frame loop of \<^verbatim>\<open>main\<close> run on a list of inputs, one per frame, and the runs in
  which every frame starts in a state other than \<open>GAME_DODGE\<close> (the last frame may
  end in it).
\<close>

fun frames :: "(nat \<Rightarrow> nat) \<Rightarrow> frame_input list \<Rightarrow> game \<Rightarrow> fault + game" where
  "frames rnd [] g = Inr g"
| "frames rnd (inp # rest) g =
     (case frame rnd inp g of
        Inl e \<Rightarrow> Inl e
      | Inr g \<Rightarrow> frames rnd rest g)"

fun outside_dodge :: "(nat \<Rightarrow> nat) \<Rightarrow> frame_input list \<Rightarrow> game \<Rightarrow> bool" where
  "outside_dodge rnd [] g = True"
| "outside_dodge rnd (inp # rest) g =
     (state g \<noteq> GAME_DODGE
      \<and> (case frame rnd inp g of
            Inl e \<Rightarrow> True
          | Inr g \<Rightarrow> outside_dodge rnd rest g))"

text \<open>
  Six frames after the collision frame of \<open>collision_state\<close>: three of 16
  milliseconds, then three that are two seconds apart, the player standing centred.
\<close>

definition way_back :: "frame_input list" where
  "way_back = map board_input [24368, 24384, 24400, 26400, 28400, 30400]"

section \<open>Verified properties\<close>

subsection \<open>Motion smoother: dependence on the step size\<close>

lemma upp_player_x:
  "p_x (player (update_player_position tx ty dt g)) =
     (let x' = p_x (player g) + (p_velocity_x (player g) + ((tx - p_x (player g)) * 10 - p_velocity_x (player g) * 5) * dt) * dt
      in if x' < 75 then 75 else if x' > 1845 then 1845 else x')"
  by (simp add: update_player_position_def spring_step_def Let_def)

lemma upp_player_vx:
  "p_velocity_x (player (update_player_position tx ty dt g)) =
     (let v' = p_velocity_x (player g) + ((tx - p_x (player g)) * 10 - p_velocity_x (player g) * 5) * dt;
          x' = p_x (player g) + v' * dt
      in if x' < 75 \<or> x' > 1845 then 0 else v')"
  by (simp add: update_player_position_def spring_step_def Let_def)

lemma upp_player_y:
  "p_y (player (update_player_position tx ty dt g)) =
     (let y' = p_y (player g) + (p_velocity_y (player g) + ((ty - p_y (player g)) * 10 - p_velocity_y (player g) * 5) * dt) * dt
      in if y' < 75 then 75 else if y' > 1005 then 1005 else y')"
  by (simp add: update_player_position_def spring_step_def Let_def)

lemma upp_player_vy:
  "p_velocity_y (player (update_player_position tx ty dt g)) =
     (let v' = p_velocity_y (player g) + ((ty - p_y (player g)) * 10 - p_velocity_y (player g) * 5) * dt;
          y' = p_y (player g) + v' * dt
      in if y' < 75 \<or> y' > 1005 then 0 else v')"
  by (simp add: update_player_position_def spring_step_def Let_def)

lemma convex_between:
  fixes a x t lo hi :: real
  assumes "0 \<le> a" "a \<le> 1" "lo \<le> x" "x \<le> hi" "lo \<le> t" "t \<le> hi"
  shows "lo \<le> x + a * (t - x) \<and> x + a * (t - x) \<le> hi"
proof -
  have e: "x + a * (t - x) = (1 - a) * x + a * t" by (simp add: algebra_simps)
  have 1: "(1 - a) * lo \<le> (1 - a) * x" using assms by (intro mult_left_mono) simp_all
  have 2: "a * lo \<le> a * t" using assms by (intro mult_left_mono) simp_all
  have 3: "(1 - a) * x \<le> (1 - a) * hi" using assms by (intro mult_left_mono) simp_all
  have 4: "a * t \<le> a * hi" using assms by (intro mult_left_mono) simp_all
  have 5: "(1 - a) * lo + a * lo = lo" by (simp add: algebra_simps)
  have 6: "(1 - a) * hi + a * hi = hi" by (simp add: algebra_simps)
  show ?thesis unfolding e using 1 2 3 4 5 6 by linarith
qed


lemma upp_step_x:
  assumes px: "p_x (player g) = x0 + a * (tx - x0)"
    and vx: "p_velocity_x (player g) = b * (tx - x0)"
    and b': "b' = b + ((1 - a) * 10 - b * 5) * dt"
    and a': "a' = a + b' * dt"
    and lo: "75 \<le> x0 + a' * (tx - x0)" and hi: "x0 + a' * (tx - x0) \<le> 1845"
  shows "p_x (player (update_player_position tx ty dt g)) = x0 + a' * (tx - x0)"
    and "p_velocity_x (player (update_player_position tx ty dt g)) = b' * (tx - x0)"
proof -
  have v: "p_velocity_x (player g) + ((tx - p_x (player g)) * 10 - p_velocity_x (player g) * 5) * dt
             = b' * (tx - x0)"
    unfolding px vx b' by (simp add: algebra_simps)
  have x: "p_x (player g) + (b' * (tx - x0)) * dt = x0 + a' * (tx - x0)"
    unfolding px a' by (simp add: algebra_simps)
  show "p_x (player (update_player_position tx ty dt g)) = x0 + a' * (tx - x0)"
    unfolding upp_player_x Let_def v x using lo hi by simp
  show "p_velocity_x (player (update_player_position tx ty dt g)) = b' * (tx - x0)"
    unfolding upp_player_vx Let_def v x using lo hi by simp
qed


lemma spring_coef_Suc:
  "fst (spring_coef dt (Suc n)) = fst (spring_coef dt n) + snd (spring_coef dt (Suc n)) * dt"
  "snd (spring_coef dt (Suc n)) = snd (spring_coef dt n)
      + ((1 - fst (spring_coef dt n)) * 10 - snd (spring_coef dt n) * 5) * dt"
  by (simp_all add: Let_def)

lemma steps_from_rest_x:
  assumes "p_x (player g) = x0" "p_velocity_x (player g) = 0"
    and "75 \<le> x0" "x0 \<le> 1845" "75 \<le> tx" "tx \<le> 1845"
    and "\<forall>k\<le>n. 0 \<le> fst (spring_coef dt k) \<and> fst (spring_coef dt k) \<le> 1"
  shows "p_x (player ((update_player_position tx ty dt ^^ n) g)) = x0 + fst (spring_coef dt n) * (tx - x0)
       \<and> p_velocity_x (player ((update_player_position tx ty dt ^^ n) g)) = snd (spring_coef dt n) * (tx - x0)"
  using assms(7)
proof (induction n)
  case 0
  then show ?case using assms(1,2) by simp
next
  case (Suc n)
  have prem: "\<forall>k\<le>n. 0 \<le> fst (spring_coef dt k) \<and> fst (spring_coef dt k) \<le> 1"
    using Suc.prems le_SucI by blast
  have rng: "0 \<le> fst (spring_coef dt (Suc n))" "fst (spring_coef dt (Suc n)) \<le> 1"
    using Suc.prems by blast+
  note ih = Suc.IH[OF prem]
  note bnd = convex_between[OF rng assms(3,4,5,6)]
  have "p_x (player (update_player_position tx ty dt ((update_player_position tx ty dt ^^ n) g)))
          = x0 + fst (spring_coef dt (Suc n)) * (tx - x0)"
    by (rule upp_step_x(1)[OF conjunct1[OF ih] conjunct2[OF ih] spring_coef_Suc(2) spring_coef_Suc(1)
          conjunct1[OF bnd] conjunct2[OF bnd]])
  moreover have "p_velocity_x (player (update_player_position tx ty dt ((update_player_position tx ty dt ^^ n) g)))
          = snd (spring_coef dt (Suc n)) * (tx - x0)"
    by (rule upp_step_x(2)[OF conjunct1[OF ih] conjunct2[OF ih] spring_coef_Suc(2) spring_coef_Suc(1)
          conjunct1[OF bnd] conjunct2[OF bnd]])
  ultimately show ?case by (simp only: funpow.simps o_apply) 
qed

lemma upp_step_y:
  assumes py: "p_y (player g) = y0 + a * (ty - y0)"
    and vy: "p_velocity_y (player g) = b * (ty - y0)"
    and b': "b' = b + ((1 - a) * 10 - b * 5) * dt"
    and a': "a' = a + b' * dt"
    and lo: "75 \<le> y0 + a' * (ty - y0)" and hi: "y0 + a' * (ty - y0) \<le> 1005"
  shows "p_y (player (update_player_position tx ty dt g)) = y0 + a' * (ty - y0)"
    and "p_velocity_y (player (update_player_position tx ty dt g)) = b' * (ty - y0)"
proof -
  have v: "p_velocity_y (player g) + ((ty - p_y (player g)) * 10 - p_velocity_y (player g) * 5) * dt
             = b' * (ty - y0)"
    unfolding py vy b' by (simp add: algebra_simps)
  have x: "p_y (player g) + (b' * (ty - y0)) * dt = y0 + a' * (ty - y0)"
    unfolding py a' by (simp add: algebra_simps)
  show "p_y (player (update_player_position tx ty dt g)) = y0 + a' * (ty - y0)"
    unfolding upp_player_y Let_def v x using lo hi by simp
  show "p_velocity_y (player (update_player_position tx ty dt g)) = b' * (ty - y0)"
    unfolding upp_player_vy Let_def v x using lo hi by simp
qed

lemma steps_from_rest_y:
  assumes "p_y (player g) = y0" "p_velocity_y (player g) = 0"
    and "75 \<le> y0" "y0 \<le> 1005" "75 \<le> ty" "ty \<le> 1005"
    and "\<forall>k\<le>n. 0 \<le> fst (spring_coef dt k) \<and> fst (spring_coef dt k) \<le> 1"
  shows "p_y (player ((update_player_position tx ty dt ^^ n) g)) = y0 + fst (spring_coef dt n) * (ty - y0)
       \<and> p_velocity_y (player ((update_player_position tx ty dt ^^ n) g)) = snd (spring_coef dt n) * (ty - y0)"
  using assms(7)
proof (induction n)
  case 0
  then show ?case using assms(1,2) by simp
next
  case (Suc n)
  have prem: "\<forall>k\<le>n. 0 \<le> fst (spring_coef dt k) \<and> fst (spring_coef dt k) \<le> 1"
    using Suc.prems le_SucI by blast
  have rng: "0 \<le> fst (spring_coef dt (Suc n))" "fst (spring_coef dt (Suc n)) \<le> 1"
    using Suc.prems by blast+
  note ih = Suc.IH[OF prem]
  note bnd = convex_between[OF rng assms(3,4,5,6)]
  have "p_y (player (update_player_position tx ty dt ((update_player_position tx ty dt ^^ n) g)))
          = y0 + fst (spring_coef dt (Suc n)) * (ty - y0)"
    by (rule upp_step_y(1)[OF conjunct1[OF ih] conjunct2[OF ih] spring_coef_Suc(2) spring_coef_Suc(1)
          conjunct1[OF bnd] conjunct2[OF bnd]])
  moreover have "p_velocity_y (player (update_player_position tx ty dt ((update_player_position tx ty dt ^^ n) g)))
          = snd (spring_coef dt (Suc n)) * (ty - y0)"
    by (rule upp_step_y(2)[OF conjunct1[OF ih] conjunct2[OF ih] spring_coef_Suc(2) spring_coef_Suc(1)
          conjunct1[OF bnd] conjunct2[OF bnd]])
  ultimately show ?case by (simp only: funpow.simps o_apply) 
qed

lemma spring_coef_hundredth_table:
  shows c1: "spring_coef (1 / 100) (Suc 0) = (1 / 1000, 1 / 10)"
    and c2: "spring_coef (1 / 100) (Suc (Suc 0)) = (2949 / 1000000, 1949 / 10000)"
    and c3: "spring_coef (1 / 100) (Suc (Suc (Suc 0))) = (5797601 / 1000000000, 2848601 / 10000000)"
    and c4: "spring_coef (1 / 100) (Suc (Suc (Suc (Suc 0)))) = (9497974349 / 1000000000000, 3700373349 / 10000000000)"
    and c5: "spring_coef (1 / 100) (Suc (Suc (Suc (Suc (Suc 0))))) = (14003831056201 / 1000000000000000, 4505856707201 / 10000000000000)"
    and c6: "spring_coef (1 / 100) (Suc (Suc (Suc (Suc (Suc (Suc 0)))))) = (19270391096985749 / 1000000000000000000, 5266560040784749 / 10000000000000000)"
    and c7: "spring_coef (1 / 100) (Suc (Suc (Suc (Suc (Suc (Suc (Suc 0))))))) = (25254352744634274801 / 1000000000000000000000, 5983961647648525801 / 10000000000000000000)"
    and c8: "spring_coef (1 / 100) (Suc (Suc (Suc (Suc (Suc (Suc (Suc (Suc 0)))))))) = (31913861957155740037149 / 1000000000000000000000000, 6659509212521465236149 / 10000000000000000000000)"
    and c9: "spring_coef (1 / 100) (Suc (Suc (Suc (Suc (Suc (Suc (Suc (Suc (Suc 0))))))))) = (39208481847093976271453401 / 1000000000000000000000000000, 7294619889938236234304401 / 10000000000000000000000000)"
    and c10: "spring_coef (1 / 100) (Suc (Suc (Suc (Suc (Suc (Suc (Suc (Suc (Suc (Suc 0)))))))))) = (47099162260688206717771128549 / 1000000000000000000000000000000, 7890680413594230446317727549 / 10000000000000000000000000000)"
proof -
  show s1: "spring_coef (1 / 100) (Suc 0) = (1 / 1000, 1 / 10)" by (simp add: Let_def)
  show s2: "spring_coef (1 / 100) (Suc (Suc 0)) = (2949 / 1000000, 1949 / 10000)"
    unfolding spring_coef.simps(2)[of "1 / 100" "Suc 0"] s1 by (simp add: Let_def)
  show s3: "spring_coef (1 / 100) (Suc (Suc (Suc 0))) = (5797601 / 1000000000, 2848601 / 10000000)"
    unfolding spring_coef.simps(2)[of "1 / 100" "Suc (Suc 0)"] s2 by (simp add: Let_def)
  show s4: "spring_coef (1 / 100) (Suc (Suc (Suc (Suc 0)))) = (9497974349 / 1000000000000, 3700373349 / 10000000000)"
    unfolding spring_coef.simps(2)[of "1 / 100" "Suc (Suc (Suc 0))"] s3 by (simp add: Let_def)
  show s5: "spring_coef (1 / 100) (Suc (Suc (Suc (Suc (Suc 0))))) = (14003831056201 / 1000000000000000, 4505856707201 / 10000000000000)"
    unfolding spring_coef.simps(2)[of "1 / 100" "Suc (Suc (Suc (Suc 0)))"] s4 by (simp add: Let_def)
  show s6: "spring_coef (1 / 100) (Suc (Suc (Suc (Suc (Suc (Suc 0)))))) = (19270391096985749 / 1000000000000000000, 5266560040784749 / 10000000000000000)"
    unfolding spring_coef.simps(2)[of "1 / 100" "Suc (Suc (Suc (Suc (Suc 0))))"] s5 by (simp add: Let_def)
  show s7: "spring_coef (1 / 100) (Suc (Suc (Suc (Suc (Suc (Suc (Suc 0))))))) = (25254352744634274801 / 1000000000000000000000, 5983961647648525801 / 10000000000000000000)"
    unfolding spring_coef.simps(2)[of "1 / 100" "Suc (Suc (Suc (Suc (Suc (Suc 0)))))"] s6 by (simp add: Let_def)
  show s8: "spring_coef (1 / 100) (Suc (Suc (Suc (Suc (Suc (Suc (Suc (Suc 0)))))))) = (31913861957155740037149 / 1000000000000000000000000, 6659509212521465236149 / 10000000000000000000000)"
    unfolding spring_coef.simps(2)[of "1 / 100" "Suc (Suc (Suc (Suc (Suc (Suc (Suc 0))))))"] s7 by (simp add: Let_def)
  show s9: "spring_coef (1 / 100) (Suc (Suc (Suc (Suc (Suc (Suc (Suc (Suc (Suc 0))))))))) = (39208481847093976271453401 / 1000000000000000000000000000, 7294619889938236234304401 / 10000000000000000000000000)"
    unfolding spring_coef.simps(2)[of "1 / 100" "Suc (Suc (Suc (Suc (Suc (Suc (Suc (Suc 0)))))))"] s8 by (simp add: Let_def)
  show s10: "spring_coef (1 / 100) (Suc (Suc (Suc (Suc (Suc (Suc (Suc (Suc (Suc (Suc 0)))))))))) = (47099162260688206717771128549 / 1000000000000000000000000000000, 7890680413594230446317727549 / 10000000000000000000000000000)"
    unfolding spring_coef.simps(2)[of "1 / 100" "Suc (Suc (Suc (Suc (Suc (Suc (Suc (Suc (Suc 0))))))))"] s9 by (simp add: Let_def)
qed

lemma spring_coef_hundredth_range:
  assumes "k \<le> 10"
  shows "0 \<le> fst (spring_coef (1 / 100) k) \<and> fst (spring_coef (1 / 100) k) \<le> 1"
proof -
  have "k = 0 \<or> k = Suc 0 \<or> k = Suc (Suc 0) \<or> k = Suc (Suc (Suc 0)) \<or> k = Suc (Suc (Suc (Suc 0))) \<or> k = Suc (Suc (Suc (Suc (Suc 0)))) \<or> k = Suc (Suc (Suc (Suc (Suc (Suc 0))))) \<or> k = Suc (Suc (Suc (Suc (Suc (Suc (Suc 0)))))) \<or> k = Suc (Suc (Suc (Suc (Suc (Suc (Suc (Suc 0))))))) \<or> k = Suc (Suc (Suc (Suc (Suc (Suc (Suc (Suc (Suc 0)))))))) \<or> k = Suc (Suc (Suc (Suc (Suc (Suc (Suc (Suc (Suc (Suc 0)))))))))"
    using assms by arith
  then show ?thesis
    by (elim disjE) (simp_all add: spring_coef_hundredth_table del: spring_coef.simps(2))
qed

lemma spring_coef_ten: "spring_coef (1 / 100) 10 = (47099162260688206717771128549 / 1000000000000000000000000000000, 7890680413594230446317727549 / 10000000000000000000000000000)"
  using spring_coef_hundredth_table(10) by (simp add: eval_nat_numeral del: spring_coef.simps(2))

lemma one_step_from_rest_x:
  assumes "p_velocity_x (player g) = 0"
    and "75 \<le> p_x (player g)" "p_x (player g) \<le> 1845" "75 \<le> tx" "tx \<le> 1845"
  shows "p_x (player (update_player_position tx ty (1 / 10) g))
           = p_x (player g) + (1 / 10) * (tx - p_x (player g))"
proof -
  have "\<forall>k\<le>Suc 0. 0 \<le> fst (spring_coef (1 / 10) k) \<and> fst (spring_coef (1 / 10) k) \<le> 1"
    by (simp add: le_Suc_eq Let_def)
  from steps_from_rest_x[OF refl assms(1) assms(2-5) this, of ty]
  show ?thesis by (simp add: Let_def)
qed

lemma ten_steps_from_rest_x:
  assumes "p_velocity_x (player g) = 0"
    and "75 \<le> p_x (player g)" "p_x (player g) \<le> 1845" "75 \<le> tx" "tx \<le> 1845"
  shows "p_x (player ((update_player_position tx ty (1 / 100) ^^ 10) g))
           = p_x (player g) + ten_step_gain * (tx - p_x (player g))"
proof -
  have "\<forall>k\<le>10. 0 \<le> fst (spring_coef (1 / 100) k) \<and> fst (spring_coef (1 / 100) k) \<le> 1"
    using spring_coef_hundredth_range by blast
  from steps_from_rest_x[OF refl assms(1) assms(2-5) this, of ty]
  show ?thesis by (simp add: spring_coef_ten ten_step_gain_def)
qed

lemma one_step_from_rest_y:
  assumes "p_velocity_y (player g) = 0"
    and "75 \<le> p_y (player g)" "p_y (player g) \<le> 1005" "75 \<le> ty" "ty \<le> 1005"
  shows "p_y (player (update_player_position tx ty (1 / 10) g))
           = p_y (player g) + (1 / 10) * (ty - p_y (player g))"
proof -
  have "\<forall>k\<le>Suc 0. 0 \<le> fst (spring_coef (1 / 10) k) \<and> fst (spring_coef (1 / 10) k) \<le> 1"
    by (simp add: le_Suc_eq Let_def)
  from steps_from_rest_y[OF refl assms(1) assms(2-5) this, of tx]
  show ?thesis by (simp add: Let_def)
qed

lemma ten_steps_from_rest_y:
  assumes "p_velocity_y (player g) = 0"
    and "75 \<le> p_y (player g)" "p_y (player g) \<le> 1005" "75 \<le> ty" "ty \<le> 1005"
  shows "p_y (player ((update_player_position tx ty (1 / 100) ^^ 10) g))
           = p_y (player g) + ten_step_gain * (ty - p_y (player g))"
proof -
  have "\<forall>k\<le>10. 0 \<le> fst (spring_coef (1 / 100) k) \<and> fst (spring_coef (1 / 100) k) \<le> 1"
    using spring_coef_hundredth_range by blast
  from steps_from_rest_y[OF refl assms(1) assms(2-5) this, of tx]
  show ?thesis by (simp add: spring_coef_ten ten_step_gain_def)
qed

lemma player_program_start:
  "player (program_start t) = \<lparr>p_x = 960, p_y = 540, p_velocity_x = 0, p_velocity_y = 0\<rparr>"
  by (simp add: program_start_def init_player_def zero_player_def Let_def)

text \<open>
  Claim C1 says that one step of \<^verbatim>\<open>update_player_position\<close> with \<open>dt = 0.1\<close> gives the
  same avatar position as ten steps with \<open>dt = 0.01\<close>. The step is an explicit Euler
  step, and the two differ. Claim C1 as amended: for an avatar at rest inside the play
  field and a target inside the play field, one step of a tenth moves the avatar by
  exactly a tenth of its distance to the target on each axis, ten steps of a hundredth
  move it by the fraction \<open>ten_step_gain\<close> (about 0.0471) of that distance, so on each
  axis the two positions agree exactly when the avatar already is at the target.
\<close>

theorem step_size_changes_position:
  assumes "p_velocity_x (player g) = 0" and "p_velocity_y (player g) = 0"
    and "75 \<le> p_x (player g)" and "p_x (player g) \<le> 1845"
    and "75 \<le> p_y (player g)" and "p_y (player g) \<le> 1005"
    and "75 \<le> tx" and "tx \<le> 1845" and "75 \<le> ty" and "ty \<le> 1005"
  shows "p_x (player (update_player_position tx ty (1 / 10) g))
           = p_x (player g) + (1 / 10) * (tx - p_x (player g))
       \<and> p_y (player (update_player_position tx ty (1 / 10) g))
           = p_y (player g) + (1 / 10) * (ty - p_y (player g))
       \<and> p_x (player ((update_player_position tx ty (1 / 100) ^^ 10) g))
           = p_x (player g) + ten_step_gain * (tx - p_x (player g))
       \<and> p_y (player ((update_player_position tx ty (1 / 100) ^^ 10) g))
           = p_y (player g) + ten_step_gain * (ty - p_y (player g))
       \<and> (p_x (player (update_player_position tx ty (1 / 10) g))
            = p_x (player ((update_player_position tx ty (1 / 100) ^^ 10) g)) \<longleftrightarrow> tx = p_x (player g))
       \<and> (p_y (player (update_player_position tx ty (1 / 10) g))
            = p_y (player ((update_player_position tx ty (1 / 100) ^^ 10) g)) \<longleftrightarrow> ty = p_y (player g))"
proof -
  note x1 = one_step_from_rest_x[OF assms(1,3,4,7,8), of ty]
  note y1 = one_step_from_rest_y[OF assms(2,5,6,9,10), of tx]
  note x10 = ten_steps_from_rest_x[OF assms(1,3,4,7,8), of ty]
  note y10 = ten_steps_from_rest_y[OF assms(2,5,6,9,10), of tx]
  have gain: "ten_step_gain \<noteq> 1 / 10" by (simp add: ten_step_gain_def)
  have ex: "(p_x (player g) + (1 / 10) * (tx - p_x (player g))
               = p_x (player g) + ten_step_gain * (tx - p_x (player g))) \<longleftrightarrow> tx = p_x (player g)"
    using gain by auto
  have ey: "(p_y (player g) + (1 / 10) * (ty - p_y (player g))
               = p_y (player g) + ten_step_gain * (ty - p_y (player g))) \<longleftrightarrow> ty = p_y (player g)"
    using gain by auto
  show ?thesis unfolding x1 y1 x10 y10 using ex ey by blast
qed

text \<open>
  The theorem at the start state with the target 200 pixels to the right of the avatar.
\<close>

theorem step_size_changes_position_witness:
  "p_x (player (update_player_position 1160 540 (1 / 10) (program_start 0))) = 980
   \<and> p_x (player ((update_player_position 1160 540 (1 / 100) ^^ 10) (program_start 0)))
        = 960 + ten_step_gain * 200
   \<and> p_y (player ((update_player_position 1160 540 (1 / 100) ^^ 10) (program_start 0))) = 540"
  using step_size_changes_position[of "program_start 0" 1160 540]
  by (simp add: player_program_start)

text \<open>
  Claim C1 as stated fails: from the start state with the target at \<open>(1160, 540)\<close> the
  one-step position and the ten-step position differ by more than ten pixels.
\<close>

theorem frame_rate_counterexample:
  "p_x (player (update_player_position 1160 540 (1 / 10) (program_start 0)))
     - p_x (player ((update_player_position 1160 540 (1 / 100) ^^ 10) (program_start 0))) > 10"
proof -
  have a: "p_x (player (update_player_position 1160 540 (1 / 10) (program_start 0))) = 980"
    using one_step_from_rest_x[of "program_start 0" 1160 540] by (simp add: player_program_start)
  have b: "p_x (player ((update_player_position 1160 540 (1 / 100) ^^ 10) (program_start 0)))
             = 960 + ten_step_gain * 200"
    using ten_steps_from_rest_x[of "program_start 0" 1160 540] by (simp add: player_program_start)
  show ?thesis unfolding a b by (simp add: ten_step_gain_def)
qed

subsection \<open>Sensor reader: weight gate and dead zone\<close>

lemma dispatch_events_balance:
  "dispatch_events (BALANCE_BOARD a0 a1 a2 a3 # es) (got, g) =
     (if heavy (BALANCE_BOARD a0 a1 a2 a3)
      then dispatch_events es
             (True, g\<lparr>current_total_weight := event_weight (BALANCE_BOARD a0 a1 a2 a3),
                      x_cob := dead_zone (event_x_cob (BALANCE_BOARD a0 a1 a2 a3)),
                      y_cob := dead_zone (event_y_cob (BALANCE_BOARD a0 a1 a2 a3))\<rparr>)
      else dispatch_events es
             (got, g\<lparr>current_total_weight := event_weight (BALANCE_BOARD a0 a1 a2 a3)\<rparr>))"
  by (auto simp: Let_def dead_zone_def intro!: arg_cong[where f="dispatch_events es"] game.equality)

lemma dispatch_events_got:
  "fst (dispatch_events es (got, g)) = (got \<or> filter heavy es \<noteq> [])"
proof (induction es arbitrary: got g)
  case Nil
  show ?case by simp
next
  case (Cons e es)
  show ?case
  proof (cases e)
    case (BALANCE_BOARD a0 a1 a2 a3)
    show ?thesis unfolding BALANCE_BOARD dispatch_events_balance by (simp add: Cons.IH)
  next
    case OTHER_EVENT
    show ?thesis unfolding OTHER_EVENT by (simp add: Cons.IH)
  qed
qed

lemma dispatch_events_x_cob:
  "x_cob (snd (dispatch_events es (got, g))) =
     (if filter heavy es = [] then x_cob g else dead_zone (event_x_cob (last (filter heavy es))))"
proof (induction es arbitrary: got g)
  case Nil
  show ?case by simp
next
  case (Cons e es)
  show ?case
  proof (cases e)
    case (BALANCE_BOARD a0 a1 a2 a3)
    show ?thesis unfolding BALANCE_BOARD dispatch_events_balance by (simp add: Cons.IH)
  next
    case OTHER_EVENT
    show ?thesis unfolding OTHER_EVENT by (simp add: Cons.IH)
  qed
qed

lemma dispatch_events_y_cob:
  "y_cob (snd (dispatch_events es (got, g))) =
     (if filter heavy es = [] then y_cob g else dead_zone (event_y_cob (last (filter heavy es))))"
proof (induction es arbitrary: got g)
  case Nil
  show ?case by simp
next
  case (Cons e es)
  show ?case
  proof (cases e)
    case (BALANCE_BOARD a0 a1 a2 a3)
    show ?thesis unfolding BALANCE_BOARD dispatch_events_balance by (simp add: Cons.IH)
  next
    case OTHER_EVENT
    show ?thesis unfolding OTHER_EVENT by (simp add: Cons.IH)
  qed
qed

lemma read_ready:
  assumes "iface g" "0 \<le> fd g"
  shows "read_wii_balance_board_data (POLL_READY es) g =
     (0, if fst (dispatch_events es (False, g\<lparr>poll_timeout_count := 0\<rparr>))
         then snd (dispatch_events es (False, g\<lparr>poll_timeout_count := 0\<rparr>))
         else (snd (dispatch_events es (False, g\<lparr>poll_timeout_count := 0\<rparr>)))\<lparr>x_cob := 0, y_cob := 0\<rparr>)"
  using assms by (simp add: read_wii_balance_board_data_def Let_def split: prod.splits)

text \<open>
  Claim C6: in a poll that delivers events of which none passes the weight gate (every
  balance event has a total weight at or below \<open>MIN_TOTAL_WEIGHT\<close>), the sensor read
  returns 0 and reports the balance vector \<open>(0, 0)\<close>. When some event passes the gate,
  the reported vector is that of the last such event with the dead zone applied to each
  axis on its own: an axis of magnitude below \<open>DEAD_ZONE\<close> is zero whatever the other
  axis is.
\<close>

theorem weight_gate_and_dead_zone:
  assumes "iface g" and "0 \<le> fd g"
  shows "fst (read_wii_balance_board_data (POLL_READY es) g) = 0
       \<and> ((\<forall>e\<in>set es. \<not> heavy e) \<longrightarrow>
            x_cob (snd (read_wii_balance_board_data (POLL_READY es) g)) = 0
            \<and> y_cob (snd (read_wii_balance_board_data (POLL_READY es) g)) = 0)
       \<and> (filter heavy es \<noteq> [] \<longrightarrow>
            x_cob (snd (read_wii_balance_board_data (POLL_READY es) g))
              = dead_zone (event_x_cob (last (filter heavy es)))
            \<and> y_cob (snd (read_wii_balance_board_data (POLL_READY es) g))
              = dead_zone (event_y_cob (last (filter heavy es))))"
proof -
  have none: "(\<forall>e\<in>set es. \<not> heavy e) \<longleftrightarrow> filter heavy es = []"
    by (simp add: filter_empty_conv)
  show ?thesis
    unfolding read_ready[OF assms] none
    by (simp add: dispatch_events_got dispatch_events_x_cob dispatch_events_y_cob)
qed

lemma connected_start_simps:
  "iface (connected_start st)" "fd (connected_start st) = 3" "state (connected_start st) = st"
  "poll_timeout_count (connected_start st) = 0" "selected_player_index (connected_start st) = 0"
  by (simp_all add: connected_start_def program_start_def init_player_def Let_def)

text \<open>
  A light event alone gives \<open>(0, 0)\<close>; a heavy event with components 850 and 250
  gives \<open>(850, 0)\<close>, also when a light event follows it.
\<close>

theorem weight_gate_and_dead_zone_witness:
  "x_cob (snd (read_wii_balance_board_data
          (POLL_READY [BALANCE_BOARD 100 100 100 100, OTHER_EVENT]) (connected_start GAME_DODGE))) = 0
   \<and> y_cob (snd (read_wii_balance_board_data
          (POLL_READY [BALANCE_BOARD 100 100 100 100, OTHER_EVENT]) (connected_start GAME_DODGE))) = 0
   \<and> x_cob (snd (read_wii_balance_board_data
          (POLL_READY [BALANCE_BOARD 1500 1200 900 950, BALANCE_BOARD 100 100 100 100])
          (connected_start GAME_DODGE))) = 850
   \<and> y_cob (snd (read_wii_balance_board_data
          (POLL_READY [BALANCE_BOARD 1500 1200 900 950, BALANCE_BOARD 100 100 100 100])
          (connected_start GAME_DODGE))) = 0"
  using weight_gate_and_dead_zone[of "connected_start GAME_DODGE"
          "[BALANCE_BOARD 100 100 100 100, OTHER_EVENT]"]
        weight_gate_and_dead_zone[of "connected_start GAME_DODGE"
          "[BALANCE_BOARD 1500 1200 900 950, BALANCE_BOARD 100 100 100 100]"]
  by (simp add: connected_start_simps dead_zone_def)

subsection \<open>Sensor reader: poll timeouts\<close>

lemma read_timeout:
  assumes "iface g" "0 \<le> fd g"
  shows "read_wii_balance_board_data POLL_TIMEOUT g =
           (if poll_timeout_count g + 1 \<ge> 100 then - 1 else 0,
            g\<lparr>poll_timeout_count := poll_timeout_count g + 1\<rparr>)"
  using assms by (simp add: read_wii_balance_board_data_def Let_def)

lemma timeout_reads_fields:
  assumes "iface g" "0 \<le> fd g"
  shows "timeout_reads n g = g\<lparr>poll_timeout_count := poll_timeout_count g + int n\<rparr>"
proof (induction n)
  case 0
  show ?case by simp
next
  case (Suc n)
  have "iface (timeout_reads n g)" "0 \<le> fd (timeout_reads n g)"
    unfolding Suc using assms by simp_all
  from read_timeout[OF this] show ?case
    unfolding timeout_reads.simps by (simp add: Suc algebra_simps)
qed

lemma frame_disconnect:
  assumes "state g \<noteq> CONNECTING"
    and "fst (read_wii_balance_board_data (poll_ret inp) (g\<lparr>last_frame_time := current_time inp\<rparr>)) \<noteq> 0"
  shows "frame rnd inp g =
           Inr ((reset_game_state (snd (read_wii_balance_board_data (poll_ret inp)
                    (g\<lparr>last_frame_time := current_time inp\<rparr>))))
                 \<lparr>state := CONNECTING, connection_start_time := logic_time inp\<rparr>)"
proof (cases "read_wii_balance_board_data (poll_ret inp) (g\<lparr>last_frame_time := current_time inp\<rparr>)")
  case (Pair rc h)
  with assms show ?thesis by (simp add: frame_def Let_def)
qed

text \<open>
  Claim C4: starting from a connected device with the timeout counter at zero, the first
  99 sensor reads whose poll times out return 0 and the 100th returns \<open>-1\<close>
  (disconnection). The frame in which that read happens, in any state other than
  \<open>CONNECTING\<close>, ends in the state \<open>CONNECTING\<close> with the device closed and the
  timeout counter, the menu timer, the selections (game, difficulty, player, player
  choice), the target count, the hold timer, the coin counter and the beep counter
  cleared.
\<close>

theorem timeout_threshold_disconnects:
  assumes "iface g" and "0 \<le> fd g" and "poll_timeout_count g = 0" and "state g \<noteq> CONNECTING"
    and "poll_ret inp = POLL_TIMEOUT"
  shows "(\<forall>n<99. fst (read_wii_balance_board_data POLL_TIMEOUT (timeout_reads n g)) = 0)
       \<and> fst (read_wii_balance_board_data POLL_TIMEOUT (timeout_reads 99 g)) = - 1
       \<and> (\<exists>g'. frame rnd inp (timeout_reads 99 g) = Inr g'
              \<and> state g' = CONNECTING \<and> \<not> iface g' \<and> poll_timeout_count g' = 0
              \<and> menu_select_timer g' = 0 \<and> selected_game g' = NO_GAME_SELECTED
              \<and> difficulty_selection g' = 0 \<and> selected_player_index g' = - 1
              \<and> player_selection_choice g' = 0 \<and> current_game_target g' = 0
              \<and> hold_timer g' = 0 \<and> coins g' = 0 \<and> beeps_played g' = 0)"
proof -
  note tr = timeout_reads_fields[OF assms(1,2)]
  have conn: "iface (timeout_reads n g)" "0 \<le> fd (timeout_reads n g)" for n
    unfolding tr using assms(1,2) by simp_all
  have cnt: "poll_timeout_count (timeout_reads n g) = int n" for n
    unfolding tr using assms(3) by simp
  have early: "\<forall>n<99. fst (read_wii_balance_board_data POLL_TIMEOUT (timeout_reads n g)) = 0"
    by (simp add: read_timeout[OF conn] cnt)
  have last: "fst (read_wii_balance_board_data POLL_TIMEOUT (timeout_reads 99 g)) = - 1"
    by (simp add: read_timeout[OF conn] cnt)
  let ?h = "timeout_reads 99 g"
  have st: "state ?h \<noteq> CONNECTING" unfolding tr using assms(4) by simp
  have conn': "iface (?h\<lparr>last_frame_time := current_time inp\<rparr>)"
              "0 \<le> fd (?h\<lparr>last_frame_time := current_time inp\<rparr>)"
    using conn by simp_all
  have rc: "fst (read_wii_balance_board_data (poll_ret inp) (?h\<lparr>last_frame_time := current_time inp\<rparr>)) \<noteq> 0"
    unfolding assms(5) read_timeout[OF conn'] by (simp add: cnt)
  show ?thesis
    using early last unfolding frame_disconnect[OF st rc]
    by (simp add: reset_game_state_def)
qed

text \<open>The theorem in a Coin-Collector session.\<close>

theorem timeout_threshold_disconnects_witness:
  "fst (read_wii_balance_board_data POLL_TIMEOUT (timeout_reads 98 (connected_start GAME_COIN_COLLECTOR))) = 0
   \<and> fst (read_wii_balance_board_data POLL_TIMEOUT (timeout_reads 99 (connected_start GAME_COIN_COLLECTOR))) = - 1
   \<and> (\<exists>g'. frame zero_rand timeout_input (timeout_reads 99 (connected_start GAME_COIN_COLLECTOR)) = Inr g'
          \<and> state g' = CONNECTING \<and> selected_player_index g' = - 1 \<and> coins g' = 0)"
  using timeout_threshold_disconnects[of "connected_start GAME_COIN_COLLECTOR" timeout_input zero_rand]
  by (auto simp add: connected_start_simps timeout_input_def)

subsection \<open>What the sensor read leaves alone; the shape of a frame\<close>

lemma update_player_position_shape:
  "update_player_position tx ty dt g =
     g\<lparr>player := spring_step tx ty dt (player g),
       trail_points := (trail_points g)[trail_head g := spring_step tx ty dt (player g)],
       trail_head := (trail_head g + 1) mod 60\<rparr>"
  by (simp add: update_player_position_def Let_def)

lemma dispatch_events_shape:
  "\<exists>w x y. snd (dispatch_events es (got, g)) = g\<lparr>current_total_weight := w, x_cob := x, y_cob := y\<rparr>"
proof (induction es arbitrary: got g)
  case Nil
  have "g = g\<lparr>current_total_weight := current_total_weight g, x_cob := x_cob g, y_cob := y_cob g\<rparr>"
    by simp
  then show ?case by (metis dispatch_events.simps(1) snd_conv)
next
  case (Cons e es)
  show ?case
  proof (cases e)
    case OTHER_EVENT
    show ?thesis unfolding OTHER_EVENT dispatch_events.simps by (rule Cons.IH)
  next
    case (BALANCE_BOARD a0 a1 a2 a3)
    show ?thesis
    proof (cases "heavy e")
      case True
      let ?h = "g\<lparr>current_total_weight := event_weight e, x_cob := dead_zone (event_x_cob e),
                   y_cob := dead_zone (event_y_cob e)\<rparr>"
      have eq: "dispatch_events (e # es) (got, g) = dispatch_events es (True, ?h)"
        using True unfolding BALANCE_BOARD dispatch_events_balance by simp
      obtain w x y where "snd (dispatch_events es (True, ?h)) = ?h\<lparr>current_total_weight := w, x_cob := x, y_cob := y\<rparr>"
        using Cons.IH by blast
      then have "snd (dispatch_events (e # es) (got, g)) = g\<lparr>current_total_weight := w, x_cob := x, y_cob := y\<rparr>"
        unfolding eq by simp
      then show ?thesis by blast
    next
      case False
      let ?h = "g\<lparr>current_total_weight := event_weight e\<rparr>"
      have eq: "dispatch_events (e # es) (got, g) = dispatch_events es (got, ?h)"
        using False unfolding BALANCE_BOARD dispatch_events_balance by simp
      obtain w x y where "snd (dispatch_events es (got, ?h)) = ?h\<lparr>current_total_weight := w, x_cob := x, y_cob := y\<rparr>"
        using Cons.IH by blast
      then have "snd (dispatch_events (e # es) (got, g)) = g\<lparr>current_total_weight := w, x_cob := x, y_cob := y\<rparr>"
        unfolding eq by simp
      then show ?thesis by blast
    qed
  qed
qed


lemma read_shape:
  "\<exists>c w x y. snd (read_wii_balance_board_data ret g) =
      g\<lparr>poll_timeout_count := c, current_total_weight := w, x_cob := x, y_cob := y\<rparr>"
proof -
  have gen: "\<exists>c w x y. h = g\<lparr>poll_timeout_count := c, current_total_weight := w, x_cob := x, y_cob := y\<rparr>"
    if "h = g\<lparr>poll_timeout_count := poll_timeout_count h, current_total_weight := current_total_weight h,
              x_cob := x_cob h, y_cob := y_cob h\<rparr>" for h
    using that by blast
  show ?thesis
  proof (cases "\<not> iface g \<or> fd g < 0")
    case True
    then have "snd (read_wii_balance_board_data ret g) = g\<lparr>x_cob := 0, y_cob := 0\<rparr>"
      by (simp add: read_wii_balance_board_data_def)
    then show ?thesis by (intro gen) simp
  next
    case False
    show ?thesis
    proof (cases ret)
      case POLL_FAILED
      with False have "snd (read_wii_balance_board_data ret g) = g"
        by (simp add: read_wii_balance_board_data_def)
      then show ?thesis by (intro gen) simp
    next
      case POLL_TIMEOUT
      with False have "snd (read_wii_balance_board_data ret g) = g\<lparr>poll_timeout_count := poll_timeout_count g + 1\<rparr>"
        by (simp add: read_wii_balance_board_data_def Let_def)
      then show ?thesis by (intro gen) simp
    next
      case (POLL_READY es)
      obtain w x y where d: "snd (dispatch_events es (False, g\<lparr>poll_timeout_count := 0\<rparr>))
          = g\<lparr>poll_timeout_count := 0, current_total_weight := w, x_cob := x, y_cob := y\<rparr>"
        using dispatch_events_shape[of es False "g\<lparr>poll_timeout_count := 0\<rparr>"] by auto
      have "snd (read_wii_balance_board_data ret g) =
              (if fst (dispatch_events es (False, g\<lparr>poll_timeout_count := 0\<rparr>))
               then snd (dispatch_events es (False, g\<lparr>poll_timeout_count := 0\<rparr>))
               else (snd (dispatch_events es (False, g\<lparr>poll_timeout_count := 0\<rparr>)))\<lparr>x_cob := 0, y_cob := 0\<rparr>)"
        using False unfolding POLL_READY by (simp add: read_ready)
      then show ?thesis unfolding d by (intro gen) simp
    qed
  qed
qed

lemma sensed_shape:
  "\<exists>c w x y. sensed inp g =
      g\<lparr>last_frame_time := current_time inp, poll_timeout_count := c, current_total_weight := w,
        x_cob := x, y_cob := y\<rparr>"
  unfolding sensed_def using read_shape[of "poll_ret inp" "g\<lparr>last_frame_time := current_time inp\<rparr>"]
  by simp

lemma sensed_fields:
  "state (sensed inp g) = state g"
  "player (sensed inp g) = player g"
  "trail_points (sensed inp g) = trail_points g"
  "trail_head (sensed inp g) = trail_head g"
  "iface (sensed inp g) = iface g"
  "fd (sensed inp g) = fd g"
  "current_difficulty (sensed inp g) = current_difficulty g"
  "coin_timer (sensed inp g) = coin_timer g"
  "coins (sensed inp g) = coins g"
  "selected_player_index (sensed inp g) = selected_player_index g"
  "dodge_score (sensed inp g) = dodge_score g"
  "dodge_high_score (sensed inp g) = dodge_high_score g"
  "dynamic_block_spawn_interval (sensed inp g) = dynamic_block_spawn_interval g"
  "dodge_blocks (sensed inp g) = dodge_blocks g"
  "last_input_time (sensed inp g) = last_input_time g"
  "last_frame_time (sensed inp g) = current_time inp"
  "total_wins (sensed inp g) = total_wins g"
  "lowest_time_to_win (sensed inp g) = lowest_time_to_win g"
  "confetti (sensed inp g) = confetti g"
  "win_message_start_time (sensed inp g) = win_message_start_time g"
  "game_start_time (sensed inp g) = game_start_time g"
  using sensed_shape[of inp g] by auto

lemma frame_unfold:
  "frame rnd inp g =
     (if state g \<noteq> CONNECTING then
        (if fst (read_wii_balance_board_data (poll_ret inp) (g\<lparr>last_frame_time := current_time inp\<rparr>)) \<noteq> 0
         then Inr ((reset_game_state (sensed inp g))\<lparr>state := CONNECTING, connection_start_time := logic_time inp\<rparr>)
         else state_switch rnd inp (frame_delta inp g) (inactivity_check inp (sensed inp g)))
      else state_switch rnd inp (frame_delta inp g)
             (inactivity_check inp (g\<lparr>last_frame_time := current_time inp\<rparr>)))"
  by (simp add: frame_def Let_def sensed_def frame_delta_def split: prod.splits)

subsection \<open>Coin-Collector: the countdown runs out\<close>

lemma hold_or_coins_timeout:
  assumes "state g = GAME_COIN_COLLECTOR" "current_difficulty g = HARD" "coin_timer g - dt \<le> 0"
  shows "\<exists>g'. case_hold_or_coins rnd inp dt g = Inr g' \<and> state g' = MAIN_MENU \<and> coins g' = 0
            \<and> selected_player_index g' = - 1 \<and> \<not> iface g'"
  using assms
  by (simp add: case_hold_or_coins_def Let_def update_player_position_shape reset_game_state_def)

lemma inactivity_check_loaded:
  assumes "MIN_TOTAL_WEIGHT \<le> current_total_weight g"
  shows "inactivity_check inp g = g\<lparr>last_input_time := current_time inp\<rparr>"
  using assms by (simp add: inactivity_check_def)

lemma read_disconnected:
  assumes "\<not> iface g"
  shows "fst (read_wii_balance_board_data ret g) = - 1"
  using assms by (simp add: read_wii_balance_board_data_def)

lemma frame_without_device:
  assumes "\<not> iface g" "state g \<noteq> CONNECTING"
  shows "\<exists>g'. frame rnd inp g = Inr g' \<and> state g' = CONNECTING"
  using assms by (simp add: frame_unfold read_disconnected)

text \<open>
  Claim C3 says that when the hard-mode countdown of Coin-Collector runs out the state
  machine returns to the main menu with the score discarded and the selected player
  kept. What the code does in such a frame: it calls \<^verbatim>\<open>reset_game_state\<close> and sets the
  state to \<open>MAIN_MENU\<close>; the score is discarded, but the selected player index is
  \<open>-1\<close> afterwards and the device is closed, so that the very next frame, whatever
  it receives, ends in the state \<open>CONNECTING\<close>.
\<close>

theorem coin_timeout_resets_session:
  assumes "state g = GAME_COIN_COLLECTOR" and "current_difficulty g = HARD"
    and "iface g" and "0 \<le> fd g" and "poll_ret inp = POLL_READY es"
    and "MIN_TOTAL_WEIGHT \<le> current_total_weight (sensed inp g)"
    and "coin_timer g - frame_delta inp g \<le> 0"
  shows "\<exists>g'. frame rnd inp g = Inr g' \<and> state g' = MAIN_MENU \<and> coins g' = 0
            \<and> selected_player_index g' = - 1 \<and> \<not> iface g'
            \<and> (\<exists>g''. frame rnd inp' g' = Inr g'' \<and> state g'' = CONNECTING)"
proof -
  have rc: "fst (read_wii_balance_board_data (poll_ret inp) (g\<lparr>last_frame_time := current_time inp\<rparr>)) = 0"
    unfolding assms(5) using assms(3,4) by (simp add: read_ready)
  let ?h = "(sensed inp g)\<lparr>last_input_time := current_time inp\<rparr>"
  have fr: "frame rnd inp g = case_hold_or_coins rnd inp (frame_delta inp g) ?h"
    using assms(1) rc
    by (simp add: frame_unfold inactivity_check_loaded[OF assms(6)] state_switch_def sensed_fields)
  have "state ?h = GAME_COIN_COLLECTOR" "current_difficulty ?h = HARD"
       "coin_timer ?h - frame_delta inp g \<le> 0"
    using assms(1,2,7) by (simp_all add: sensed_fields)
  from hold_or_coins_timeout[OF this, of rnd inp]
  obtain g' where g': "case_hold_or_coins rnd inp (frame_delta inp g) ?h = Inr g'"
      "state g' = MAIN_MENU" "coins g' = 0" "selected_player_index g' = - 1" "\<not> iface g'"
    by blast
  have "\<exists>g''. frame rnd inp' g' = Inr g'' \<and> state g'' = CONNECTING"
    using frame_without_device[of g' rnd inp'] g'(2,5) by simp
  then show ?thesis unfolding fr using g' by blast
qed

lemma coin_timeout_state_simps:
  "state coin_timeout_state = GAME_COIN_COLLECTOR" "iface coin_timeout_state" "fd coin_timeout_state = 3"
  "current_difficulty coin_timeout_state = HARD" "coin_timer coin_timeout_state = 1 / 100"
  "selected_player_index coin_timeout_state = 0" "coins coin_timeout_state = 4"
  "last_frame_time coin_timeout_state = 0" "last_input_time coin_timeout_state = 0"
  by (simp_all add: coin_timeout_state_def connected_start_def program_start_def init_player_def Let_def)

text \<open>
  The frame at the failing input: \<open>Player 1\<close> (index 0) is selected before the frame
  and no player is selected after it.
\<close>

theorem coin_timeout_resets_session_witness:
  "selected_player_index coin_timeout_state = 0
   \<and> (\<exists>g'. frame zero_rand steady_input coin_timeout_state = Inr g' \<and> state g' = MAIN_MENU
          \<and> coins g' = 0 \<and> selected_player_index g' = - 1 \<and> \<not> iface g'
          \<and> (\<exists>g''. frame zero_rand steady_input g' = Inr g'' \<and> state g'' = CONNECTING))"
proof -
  have w: "current_total_weight (sensed steady_input coin_timeout_state) = 5000"
    by (simp add: sensed_def read_ready coin_timeout_state_simps steady_input_def
          dispatch_events_balance)
  have d: "frame_delta steady_input coin_timeout_state = 16 / 1000"
    by (simp add: frame_delta_def coin_timeout_state_simps steady_input_def)
  show ?thesis
    using coin_timeout_resets_session[of coin_timeout_state steady_input
            "[BALANCE_BOARD 1250 1250 1250 1250]" zero_rand steady_input]
    by (simp add: coin_timeout_state_simps w d) (simp add: steady_input_def)
qed

subsection \<open>Dodge: the loop over the block pool\<close>

lemma dodge_block_step_inactive:
  assumes "b_active (dodge_blocks g ! i) = 0"
  shows "dodge_block_step dt i g = Inr (False, g)"
  using assms by (simp add: dodge_block_step_def)


lemma dodge_block_step_shape:
  assumes "dodge_block_step dt i g = Inr (brk, g')"
  shows "\<exists>bs sc hs fs st. g' = g\<lparr>dodge_blocks := bs, dodge_score := sc, dodge_high_score := hs,
                                   dodge_files := fs, state := st\<rparr>"
proof -
  have "g' = g\<lparr>dodge_blocks := dodge_blocks g', dodge_score := dodge_score g',
               dodge_high_score := dodge_high_score g', dodge_files := dodge_files g',
               state := state g'\<rparr>"
    using assms
    by (auto simp: dodge_block_step_def Let_def write_dodge_high_score_def
          split: if_splits option.splits)
  then show ?thesis by blast
qed

lemma dodge_block_step_returns:
  assumes "get_profile_filename ''dodge_score.txt'' (selected_player_index g) = Some f"
  shows "\<exists>brk g'. dodge_block_step dt i g = Inr (brk, g')"
  using assms by (auto simp: dodge_block_step_def Let_def write_dodge_high_score_def)


lemma dodge_blocks_loop_Cons:
  assumes "dodge_blocks_loop dt (i # rest) g = Inr g'"
  shows "\<exists>brk g1. dodge_block_step dt i g = Inr (brk, g1)
           \<and> (brk \<longrightarrow> g' = g1) \<and> (\<not> brk \<longrightarrow> dodge_blocks_loop dt rest g1 = Inr g')"
proof (cases "dodge_block_step dt i g")
  case (Inl e)
  with assms show ?thesis by simp
next
  case (Inr p)
  obtain brk g1 where p: "p = (brk, g1)" by (cases p)
  show ?thesis using assms by (simp add: Inr p split: if_splits)
qed

lemma dodge_blocks_loop_shape:
  assumes "dodge_blocks_loop dt is g = Inr g'"
  shows "\<exists>bs sc hs fs st. g' = g\<lparr>dodge_blocks := bs, dodge_score := sc, dodge_high_score := hs,
                                   dodge_files := fs, state := st\<rparr>"
  using assms
proof (induction "is" arbitrary: g)
  case Nil
  then have "g' = g\<lparr>dodge_blocks := dodge_blocks g, dodge_score := dodge_score g,
               dodge_high_score := dodge_high_score g, dodge_files := dodge_files g,
               state := state g\<rparr>" by simp
  then show ?case by blast
next
  case (Cons i rest)
  from dodge_blocks_loop_Cons[OF Cons.prems] obtain brk g1 where
    st: "dodge_block_step dt i g = Inr (brk, g1)"
    and b: "brk \<longrightarrow> g' = g1" and nb: "\<not> brk \<longrightarrow> dodge_blocks_loop dt rest g1 = Inr g'"
    by blast
  from dodge_block_step_shape[OF st] obtain bs sc hs fs st' where
    g1: "g1 = g\<lparr>dodge_blocks := bs, dodge_score := sc, dodge_high_score := hs,
                 dodge_files := fs, state := st'\<rparr>" by blast
  show ?case
  proof (cases brk)
    case True
    then show ?thesis using b g1 by blast
  next
    case False
    with nb have "dodge_blocks_loop dt rest g1 = Inr g'" by simp
    from Cons.IH[OF this] obtain bs2 sc2 hs2 fs2 st2 where
      "g' = g1\<lparr>dodge_blocks := bs2, dodge_score := sc2, dodge_high_score := hs2,
                 dodge_files := fs2, state := st2\<rparr>" by blast
    then have "g' = g\<lparr>dodge_blocks := bs2, dodge_score := sc2, dodge_high_score := hs2,
                 dodge_files := fs2, state := st2\<rparr>" unfolding g1 by simp
    then show ?thesis by blast
  qed
qed

lemma dodge_blocks_loop_returns:
  assumes "get_profile_filename ''dodge_score.txt'' (selected_player_index g) = Some f"
  shows "\<exists>g'. dodge_blocks_loop dt is g = Inr g'"
  using assms
proof (induction "is" arbitrary: g)
  case Nil
  show ?case by simp
next
  case (Cons i rest)
  from dodge_block_step_returns[OF Cons.prems] obtain brk g1 where
    st: "dodge_block_step dt i g = Inr (brk, g1)" by blast
  from dodge_block_step_shape[OF st] have "selected_player_index g1 = selected_player_index g"
    by auto
  with Cons.prems have "get_profile_filename ''dodge_score.txt'' (selected_player_index g1) = Some f"
    by simp
  from Cons.IH[OF this] show ?case using st by auto
qed



lemma retire_block_active:
  "b_active (retire_block dt b) = 0 \<longleftrightarrow> b_active b = 0 \<or> exits dt b"
  by (simp add: retire_block_def moved_def)




lemma profile_filenames:
  "get_profile_filename ''score.txt'' 0 = Some ''player 1_score.txt''"
  "get_profile_filename ''wins.txt'' 0 = Some ''player 1_wins.txt''"
  "get_profile_filename ''dodge_score.txt'' 0 = Some ''player 1_dodge_score.txt''"
  by code_simp+

lemma valid_index_filename:
  assumes "0 \<le> i" "i < 3"
  shows "\<exists>f. get_profile_filename base i = Some f"
  using assms by (simp add: get_profile_filename_def available_players_def Let_def)


lemma two_blocks_state_simps:
  "state two_blocks_state = GAME_DODGE" "iface two_blocks_state" "fd two_blocks_state = 3"
  "selected_player_index two_blocks_state = 0"
  "dodge_score two_blocks_state = 0" "dodge_high_score two_blocks_state = 0"
  "dodge_files two_blocks_state = Map.empty"
  "player two_blocks_state = \<lparr>p_x = 960, p_y = 540, p_velocity_x = 0, p_velocity_y = 0\<rparr>"
  "dodge_blocks two_blocks_state =
     [\<lparr>b_x = - 49, b_y = 0, b_speed = 300, b_active = 1\<rparr>,
      \<lparr>b_x = 1000, b_y = 0, b_speed = 300, b_active = 1\<rparr>]
     @ replicate 8 \<lparr>b_x = 0, b_y = 0, b_speed = 0, b_active = 0\<rparr>"
  "last_frame_time two_blocks_state = 0" "last_input_time two_blocks_state = 0"
  "total_wins two_blocks_state = 0" "lowest_time_to_win two_blocks_state = - 1"
  "win_message_start_time two_blocks_state = 0"
  by (simp_all add: two_blocks_state_def connected_start_def program_start_def init_player_def
        zero_player_def Let_def)

lemma upt_ten: "[0..<MAX_DODGE_BLOCKS] = [0, 1, 2, 3, 4, 5, 6, 7, 8, 9]"
  by (simp add: upt_rec)




subsection \<open>Dodge: a frame without input\<close>

lemma spawn_dodge_block_shape:
  "\<exists>bs r. spawn_dodge_block rnd g = g\<lparr>dodge_blocks := bs, rand_pos := r\<rparr>"
proof -
  have "spawn_dodge_block rnd g =
          g\<lparr>dodge_blocks := dodge_blocks (spawn_dodge_block rnd g),
            rand_pos := rand_pos (spawn_dodge_block rnd g)\<rparr>"
    by (simp add: spawn_dodge_block_def Let_def split: prod.splits)
  then show ?thesis by blast
qed

lemma spawn_dodge_block_fields:
  "player (spawn_dodge_block rnd g) = player g"
  "trail_points (spawn_dodge_block rnd g) = trail_points g"
  "trail_head (spawn_dodge_block rnd g) = trail_head g"
  "state (spawn_dodge_block rnd g) = state g"
  "dodge_score (spawn_dodge_block rnd g) = dodge_score g"
  "dynamic_block_spawn_interval (spawn_dodge_block rnd g) = dynamic_block_spawn_interval g"
  "total_wins (spawn_dodge_block rnd g) = total_wins g"
  "lowest_time_to_win (spawn_dodge_block rnd g) = lowest_time_to_win g"
  "confetti (spawn_dodge_block rnd g) = confetti g"
  "win_message_start_time (spawn_dodge_block rnd g) = win_message_start_time g"
  "score_files (spawn_dodge_block rnd g) = score_files g"
  "wins_files (spawn_dodge_block rnd g) = wins_files g"
  using spawn_dodge_block_shape[of rnd g] by auto

lemma case_dodge_still:
  assumes "case_dodge rnd dt g = Inr g'"
    and "\<not> (current_total_weight g > MIN_TOTAL_WEIGHT
              \<and> (\<bar>x_cob g\<bar> > DEAD_ZONE \<or> \<bar>y_cob g\<bar> > DEAD_ZONE))"
  shows "player g' = player g \<and> trail_points g' = trail_points g \<and> trail_head g' = trail_head g"
proof -
  have still: "(if current_total_weight g > MIN_TOTAL_WEIGHT
                   \<and> (\<bar>x_cob g\<bar> > DEAD_ZONE \<or> \<bar>y_cob g\<bar> > DEAD_ZONE)
                then update_player_position a b dt g else g) = g" for a b
    using assms(2) by (simp only: if_False)
  note cd = assms(1)[unfolded case_dodge_def Let_def still]
  show ?thesis
  proof (cases "dodge_blocks_loop dt [0..<MAX_DODGE_BLOCKS] g")
    case (Inl e)
    with cd show ?thesis by (simp only: sum.case) simp
  next
    case (Inr g1)
    from dodge_blocks_loop_shape[OF Inr] obtain bs sc hs fs st where
      g1: "g1 = g\<lparr>dodge_blocks := bs, dodge_score := sc, dodge_high_score := hs,
                   dodge_files := fs, state := st\<rparr>" by blast
    from cd show ?thesis
      unfolding Inr sum.case by (auto simp: spawn_dodge_block_fields g1 split: if_splits)
  qed
qed

lemma case_dodge_returns:
  assumes "get_profile_filename ''dodge_score.txt'' (selected_player_index g) = Some f"
  shows "\<exists>g'. case_dodge rnd dt g = Inr g'"
proof -
  let ?g0 = "if current_total_weight g > MIN_TOTAL_WEIGHT
                 \<and> (\<bar>x_cob g\<bar> > DEAD_ZONE \<or> \<bar>y_cob g\<bar> > DEAD_ZONE)
             then update_player_position
                    (real_of_int WINDOW_WIDTH / 2 + x_cob g * COB_SCALE_DODGE * real_of_int WINDOW_WIDTH)
                    (real_of_int WINDOW_HEIGHT / 2 + y_cob g * - COB_SCALE_DODGE * real_of_int WINDOW_HEIGHT)
                    dt g
             else g"
  have "selected_player_index ?g0 = selected_player_index g"
    by (simp add: update_player_position_shape)
  with assms have "get_profile_filename ''dodge_score.txt'' (selected_player_index ?g0) = Some f"
    by simp
  from dodge_blocks_loop_returns[OF this] obtain g1 where
    "dodge_blocks_loop dt [0..<MAX_DODGE_BLOCKS] ?g0 = Inr g1" by blast
  then show ?thesis unfolding case_dodge_def Let_def by (simp only: sum.case) blast
qed

lemma inactivity_check_cases:
  "inactivity_check inp g = g\<lparr>last_input_time := current_time inp\<rparr>
   \<or> inactivity_check inp g = g
   \<or> inactivity_check inp g = (reset_game_state g)\<lparr>state := CONNECTING, connection_start_time := logic_time inp\<rparr>"
  by (simp add: inactivity_check_def)

lemma case_connecting_shape:
  "\<exists>a b c d. case_connecting inp g = g\<lparr>iface := a, fd := b, state := c, transition_start_time := d\<rparr>"
proof -
  have "case_connecting inp g =
          g\<lparr>iface := iface (case_connecting inp g), fd := fd (case_connecting inp g),
            state := state (case_connecting inp g),
            transition_start_time := transition_start_time (case_connecting inp g)\<rparr>"
    by (simp add: case_connecting_def split: init_result.splits)
  then show ?thesis by blast
qed

text \<open>
  Claim C9: in a frame that starts in Dodge mode, when after the sensor read of that
  frame the total weight is at or below \<open>MIN_TOTAL_WEIGHT\<close>, or neither balance
  component exceeds \<open>DEAD_ZONE\<close> in magnitude (in particular when both lie inside the
  dead zone), the avatar (position and velocity), the trail points and the head of the
  trail are the same after the frame as before it. This holds on every path of the
  frame: a disconnection, an inactivity reset, and the Dodge case itself.
\<close>

theorem dodge_no_input_no_motion:
  assumes "state g = GAME_DODGE" and "frame rnd inp g = Inr g'"
    and "current_total_weight (sensed inp g) \<le> MIN_TOTAL_WEIGHT
         \<or> (\<bar>x_cob (sensed inp g)\<bar> \<le> DEAD_ZONE \<and> \<bar>y_cob (sensed inp g)\<bar> \<le> DEAD_ZONE)"
  shows "player g' = player g \<and> trail_points g' = trail_points g \<and> trail_head g' = trail_head g"
proof (cases "fst (read_wii_balance_board_data (poll_ret inp) (g\<lparr>last_frame_time := current_time inp\<rparr>)) \<noteq> 0")
  case True
  with assms(1,2) have "g' = (reset_game_state (sensed inp g))\<lparr>state := CONNECTING, connection_start_time := logic_time inp\<rparr>"
    by (simp add: frame_unfold)
  then show ?thesis by (simp add: reset_game_state_def sensed_fields)
next
  case False
  let ?h = "sensed inp g"
  from False assms(1,2) have sw: "state_switch rnd inp (frame_delta inp g) (inactivity_check inp ?h) = Inr g'"
    by (simp add: frame_unfold)
  have quiet: "\<not> (current_total_weight ?h > MIN_TOTAL_WEIGHT
              \<and> (\<bar>x_cob ?h\<bar> > DEAD_ZONE \<or> \<bar>y_cob ?h\<bar> > DEAD_ZONE))"
    using assms(3) by auto
  have st: "state ?h = GAME_DODGE" using assms(1) by (simp add: sensed_fields)
  from inactivity_check_cases[of inp ?h] show ?thesis
  proof (elim disjE)
    assume a: "inactivity_check inp ?h = ?h\<lparr>last_input_time := current_time inp\<rparr>"
    let ?k = "?h\<lparr>last_input_time := current_time inp\<rparr>"
    from sw have cd: "case_dodge rnd (frame_delta inp g) ?k = Inr g'"
      unfolding a using st by (simp add: state_switch_def)
    have "\<not> (current_total_weight ?k > MIN_TOTAL_WEIGHT
              \<and> (\<bar>x_cob ?k\<bar> > DEAD_ZONE \<or> \<bar>y_cob ?k\<bar> > DEAD_ZONE))"
      using quiet by simp
    from case_dodge_still[OF cd this] show ?thesis by (simp add: sensed_fields)
  next
    assume a: "inactivity_check inp ?h = ?h"
    from sw have cd: "case_dodge rnd (frame_delta inp g) ?h = Inr g'"
      unfolding a using st by (simp add: state_switch_def)
    from case_dodge_still[OF cd quiet] show ?thesis by (simp add: sensed_fields)
  next
    assume a: "inactivity_check inp ?h = (reset_game_state ?h)\<lparr>state := CONNECTING, connection_start_time := logic_time inp\<rparr>"
    let ?k = "(reset_game_state ?h)\<lparr>state := CONNECTING, connection_start_time := logic_time inp\<rparr>"
    from sw have g': "g' = case_connecting inp ?k"
      unfolding a by (simp add: state_switch_def)
    obtain a b c d where "case_connecting inp ?k = ?k\<lparr>iface := a, fd := b, state := c, transition_start_time := d\<rparr>"
      using case_connecting_shape by blast
    then show ?thesis unfolding g' by (simp add: reset_game_state_def sensed_fields)
  qed
qed

lemma frame_dodge_returns:
  assumes "state g = GAME_DODGE"
    and "get_profile_filename ''dodge_score.txt'' (selected_player_index g) = Some f"
  shows "\<exists>g'. frame rnd inp g = Inr g'"
proof (cases "fst (read_wii_balance_board_data (poll_ret inp) (g\<lparr>last_frame_time := current_time inp\<rparr>)) \<noteq> 0")
  case True
  with assms(1) show ?thesis by (simp add: frame_unfold)
next
  case False
  let ?h = "sensed inp g"
  from False assms(1) have fr: "frame rnd inp g = state_switch rnd inp (frame_delta inp g) (inactivity_check inp ?h)"
    by (simp add: frame_unfold)
  have st: "state ?h = GAME_DODGE" using assms(1) by (simp add: sensed_fields)
  have idx: "get_profile_filename ''dodge_score.txt'' (selected_player_index ?h) = Some f"
    using assms(2) by (simp add: sensed_fields)
  from inactivity_check_cases[of inp ?h] show ?thesis
  proof (elim disjE)
    assume a: "inactivity_check inp ?h = ?h\<lparr>last_input_time := current_time inp\<rparr>"
    have "get_profile_filename ''dodge_score.txt''
            (selected_player_index (?h\<lparr>last_input_time := current_time inp\<rparr>)) = Some f"
      using idx by simp
    from case_dodge_returns[OF this] show ?thesis
      unfolding fr a using st by (simp add: state_switch_def)
  next
    assume a: "inactivity_check inp ?h = ?h"
    from case_dodge_returns[OF idx] show ?thesis
      unfolding fr a using st by (simp add: state_switch_def)
  next
    assume a: "inactivity_check inp ?h = (reset_game_state ?h)\<lparr>state := CONNECTING, connection_start_time := logic_time inp\<rparr>"
    show ?thesis unfolding fr a by (simp add: state_switch_def)
  qed
qed

lemma sensed_steady:
  assumes "iface g" "0 \<le> fd g"
  shows "current_total_weight (sensed steady_input g) = 5000"
    and "x_cob (sensed steady_input g) = 0" and "y_cob (sensed steady_input g) = 0"
  using assms
  by (simp_all add: sensed_def read_ready steady_input_def dispatch_events_balance dead_zone_def)

text \<open>A Dodge frame in which the player stands centred on the board.\<close>

theorem dodge_no_input_no_motion_witness:
  "state two_blocks_state = GAME_DODGE
   \<and> \<bar>x_cob (sensed steady_input two_blocks_state)\<bar> \<le> DEAD_ZONE
   \<and> \<bar>y_cob (sensed steady_input two_blocks_state)\<bar> \<le> DEAD_ZONE
   \<and> (\<exists>g'. frame zero_rand steady_input two_blocks_state = Inr g'
          \<and> player g' = player two_blocks_state
          \<and> trail_points g' = trail_points two_blocks_state
          \<and> trail_head g' = trail_head two_blocks_state)"
proof -
  have s: "x_cob (sensed steady_input two_blocks_state) = 0"
          "y_cob (sensed steady_input two_blocks_state) = 0"
    by (simp_all add: sensed_steady two_blocks_state_simps)
  have st: "state two_blocks_state = GAME_DODGE" by (simp add: two_blocks_state_simps)
  have "get_profile_filename ''dodge_score.txt'' (selected_player_index two_blocks_state)
          = Some ''player 1_dodge_score.txt''"
    by (simp add: two_blocks_state_simps profile_filenames)
  from frame_dodge_returns[OF st this] obtain g' where
    fr: "frame zero_rand steady_input two_blocks_state = Inr g'" by blast
  from dodge_no_input_no_motion[OF st fr] s
  have "player g' = player two_blocks_state \<and> trail_points g' = trail_points two_blocks_state
          \<and> trail_head g' = trail_head two_blocks_state" by simp
  then show ?thesis using st s fr by simp
qed

subsection \<open>Coin-Collector: where a coin is placed\<close>

lemma spawn_coin_unfold:
  "spawn_coin rnd px py r =
     (if accepted rnd px py r then Some (sample_x rnd r, sample_y rnd r, r + 2)
      else spawn_coin rnd px py (r + 2))"
  by (subst spawn_coin.simps) (simp add: Let_def accepted_def sample_x_def sample_y_def)

lemma sample_in_margin:
  "real_of_int COIN_SAFE_MARGIN \<le> sample_x rnd r"
  "sample_x rnd r \<le> real_of_int (WINDOW_WIDTH - COIN_SAFE_MARGIN)"
  "real_of_int COIN_SAFE_MARGIN \<le> sample_y rnd r"
  "sample_y rnd r \<le> real_of_int (WINDOW_HEIGHT - COIN_SAFE_MARGIN)"
proof -
  have x: "0 \<le> int (rnd r) mod 1320" "int (rnd r) mod 1320 < 1320" by simp_all
  have y: "0 \<le> int (rnd (r + 1)) mod 480" "int (rnd (r + 1)) mod 480 < 480" by simp_all
  show "real_of_int COIN_SAFE_MARGIN \<le> sample_x rnd r"
    "sample_x rnd r \<le> real_of_int (WINDOW_WIDTH - COIN_SAFE_MARGIN)"
    using x by (simp_all add: sample_x_def)
  show "real_of_int COIN_SAFE_MARGIN \<le> sample_y rnd r"
    "sample_y rnd r \<le> real_of_int (WINDOW_HEIGHT - COIN_SAFE_MARGIN)"
    using y by (simp_all add: sample_y_def)
qed

lemma spawn_coin_good:
  assumes "spawn_coin rnd px py r = Some res"
  shows "\<exists>k. res = (sample_x rnd (r + 2 * k), sample_y rnd (r + 2 * k), r + 2 * k + 2)
            \<and> accepted rnd px py (r + 2 * k)"
proof (rule spawn_coin.raw_induct[where P = "\<lambda>rnd px py r res.
          \<exists>k. res = (sample_x rnd (r + 2 * k), sample_y rnd (r + 2 * k), r + 2 * k + 2)
              \<and> accepted rnd px py (r + 2 * k)", OF _ assms], goal_cases)
  case (1 f rnd px py r res)
  show ?case
  proof (cases "accepted rnd px py r")
    case True
    with 1(2) have "res = (sample_x rnd r, sample_y rnd r, r + 2)"
      by (simp add: Let_def accepted_def sample_x_def sample_y_def)
    with True show ?thesis by (intro exI[of _ 0]) simp
  next
    case False
    with 1(2) have "f rnd px py (r + 2) = Some res"
      by (simp add: Let_def accepted_def sample_x_def sample_y_def)
    from 1(1)[OF this] obtain k where
      "res = (sample_x rnd (r + 2 + 2 * k), sample_y rnd (r + 2 + 2 * k), r + 2 + 2 * k + 2)"
      "accepted rnd px py (r + 2 + 2 * k)" by blast
    then show ?thesis by (intro exI[of _ "Suc k"]) (simp add: add.assoc)
  qed
qed

lemma spawn_coin_returns:
  assumes "accepted rnd px py (r + 2 * k)"
  shows "\<exists>res. spawn_coin rnd px py r = Some res"
  using assms
proof (induction k arbitrary: r)
  case 0
  then show ?case by (subst spawn_coin_unfold) simp
next
  case (Suc k)
  have "accepted rnd px py (r + 2 + 2 * k)" using Suc.prems by (simp add: add.assoc)
  from Suc.IH[OF this] show ?case by (subst spawn_coin_unfold) auto
qed


lemma hypot_gt_iff:
  assumes "0 \<le> d"
  shows "d < hypot a b \<longleftrightarrow> d * d < a * a + b * b"
proof -
  have "d = sqrt (d * d)" using assms by simp
  then have "d < hypot a b \<longleftrightarrow> sqrt (d * d) < sqrt (a * a + b * b)"
    unfolding hypot_def by simp
  also have "\<dots> \<longleftrightarrow> d * d < a * a + b * b" by (rule real_sqrt_less_iff)
  finally show ?thesis .
qed

lemma spawn_coin_position:
  assumes "spawn_coin rnd px py r = Some (cx, cy, r')"
  shows "good_coin_position px py cx cy"
proof -
  from spawn_coin_good[OF assms] obtain k where
    res: "cx = sample_x rnd (r + 2 * k)" "cy = sample_y rnd (r + 2 * k)"
    and acc: "accepted rnd px py (r + 2 * k)" by auto
  show ?thesis
    unfolding good_coin_position_def res
    using acc sample_in_margin[of rnd "r + 2 * k"] by (simp add: accepted_def)
qed

lemma length_deactivate_coins: "length (deactivate_coins n cs) = length cs"
  by (simp add: deactivate_coins_def)

lemma init_coin_collector_game_coin:
  assumes "init_coin_collector_game rnd now g = Some g'" and "0 < length (coin_collector_coins g)"
  shows "c_active (coin_collector_coins g' ! 0) = 1
       \<and> good_coin_position (p_x (player g')) (p_y (player g'))
            (c_x (coin_collector_coins g' ! 0)) (c_y (coin_collector_coins g' ! 0))"
proof -
  let ?h = "(init_player g)\<lparr>coin_collector_coins :=
              deactivate_coins (current_game_target (init_player g)) (coin_collector_coins (init_player g))\<rparr>"
  have len: "0 < length (coin_collector_coins ?h)"
    using assms(2) by (simp add: length_deactivate_coins init_player_def Let_def)
  from assms(1) obtain cx cy r where
    sp: "spawn_coin rnd (p_x (player ?h)) (p_y (player ?h)) (rand_pos ?h) = Some (cx, cy, r)"
    and c0: "coin_collector_coins g' = (coin_collector_coins ?h)[0 := \<lparr>c_x = cx, c_y = cy, c_active = 1\<rparr>]"
    and pl: "player g' = player ?h"
    by (auto simp: init_coin_collector_game_def Let_def split: option.splits if_splits)
  from spawn_coin_position[OF sp] show ?thesis
    unfolding c0 pl using len by simp
qed

lemma coin_slot_step_respawn:
  assumes "coin_slot_step rnd i h = Inr h'" and "coins h' = coins h + 1"
    and "coins h' < current_game_target h"
  shows "c_active (coin_collector_coins h' ! (i + 1)) = 1
       \<and> good_coin_position (p_x (player h)) (p_y (player h))
            (c_x (coin_collector_coins h' ! (i + 1))) (c_y (coin_collector_coins h' ! (i + 1)))"
proof -
  have in_range: "\<not> i \<ge> length (coin_collector_coins h)"
    using assms(1) by (auto simp: coin_slot_step_def)
  have active: "c_active (coin_collector_coins h ! i) \<noteq> 0"
    using assms(1,2) in_range by (auto simp: coin_slot_step_def)
  let ?z = "is_in_zone (player h)
             \<lparr>t_x = c_x (coin_collector_coins h ! i), t_y = c_y (coin_collector_coins h ! i),
              t_velocity_x = 0, t_velocity_y = 0\<rparr>
             \<lfloor>real_of_int STARTING_COIN_SIZE * (12 / 10)\<rfloor>"
  have zone: "?z"
  proof (rule ccontr)
    assume "\<not> ?z"
    with assms(1) in_range active have "h' = h" by (simp add: coin_slot_step_def)
    with assms(2) show False by simp
  qed
  have more: "coins h + 1 < current_game_target h" using assms(2,3) by simp
  show ?thesis
  proof (cases "spawn_coin rnd (p_x (player h)) (p_y (player h)) (rand_pos h)")
    case None
    with assms(1) in_range active zone more show ?thesis
      by (simp add: coin_slot_step_def Let_def)
  next
    case (Some res)
    obtain cx cy r where res: "res = (cx, cy, r)" by (cases res)
    note sp = Some[unfolded res]
    have lt: "i + 1 < length (coin_collector_coins h)"
      using assms(1) in_range active zone more sp
      by (auto simp: coin_slot_step_def Let_def split: if_splits)
    have "coin_collector_coins h' ! (i + 1) = \<lparr>c_x = cx, c_y = cy, c_active = 1\<rparr>"
      using assms(1) in_range active zone more sp lt
      by (auto simp: coin_slot_step_def Let_def split: if_splits)
    with spawn_coin_position[OF sp] show ?thesis by simp
  qed
qed

text \<open>
  Claim C7: every position the rejection loop returns lies farther than
  \<open>COIN_SPAWN_MIN_DIST_PLAYER\<close> from the avatar and keeps \<open>COIN_SAFE_MARGIN\<close> from
  the four edges of the window. This holds for the first coin placed by
  \<^verbatim>\<open>init_coin_collector_game\<close> (slot 0, relative to the avatar in the centre) and for
  the coin placed in slot \<open>i + 1\<close> when the coin in slot \<open>i\<close> is collected and the
  target is not yet reached. The loop has no bound on its retries; it returns as soon
  as the random sequence holds an accepted sample at one of the positions it inspects.
\<close>

theorem coin_spawn_position:
  "(spawn_coin rnd px py r = Some (cx, cy, r') \<longrightarrow> good_coin_position px py cx cy)
   \<and> (init_coin_collector_game rnd now g = Some g' \<and> 0 < length (coin_collector_coins g) \<longrightarrow>
        c_active (coin_collector_coins g' ! 0) = 1
        \<and> good_coin_position (p_x (player g')) (p_y (player g'))
             (c_x (coin_collector_coins g' ! 0)) (c_y (coin_collector_coins g' ! 0)))
   \<and> (coin_slot_step rnd i h = Inr h' \<and> coins h' = coins h + 1
        \<and> coins h' < current_game_target h \<longrightarrow>
        c_active (coin_collector_coins h' ! (i + 1)) = 1
        \<and> good_coin_position (p_x (player h)) (p_y (player h))
             (c_x (coin_collector_coins h' ! (i + 1))) (c_y (coin_collector_coins h' ! (i + 1))))
   \<and> (accepted rnd px py (r + 2 * k) \<longrightarrow> (\<exists>res. spawn_coin rnd px py r = Some res))"
proof (intro conjI impI)
  assume "spawn_coin rnd px py r = Some (cx, cy, r')"
  then show "good_coin_position px py cx cy" by (rule spawn_coin_position)
next
  assume a: "init_coin_collector_game rnd now g = Some g' \<and> 0 < length (coin_collector_coins g)"
  note r = init_coin_collector_game_coin[OF conjunct1[OF a] conjunct2[OF a]]
  show "c_active (coin_collector_coins g' ! 0) = 1" using r by simp
  show "good_coin_position (p_x (player g')) (p_y (player g'))
             (c_x (coin_collector_coins g' ! 0)) (c_y (coin_collector_coins g' ! 0))"
    using r by simp
next
  assume a: "coin_slot_step rnd i h = Inr h' \<and> coins h' = coins h + 1
        \<and> coins h' < current_game_target h"
  then have a1: "coin_slot_step rnd i h = Inr h'" and a2: "coins h' = coins h + 1"
    and a3: "coins h' < current_game_target h" by simp_all
  note r = coin_slot_step_respawn[OF a1 a2 a3]
  show "c_active (coin_collector_coins h' ! (i + 1)) = 1" using r by simp
  show "good_coin_position (p_x (player h)) (p_y (player h))
             (c_x (coin_collector_coins h' ! (i + 1))) (c_y (coin_collector_coins h' ! (i + 1)))"
    using r by simp
next
  assume "accepted rnd px py (r + 2 * k)"
  then show "\<exists>res. spawn_coin rnd px py r = Some res" by (rule spawn_coin_returns)
qed

lemma zero_rand_sample:
  "sample_x zero_rand r = 300" "sample_y zero_rand r = 300"
  by (simp_all add: sample_x_def sample_y_def zero_rand_def)

lemma zero_rand_accepted: "accepted zero_rand 960 540 r"
  unfolding accepted_def zero_rand_sample
  by (simp add: hypot_gt_iff)

text \<open>
  With a generator that always returns 0 and the avatar in the centre, the first sample
  \<open>(300, 300)\<close> is accepted.
\<close>

theorem coin_spawn_position_witness:
  "spawn_coin zero_rand 960 540 0 = Some (300, 300, 2)
   \<and> good_coin_position 960 540 300 300
   \<and> hypot (300 - 960) (300 - 540) > 250"
proof -
  have sp: "spawn_coin zero_rand 960 540 0 = Some (300, 300, 2)"
    by (subst spawn_coin_unfold) (simp add: zero_rand_accepted zero_rand_sample)
  have "good_coin_position 960 540 300 300"
    using coin_spawn_position[where rnd = zero_rand and px = 960 and py = 540 and r = 0
        and cx = 300 and cy = 300 and r' = 2, THEN conjunct1] sp by simp
  then show ?thesis using sp by (simp add: good_coin_position_def)
qed

subsection \<open>Selection screens: zones and the hold timer\<close>

lemma player_selection_scan_eq:
  "player_selection_scan dt g =
     g\<lparr>player_selection_choice := zone_choice g,
       menu_select_timer := (if zone_choice g \<noteq> player_selection_choice g then 0 else menu_select_timer g)
                            + (if zone_choice g \<noteq> 0 then dt else 0)\<rparr>"
  by (rule game.equality) (simp_all add: player_selection_scan_def Let_def zone_choice_def)

lemma main_menu_scan_eq:
  "main_menu_scan dt g =
     g\<lparr>selected_game := game_of_zone (zone_choice g),
       menu_select_timer := (if game_of_zone (zone_choice g) \<noteq> selected_game g then 0 else menu_select_timer g)
                            + (if zone_choice g \<noteq> 0 then dt else 0)\<rparr>"
  by (rule game.equality) (simp_all add: main_menu_scan_def Let_def zone_choice_def game_of_zone_def)

lemma difficulty_selection_scan_eq:
  "difficulty_selection_scan dt g =
     g\<lparr>difficulty_selection := zone_choice g,
       menu_select_timer := (if zone_choice g \<noteq> difficulty_selection g then 0 else menu_select_timer g)
                            + (if zone_choice g \<noteq> 0 then dt else 0)\<rparr>"
  by (rule game.equality) (simp_all add: difficulty_selection_scan_def Let_def zone_choice_def)


lemma zone_choice_range: "zone_choice g = 0 \<or> zone_choice g = 1 \<or> zone_choice g = 2 \<or> zone_choice g = 3"
  by (simp add: zone_choice_def)

lemma zone_choice_light: "current_total_weight g \<le> MIN_TOTAL_WEIGHT \<Longrightarrow> zone_choice g = 0"
  by (simp add: zone_choice_def)

lemma player_selection_commit_ok:
  assumes "player_selection_choice g = 1 \<or> player_selection_choice g = 2 \<or> player_selection_choice g = 3"
  shows "\<exists>g'. player_selection_commit g = Inr g' \<and> state g' = MAIN_MENU \<and> menu_select_timer g' = 0
            \<and> selected_player_index g' = player_selection_choice g - 1"
proof -
  have r: "0 \<le> player_selection_choice g - 1" "player_selection_choice g - 1 < 3"
    using assms by auto
  from valid_index_filename[OF r] obtain f1 where
    f1: "get_profile_filename ''score.txt'' (player_selection_choice g - 1) = Some f1" by blast
  from valid_index_filename[OF r] obtain f2 where
    f2: "get_profile_filename ''wins.txt'' (player_selection_choice g - 1) = Some f2" by blast
  show ?thesis by (simp add: player_selection_commit_def Let_def f1 f2)
qed

lemma main_menu_commit_fields:
  assumes "main_menu_commit inp g = Inr g'"
  shows "menu_select_timer g' = 0"
    and "state g' = (if selected_game g = DODGE then GAME_DODGE else DIFFICULTY_SELECTION)"
    and "selected_game g' = selected_game g"
  using assms
  by (auto simp: main_menu_commit_def Let_def init_dodge_game_def init_player_def
        split: if_splits option.splits)

lemma init_player_shape:
  "\<exists>p t. init_player g = g\<lparr>player := p, trail_points := t, trail_head := 0\<rparr>"
proof -
  have "init_player g = g\<lparr>player := player (init_player g),
          trail_points := trail_points (init_player g), trail_head := 0\<rparr>"
    by (rule game.equality) (simp_all add: init_player_def Let_def)
  then show ?thesis by blast
qed

lemma init_dodge_game_shape:
  "\<exists>p t bs. init_dodge_game now g =
      g\<lparr>player := p, trail_points := t, trail_head := 0, dodge_blocks := bs,
        block_spawn_timer := 0, current_block_speed := BLOCK_INITIAL_SPEED, dodge_score := 0,
        game_start_time := now\<rparr>"
proof -
  have "init_dodge_game now g =
      g\<lparr>player := player (init_dodge_game now g), trail_points := trail_points (init_dodge_game now g),
        trail_head := 0, dodge_blocks := dodge_blocks (init_dodge_game now g),
        block_spawn_timer := 0, current_block_speed := BLOCK_INITIAL_SPEED, dodge_score := 0,
        game_start_time := now\<rparr>"
    by (rule game.equality) (simp_all add: init_dodge_game_def init_player_def Let_def)
  then show ?thesis by blast
qed

lemma init_balance_hold_game_shape:
  "\<exists>p t tg r. init_balance_hold_game rnd now g =
      g\<lparr>player := p, trail_points := t, trail_head := 0, balance_hold_target := tg,
        rand_pos := r, game_start_time := now, hold_timer := 0, beeps_played := 0\<rparr>"
proof -
  have "init_balance_hold_game rnd now g =
      g\<lparr>player := player (init_balance_hold_game rnd now g),
        trail_points := trail_points (init_balance_hold_game rnd now g), trail_head := 0,
        balance_hold_target := balance_hold_target (init_balance_hold_game rnd now g),
        rand_pos := rand_pos (init_balance_hold_game rnd now g),
        game_start_time := now, hold_timer := 0, beeps_played := 0\<rparr>"
    by (rule game.equality) (simp_all add: init_balance_hold_game_def init_player_def Let_def)
  then show ?thesis by blast
qed

lemma init_coin_collector_game_shape:
  assumes "init_coin_collector_game rnd now g = Some g'"
  shows "\<exists>p t cs r ct. g' =
      g\<lparr>player := p, trail_points := t, trail_head := 0, coin_collector_coins := cs,
        rand_pos := r, game_start_time := now, coins := 0, coin_timer := ct\<rparr>"
proof -
  have "g' = g\<lparr>player := player g', trail_points := trail_points g', trail_head := 0,
               coin_collector_coins := coin_collector_coins g', rand_pos := rand_pos g',
               game_start_time := now, coins := 0, coin_timer := coin_timer g'\<rparr>"
    using assms
    by (auto simp: init_coin_collector_game_def init_player_def Let_def
          split: option.splits if_splits)
  then show ?thesis by blast
qed

lemma coin_collector_branch:
  assumes "(case init_coin_collector_game rnd now h of
              None \<Rightarrow> Inl Never_Returns
            | Some g2 \<Rightarrow> Inr (g2\<lparr>coins := 0, menu_select_timer := 0\<rparr>)) = Inr g'"
  shows "menu_select_timer g' = 0 \<and> state g' = state h
       \<and> current_difficulty g' = current_difficulty h
       \<and> dynamic_block_spawn_interval g' = dynamic_block_spawn_interval h
       \<and> dodge_score g' = dodge_score h"
proof (cases "init_coin_collector_game rnd now h")
  case None
  with assms show ?thesis by simp
next
  case (Some g2)
  with assms have g': "g' = g2\<lparr>coins := 0, menu_select_timer := 0\<rparr>" by simp
  from init_coin_collector_game_shape[OF Some] show ?thesis unfolding g' by auto
qed

lemma difficulty_selection_commit_fields:
  assumes "difficulty_selection_commit rnd inp g = Inr g'"
  shows "menu_select_timer g' = 0
       \<and> state g' = (if selected_game g = BALANCE_HOLD then GAME_BALANCE_HOLD
                     else if selected_game g = COIN_COLLECTOR then GAME_COIN_COLLECTOR
                     else if selected_game g = DODGE then GAME_DODGE else state g)
       \<and> current_difficulty g' = (if difficulty_selection g = 1 then EASY
                     else if difficulty_selection g = 2 then MEDIUM
                     else if difficulty_selection g = 3 then HARD else current_difficulty g)
       \<and> dynamic_block_spawn_interval g' = dynamic_block_spawn_interval g
       \<and> (dodge_score g' = dodge_score g \<or> dodge_score g' = 0)"
proof -
  define D where "D = (if difficulty_selection g = 1 then EASY
                     else if difficulty_selection g = 2 then MEDIUM
                     else if difficulty_selection g = 3 then HARD else current_difficulty g)"
  have g1: "(if difficulty_selection g = 1 then g\<lparr>current_difficulty := EASY\<rparr>
              else if difficulty_selection g = 2 then g\<lparr>current_difficulty := MEDIUM\<rparr>
              else if difficulty_selection g = 3 then g\<lparr>current_difficulty := HARD\<rparr>
              else g) = g\<lparr>current_difficulty := D\<rparr>"
    unfolding D_def by simp
  note c = assms[unfolded difficulty_selection_commit_def Let_def g1]
  have main: "menu_select_timer g' = 0
       \<and> state g' = (if selected_game g = BALANCE_HOLD then GAME_BALANCE_HOLD
                     else if selected_game g = COIN_COLLECTOR then GAME_COIN_COLLECTOR
                     else if selected_game g = DODGE then GAME_DODGE else state g)
       \<and> current_difficulty g' = D
       \<and> dynamic_block_spawn_interval g' = dynamic_block_spawn_interval g
       \<and> (dodge_score g' = dodge_score g \<or> dodge_score g' = 0)"
  proof (cases "selected_game g")
    case NO_GAME_SELECTED
    with c show ?thesis by auto
  next
    case BALANCE_HOLD
    let ?h = "g\<lparr>current_difficulty := D, state := GAME_BALANCE_HOLD,
                 current_game_target := (if D = EASY then 10 else if D = HARD then 25 else 15)\<rparr>"
    obtain p t tg r where "init_balance_hold_game rnd (logic_time inp) ?h =
      ?h\<lparr>player := p, trail_points := t, trail_head := 0, balance_hold_target := tg,
        rand_pos := r, game_start_time := logic_time inp, hold_timer := 0, beeps_played := 0\<rparr>"
      using init_balance_hold_game_shape by blast
    with c BALANCE_HOLD show ?thesis by auto
  next
    case COIN_COLLECTOR
    with c show ?thesis by (auto dest!: coin_collector_branch)
  next
    case DODGE
    let ?h = "g\<lparr>current_difficulty := D, state := GAME_DODGE\<rparr>"
    obtain p t bs where "init_dodge_game (logic_time inp) ?h =
      ?h\<lparr>player := p, trail_points := t, trail_head := 0, dodge_blocks := bs,
        block_spawn_timer := 0, current_block_speed := BLOCK_INITIAL_SPEED, dodge_score := 0,
        game_start_time := logic_time inp\<rparr>"
      using init_dodge_game_shape by blast
    with c DODGE show ?thesis by auto
  qed
  then show ?thesis unfolding D_def by simp
qed


lemma scan_states:
  "state (player_selection_scan dt g) = state g"
  "state (main_menu_scan dt g) = state g"
  "state (difficulty_selection_scan dt g) = state g"
  by (simp_all add: player_selection_scan_eq main_menu_scan_eq difficulty_selection_scan_eq)

lemma main_menu_commit_ok:
  assumes "selected_game g = DODGE \<longrightarrow> 0 \<le> selected_player_index g \<and> selected_player_index g < 3"
  shows "\<exists>g'. main_menu_commit inp g = Inr g'"
proof (cases "selected_game g = DODGE")
  case False
  then show ?thesis by (simp add: main_menu_commit_def)
next
  case True
  with assms have "0 \<le> selected_player_index g" "selected_player_index g < 3" by simp_all
  from valid_index_filename[OF this] obtain f where
    "get_profile_filename ''dodge_score.txt'' (selected_player_index g) = Some f" by blast
  with True show ?thesis by (simp add: main_menu_commit_def Let_def)
qed

lemma main_menu_commit_fault:
  assumes "selected_game g = DODGE" and "\<not> (0 \<le> selected_player_index g \<and> selected_player_index g < 3)"
  shows "main_menu_commit inp g = Inl Out_Of_Bounds"
  using assms by (simp add: main_menu_commit_def get_profile_filename_def available_players_def)

lemma spawn_coin_none:
  assumes "\<forall>k. \<not> accepted rnd px py (r + 2 * k)"
  shows "spawn_coin rnd px py r = None"
proof (cases "spawn_coin rnd px py r")
  case None
  then show ?thesis .
next
  case (Some res)
  from spawn_coin_good[OF Some] assms show ?thesis by blast
qed

lemma init_coin_collector_game_ok:
  assumes "accepted rnd (real_of_int WINDOW_WIDTH / 2) (real_of_int WINDOW_HEIGHT / 2) (rand_pos g + 2 * k)"
  shows "\<exists>g'. init_coin_collector_game rnd now g = Some g'"
proof -
  let ?h = "(init_player g)\<lparr>coin_collector_coins :=
              deactivate_coins (current_game_target (init_player g)) (coin_collector_coins (init_player g))\<rparr>"
  have h: "p_x (player ?h) = real_of_int WINDOW_WIDTH / 2" "p_y (player ?h) = real_of_int WINDOW_HEIGHT / 2"
    "rand_pos ?h = rand_pos g"
    by (simp_all add: init_player_def Let_def)
  from spawn_coin_returns[of rnd "p_x (player ?h)" "p_y (player ?h)" "rand_pos ?h" k] assms
  obtain res where sp: "spawn_coin rnd (p_x (player ?h)) (p_y (player ?h)) (rand_pos ?h) = Some res"
    unfolding h by blast
  obtain cx cy r where res: "res = (cx, cy, r)" by (cases res)
  show ?thesis
    unfolding init_coin_collector_game_def Let_def sp res by simp
qed

lemma init_coin_collector_game_never:
  assumes "\<forall>k. \<not> accepted rnd (real_of_int WINDOW_WIDTH / 2) (real_of_int WINDOW_HEIGHT / 2) (rand_pos g + 2 * k)"
  shows "init_coin_collector_game rnd now g = None"
proof -
  let ?h = "(init_player g)\<lparr>coin_collector_coins :=
              deactivate_coins (current_game_target (init_player g)) (coin_collector_coins (init_player g))\<rparr>"
  have h: "p_x (player ?h) = real_of_int WINDOW_WIDTH / 2" "p_y (player ?h) = real_of_int WINDOW_HEIGHT / 2"
    "rand_pos ?h = rand_pos g"
    by (simp_all add: init_player_def Let_def)
  have "spawn_coin rnd (p_x (player ?h)) (p_y (player ?h)) (rand_pos ?h) = None"
    unfolding h by (rule spawn_coin_none) (rule assms)
  then show ?thesis unfolding init_coin_collector_game_def Let_def by simp
qed

lemma difficulty_selection_commit_ok:
  assumes "selected_game g = COIN_COLLECTOR \<longrightarrow>
             (\<exists>k. accepted rnd (real_of_int WINDOW_WIDTH / 2) (real_of_int WINDOW_HEIGHT / 2)
                     (rand_pos g + 2 * k))"
  shows "\<exists>g'. difficulty_selection_commit rnd inp g = Inr g'"
proof -
  define D where "D = (if difficulty_selection g = 1 then EASY
                     else if difficulty_selection g = 2 then MEDIUM
                     else if difficulty_selection g = 3 then HARD else current_difficulty g)"
  have g1: "(if difficulty_selection g = 1 then g\<lparr>current_difficulty := EASY\<rparr>
              else if difficulty_selection g = 2 then g\<lparr>current_difficulty := MEDIUM\<rparr>
              else if difficulty_selection g = 3 then g\<lparr>current_difficulty := HARD\<rparr>
              else g) = g\<lparr>current_difficulty := D\<rparr>"
    unfolding D_def by simp
  show ?thesis
  proof (cases "selected_game g = COIN_COLLECTOR")
    case False
    then show ?thesis unfolding difficulty_selection_commit_def Let_def g1 by simp
  next
    case True
    let ?h = "g\<lparr>current_difficulty := D, state := GAME_COIN_COLLECTOR,
                 current_game_target := (if D = EASY then 15 else if D = HARD then 30 else 20)\<rparr>"
    from True assms obtain k where
      "accepted rnd (real_of_int WINDOW_WIDTH / 2) (real_of_int WINDOW_HEIGHT / 2) (rand_pos g + 2 * k)"
      by blast
    then have "accepted rnd (real_of_int WINDOW_WIDTH / 2) (real_of_int WINDOW_HEIGHT / 2) (rand_pos ?h + 2 * k)"
      by simp
    from init_coin_collector_game_ok[OF this] obtain g2 where
      "init_coin_collector_game rnd (logic_time inp) ?h = Some g2" by blast
    with True show ?thesis unfolding difficulty_selection_commit_def Let_def g1
      by (cases D) simp_all
  qed
qed

lemma difficulty_selection_commit_never:
  assumes "selected_game g = COIN_COLLECTOR"
    and "\<forall>k. \<not> accepted rnd (real_of_int WINDOW_WIDTH / 2) (real_of_int WINDOW_HEIGHT / 2)
                 (rand_pos g + 2 * k)"
  shows "difficulty_selection_commit rnd inp g = Inl Never_Returns"
proof -
  define D where "D = (if difficulty_selection g = 1 then EASY
                     else if difficulty_selection g = 2 then MEDIUM
                     else if difficulty_selection g = 3 then HARD else current_difficulty g)"
  have g1: "(if difficulty_selection g = 1 then g\<lparr>current_difficulty := EASY\<rparr>
              else if difficulty_selection g = 2 then g\<lparr>current_difficulty := MEDIUM\<rparr>
              else if difficulty_selection g = 3 then g\<lparr>current_difficulty := HARD\<rparr>
              else g) = g\<lparr>current_difficulty := D\<rparr>"
    unfolding D_def by simp
  let ?h = "g\<lparr>current_difficulty := D, state := GAME_COIN_COLLECTOR,
               current_game_target := (if D = EASY then 15 else if D = HARD then 30 else 20)\<rparr>"
  have "\<forall>k. \<not> accepted rnd (real_of_int WINDOW_WIDTH / 2) (real_of_int WINDOW_HEIGHT / 2) (rand_pos ?h + 2 * k)"
    using assms(2) by simp
  from init_coin_collector_game_never[OF this]
  have "init_coin_collector_game rnd (logic_time inp) ?h = None" .
  with assms(1) show ?thesis unfolding difficulty_selection_commit_def Let_def g1
    by (cases D) simp_all
qed

text \<open>
  Claim C5, for the three selection screens (player, main menu, difficulty). The choice
  of a frame is the zone of the balance, and there is no choice when the total weight is
  at or below \<open>MIN_TOTAL_WEIGHT\<close>. The timer after the scan of a frame is the old
  timer, first set to zero when the choice differs from the choice of the previous
  frame, then advanced by \<open>dt\<close> when the choice is not empty; so it grows only while
  a choice is held. While the timer stays below \<open>MENU_SELECT_TIME_REQUIRED\<close> the
  frame ends with the scanned state, in the same screen. When it reaches the required
  time the choice is committed and the timer is set to zero: the player screen moves on
  to the main menu with the chosen player, the main menu to Dodge or to the difficulty
  screen with the chosen game, the difficulty screen to the chosen game with the chosen
  difficulty; the screen is left, so the same hold is not committed again. The commit
  does return. On the player screen it returns for every non-empty choice, and with an
  empty choice it reads the profile table at index \<open>-1\<close>. On the main menu it returns
  unless Dodge is committed with no valid player index, which again reads the profile
  table out of bounds. On the difficulty screen it returns unless Coin-Collector is
  started and the random sequence holds no acceptable place for the first coin among
  those the rejection loop inspects; then the loop runs forever.
\<close>

theorem selection_hold_timer:
  "(current_total_weight g \<le> MIN_TOTAL_WEIGHT \<longrightarrow> zone_choice g = 0)
   \<and> player_selection_choice (player_selection_scan dt g) = zone_choice g
   \<and> selected_game (main_menu_scan dt g) = game_of_zone (zone_choice g)
   \<and> difficulty_selection (difficulty_selection_scan dt g) = zone_choice g
   \<and> menu_select_timer (player_selection_scan dt g) =
         (if zone_choice g \<noteq> player_selection_choice g then 0 else menu_select_timer g)
         + (if zone_choice g \<noteq> 0 then dt else 0)
   \<and> menu_select_timer (main_menu_scan dt g) =
         (if game_of_zone (zone_choice g) \<noteq> selected_game g then 0 else menu_select_timer g)
         + (if zone_choice g \<noteq> 0 then dt else 0)
   \<and> menu_select_timer (difficulty_selection_scan dt g) =
         (if zone_choice g \<noteq> difficulty_selection g then 0 else menu_select_timer g)
         + (if zone_choice g \<noteq> 0 then dt else 0)
   \<and> (menu_select_timer (player_selection_scan dt g) < MENU_SELECT_TIME_REQUIRED \<longrightarrow>
        case_player_selection dt g = Inr (player_selection_scan dt g)
        \<and> state (player_selection_scan dt g) = state g)
   \<and> (menu_select_timer (main_menu_scan dt g) < MENU_SELECT_TIME_REQUIRED \<longrightarrow>
        case_main_menu inp dt g = Inr (main_menu_scan dt g)
        \<and> state (main_menu_scan dt g) = state g)
   \<and> (menu_select_timer (difficulty_selection_scan dt g) < MENU_SELECT_TIME_REQUIRED \<longrightarrow>
        case_difficulty_selection rnd inp dt g = Inr (difficulty_selection_scan dt g)
        \<and> state (difficulty_selection_scan dt g) = state g)
   \<and> (menu_select_timer (player_selection_scan dt g) \<ge> MENU_SELECT_TIME_REQUIRED
        \<and> zone_choice g \<noteq> 0 \<longrightarrow>
        (\<exists>g'. case_player_selection dt g = Inr g' \<and> state g' = MAIN_MENU
              \<and> menu_select_timer g' = 0 \<and> selected_player_index g' = zone_choice g - 1))
   \<and> (menu_select_timer (main_menu_scan dt g) \<ge> MENU_SELECT_TIME_REQUIRED
        \<and> case_main_menu inp dt g = Inr g1 \<longrightarrow>
        menu_select_timer g1 = 0 \<and> selected_game g1 = game_of_zone (zone_choice g)
        \<and> state g1 = (if zone_choice g = 2 then GAME_DODGE else DIFFICULTY_SELECTION))
   \<and> (menu_select_timer (difficulty_selection_scan dt g) \<ge> MENU_SELECT_TIME_REQUIRED
        \<and> case_difficulty_selection rnd inp dt g = Inr g2 \<longrightarrow>
        menu_select_timer g2 = 0
        \<and> current_difficulty g2 = (if zone_choice g = 1 then EASY else if zone_choice g = 2 then MEDIUM
                                    else if zone_choice g = 3 then HARD else current_difficulty g)
        \<and> state g2 = (if selected_game g = BALANCE_HOLD then GAME_BALANCE_HOLD
                       else if selected_game g = COIN_COLLECTOR then GAME_COIN_COLLECTOR
                       else if selected_game g = DODGE then GAME_DODGE else state g))
   \<and> (menu_select_timer (player_selection_scan dt g) \<ge> MENU_SELECT_TIME_REQUIRED
        \<and> zone_choice g = 0 \<longrightarrow>
        case_player_selection dt g = Inl Out_Of_Bounds)
   \<and> (menu_select_timer (main_menu_scan dt g) \<ge> MENU_SELECT_TIME_REQUIRED
        \<and> (zone_choice g = 2 \<longrightarrow> 0 \<le> selected_player_index g \<and> selected_player_index g < 3) \<longrightarrow>
        (\<exists>g1. case_main_menu inp dt g = Inr g1
              \<and> menu_select_timer g1 = 0 \<and> selected_game g1 = game_of_zone (zone_choice g)
        \<and> state g1 = (if zone_choice g = 2 then GAME_DODGE else DIFFICULTY_SELECTION)))
   \<and> (menu_select_timer (main_menu_scan dt g) \<ge> MENU_SELECT_TIME_REQUIRED
        \<and> zone_choice g = 2 \<and> \<not> (0 \<le> selected_player_index g \<and> selected_player_index g < 3) \<longrightarrow>
        case_main_menu inp dt g = Inl Out_Of_Bounds)
   \<and> (menu_select_timer (difficulty_selection_scan dt g) \<ge> MENU_SELECT_TIME_REQUIRED
        \<and> (selected_game g = COIN_COLLECTOR \<longrightarrow>
             (\<exists>k. accepted rnd (real_of_int WINDOW_WIDTH / 2) (real_of_int WINDOW_HEIGHT / 2) (rand_pos g + 2 * k))) \<longrightarrow>
        (\<exists>g2. case_difficulty_selection rnd inp dt g = Inr g2
              \<and> menu_select_timer g2 = 0
        \<and> current_difficulty g2 = (if zone_choice g = 1 then EASY else if zone_choice g = 2 then MEDIUM
                                    else if zone_choice g = 3 then HARD else current_difficulty g)
        \<and> state g2 = (if selected_game g = BALANCE_HOLD then GAME_BALANCE_HOLD
                       else if selected_game g = COIN_COLLECTOR then GAME_COIN_COLLECTOR
                       else if selected_game g = DODGE then GAME_DODGE else state g)))
   \<and> (menu_select_timer (difficulty_selection_scan dt g) \<ge> MENU_SELECT_TIME_REQUIRED
        \<and> selected_game g = COIN_COLLECTOR
        \<and> (\<forall>k. \<not> accepted rnd (real_of_int WINDOW_WIDTH / 2) (real_of_int WINDOW_HEIGHT / 2) (rand_pos g + 2 * k)) \<longrightarrow>
        case_difficulty_selection rnd inp dt g = Inl Never_Returns)"
proof -
  have dodge_zone: "game_of_zone (zone_choice g) = DODGE \<longleftrightarrow> zone_choice g = 2"
    by (simp add: game_of_zone_def)
  have c1: "(current_total_weight g \<le> MIN_TOTAL_WEIGHT \<longrightarrow> zone_choice g = 0)"
    using zone_choice_light[of g] by blast
  have c2: "player_selection_choice (player_selection_scan dt g) = zone_choice g"
    by (simp add: player_selection_scan_eq main_menu_scan_eq difficulty_selection_scan_eq)
  have c3: "selected_game (main_menu_scan dt g) = game_of_zone (zone_choice g)"
    by (simp add: player_selection_scan_eq main_menu_scan_eq difficulty_selection_scan_eq)
  have c4: "difficulty_selection (difficulty_selection_scan dt g) = zone_choice g"
    by (simp add: player_selection_scan_eq main_menu_scan_eq difficulty_selection_scan_eq)
  have c5: "menu_select_timer (player_selection_scan dt g) =
         (if zone_choice g \<noteq> player_selection_choice g then 0 else menu_select_timer g)
         + (if zone_choice g \<noteq> 0 then dt else 0)"
    by (simp add: player_selection_scan_eq main_menu_scan_eq difficulty_selection_scan_eq)
  have c6: "menu_select_timer (main_menu_scan dt g) =
         (if game_of_zone (zone_choice g) \<noteq> selected_game g then 0 else menu_select_timer g)
         + (if zone_choice g \<noteq> 0 then dt else 0)"
    by (simp add: player_selection_scan_eq main_menu_scan_eq difficulty_selection_scan_eq)
  have c7: "menu_select_timer (difficulty_selection_scan dt g) =
         (if zone_choice g \<noteq> difficulty_selection g then 0 else menu_select_timer g)
         + (if zone_choice g \<noteq> 0 then dt else 0)"
    by (simp add: player_selection_scan_eq main_menu_scan_eq difficulty_selection_scan_eq)
  have c8: "(menu_select_timer (player_selection_scan dt g) < MENU_SELECT_TIME_REQUIRED \<longrightarrow>
        case_player_selection dt g = Inr (player_selection_scan dt g)
        \<and> state (player_selection_scan dt g) = state g)"
    by (simp add: case_player_selection_def case_main_menu_def case_difficulty_selection_def
          Let_def scan_states)
  have c9: "(menu_select_timer (main_menu_scan dt g) < MENU_SELECT_TIME_REQUIRED \<longrightarrow>
        case_main_menu inp dt g = Inr (main_menu_scan dt g)
        \<and> state (main_menu_scan dt g) = state g)"
    by (simp add: case_player_selection_def case_main_menu_def case_difficulty_selection_def
          Let_def scan_states)
  have c10: "(menu_select_timer (difficulty_selection_scan dt g) < MENU_SELECT_TIME_REQUIRED \<longrightarrow>
        case_difficulty_selection rnd inp dt g = Inr (difficulty_selection_scan dt g)
        \<and> state (difficulty_selection_scan dt g) = state g)"
    by (simp add: case_player_selection_def case_main_menu_def case_difficulty_selection_def
          Let_def scan_states)
  have c11: "(menu_select_timer (player_selection_scan dt g) \<ge> MENU_SELECT_TIME_REQUIRED
        \<and> zone_choice g \<noteq> 0 \<longrightarrow>
        (\<exists>g'. case_player_selection dt g = Inr g' \<and> state g' = MAIN_MENU
              \<and> menu_select_timer g' = 0 \<and> selected_player_index g' = zone_choice g - 1))"
  proof (intro impI, elim conjE)
    assume t: "menu_select_timer (player_selection_scan dt g) \<ge> MENU_SELECT_TIME_REQUIRED"
      and z: "zone_choice g \<noteq> 0"
    have c: "player_selection_choice (player_selection_scan dt g) = zone_choice g"
      by (simp add: player_selection_scan_eq)
    have "player_selection_choice (player_selection_scan dt g) = 1
          \<or> player_selection_choice (player_selection_scan dt g) = 2
          \<or> player_selection_choice (player_selection_scan dt g) = 3"
      unfolding c using zone_choice_range[of g] z by simp
    from player_selection_commit_ok[OF this]
    show "\<exists>g'. case_player_selection dt g = Inr g' \<and> state g' = MAIN_MENU
              \<and> menu_select_timer g' = 0 \<and> selected_player_index g' = zone_choice g - 1"
      using t unfolding c by (simp add: case_player_selection_def Let_def)
  qed
  have c12: "(menu_select_timer (main_menu_scan dt g) \<ge> MENU_SELECT_TIME_REQUIRED
        \<and> case_main_menu inp dt g = Inr g1 \<longrightarrow>
        menu_select_timer g1 = 0 \<and> selected_game g1 = game_of_zone (zone_choice g)
        \<and> state g1 = (if zone_choice g = 2 then GAME_DODGE else DIFFICULTY_SELECTION))"
  proof (intro impI, elim conjE)
    assume t: "menu_select_timer (main_menu_scan dt g) \<ge> MENU_SELECT_TIME_REQUIRED"
      and r: "case_main_menu inp dt g = Inr g1"
    from t r have "main_menu_commit inp (main_menu_scan dt g) = Inr g1"
      by (simp add: case_main_menu_def Let_def)
    from main_menu_commit_fields[OF this]
    have "menu_select_timer g1 = 0" "selected_game g1 = game_of_zone (zone_choice g)"
      "state g1 = (if game_of_zone (zone_choice g) = DODGE then GAME_DODGE else DIFFICULTY_SELECTION)"
      by (simp_all add: main_menu_scan_eq)
    then show "menu_select_timer g1 = 0 \<and> selected_game g1 = game_of_zone (zone_choice g)
        \<and> state g1 = (if zone_choice g = 2 then GAME_DODGE else DIFFICULTY_SELECTION)"
      using dodge_zone by simp
  qed
  have c13: "(menu_select_timer (difficulty_selection_scan dt g) \<ge> MENU_SELECT_TIME_REQUIRED
        \<and> case_difficulty_selection rnd inp dt g = Inr g2 \<longrightarrow>
        menu_select_timer g2 = 0
        \<and> current_difficulty g2 = (if zone_choice g = 1 then EASY else if zone_choice g = 2 then MEDIUM
                                    else if zone_choice g = 3 then HARD else current_difficulty g)
        \<and> state g2 = (if selected_game g = BALANCE_HOLD then GAME_BALANCE_HOLD
                       else if selected_game g = COIN_COLLECTOR then GAME_COIN_COLLECTOR
                       else if selected_game g = DODGE then GAME_DODGE else state g))"
  proof (intro impI, elim conjE)
    assume t: "menu_select_timer (difficulty_selection_scan dt g) \<ge> MENU_SELECT_TIME_REQUIRED"
      and r: "case_difficulty_selection rnd inp dt g = Inr g2"
    from t r have "difficulty_selection_commit rnd inp (difficulty_selection_scan dt g) = Inr g2"
      by (simp add: case_difficulty_selection_def Let_def)
    from difficulty_selection_commit_fields[OF this]
    show "menu_select_timer g2 = 0
        \<and> current_difficulty g2 = (if zone_choice g = 1 then EASY else if zone_choice g = 2 then MEDIUM
                                    else if zone_choice g = 3 then HARD else current_difficulty g)
        \<and> state g2 = (if selected_game g = BALANCE_HOLD then GAME_BALANCE_HOLD
                       else if selected_game g = COIN_COLLECTOR then GAME_COIN_COLLECTOR
                       else if selected_game g = DODGE then GAME_DODGE else state g)"
      by (simp add: difficulty_selection_scan_eq)
  qed
  have c14: "(menu_select_timer (player_selection_scan dt g) \<ge> MENU_SELECT_TIME_REQUIRED
        \<and> zone_choice g = 0 \<longrightarrow>
        case_player_selection dt g = Inl Out_Of_Bounds)"
  proof (intro impI, elim conjE)
    assume t: "menu_select_timer (player_selection_scan dt g) \<ge> MENU_SELECT_TIME_REQUIRED"
      and z: "zone_choice g = 0"
    have c: "player_selection_choice (player_selection_scan dt g) = 0"
      by (simp add: player_selection_scan_eq z)
    show "case_player_selection dt g = Inl Out_Of_Bounds"
      using t by (simp add: case_player_selection_def Let_def player_selection_commit_def c
                    get_profile_filename_def)
  qed
  have c15: "(menu_select_timer (main_menu_scan dt g) \<ge> MENU_SELECT_TIME_REQUIRED
        \<and> (zone_choice g = 2 \<longrightarrow> 0 \<le> selected_player_index g \<and> selected_player_index g < 3) \<longrightarrow>
        (\<exists>g1. case_main_menu inp dt g = Inr g1
              \<and> menu_select_timer g1 = 0 \<and> selected_game g1 = game_of_zone (zone_choice g)
        \<and> state g1 = (if zone_choice g = 2 then GAME_DODGE else DIFFICULTY_SELECTION)))"
  proof (intro impI, elim conjE)
    assume t: "menu_select_timer (main_menu_scan dt g) \<ge> MENU_SELECT_TIME_REQUIRED"
      and v: "zone_choice g = 2 \<longrightarrow> 0 \<le> selected_player_index g \<and> selected_player_index g < 3"
    have "selected_game (main_menu_scan dt g) = DODGE \<longrightarrow>
            0 \<le> selected_player_index (main_menu_scan dt g)
            \<and> selected_player_index (main_menu_scan dt g) < 3"
      using v dodge_zone by (simp add: main_menu_scan_eq)
    from main_menu_commit_ok[OF this, of inp] obtain h1 where
      h1: "main_menu_commit inp (main_menu_scan dt g) = Inr h1" by blast
    with t have r: "case_main_menu inp dt g = Inr h1" by (simp add: case_main_menu_def Let_def)
    from main_menu_commit_fields[OF h1]
    have "menu_select_timer h1 = 0" "selected_game h1 = game_of_zone (zone_choice g)"
      "state h1 = (if game_of_zone (zone_choice g) = DODGE then GAME_DODGE else DIFFICULTY_SELECTION)"
      by (simp_all add: main_menu_scan_eq)
    then have "menu_select_timer h1 = 0 \<and> selected_game h1 = game_of_zone (zone_choice g)
        \<and> state h1 = (if zone_choice g = 2 then GAME_DODGE else DIFFICULTY_SELECTION)"
      using dodge_zone by simp
    with r show "\<exists>g1. case_main_menu inp dt g = Inr g1
              \<and> menu_select_timer g1 = 0 \<and> selected_game g1 = game_of_zone (zone_choice g)
        \<and> state g1 = (if zone_choice g = 2 then GAME_DODGE else DIFFICULTY_SELECTION)" by blast
  qed
  have c16: "(menu_select_timer (main_menu_scan dt g) \<ge> MENU_SELECT_TIME_REQUIRED
        \<and> zone_choice g = 2 \<and> \<not> (0 \<le> selected_player_index g \<and> selected_player_index g < 3) \<longrightarrow>
        case_main_menu inp dt g = Inl Out_Of_Bounds)"
  proof (intro impI, elim conjE)
    assume t: "menu_select_timer (main_menu_scan dt g) \<ge> MENU_SELECT_TIME_REQUIRED"
      and z: "zone_choice g = 2"
      and v: "\<not> (0 \<le> selected_player_index g \<and> selected_player_index g < 3)"
    have "selected_game (main_menu_scan dt g) = DODGE"
      using z dodge_zone by (simp add: main_menu_scan_eq)
    moreover have "\<not> (0 \<le> selected_player_index (main_menu_scan dt g)
                        \<and> selected_player_index (main_menu_scan dt g) < 3)"
      using v by (simp add: main_menu_scan_eq)
    ultimately have "main_menu_commit inp (main_menu_scan dt g) = Inl Out_Of_Bounds"
      by (rule main_menu_commit_fault)
    with t show "case_main_menu inp dt g = Inl Out_Of_Bounds"
      by (simp add: case_main_menu_def Let_def)
  qed
  have c17: "(menu_select_timer (difficulty_selection_scan dt g) \<ge> MENU_SELECT_TIME_REQUIRED
        \<and> (selected_game g = COIN_COLLECTOR \<longrightarrow>
             (\<exists>k. accepted rnd (real_of_int WINDOW_WIDTH / 2) (real_of_int WINDOW_HEIGHT / 2) (rand_pos g + 2 * k))) \<longrightarrow>
        (\<exists>g2. case_difficulty_selection rnd inp dt g = Inr g2
              \<and> menu_select_timer g2 = 0
        \<and> current_difficulty g2 = (if zone_choice g = 1 then EASY else if zone_choice g = 2 then MEDIUM
                                    else if zone_choice g = 3 then HARD else current_difficulty g)
        \<and> state g2 = (if selected_game g = BALANCE_HOLD then GAME_BALANCE_HOLD
                       else if selected_game g = COIN_COLLECTOR then GAME_COIN_COLLECTOR
                       else if selected_game g = DODGE then GAME_DODGE else state g)))"
  proof (intro impI, elim conjE)
    assume t: "menu_select_timer (difficulty_selection_scan dt g) \<ge> MENU_SELECT_TIME_REQUIRED"
      and a: "selected_game g = COIN_COLLECTOR \<longrightarrow>
             (\<exists>k. accepted rnd (real_of_int WINDOW_WIDTH / 2) (real_of_int WINDOW_HEIGHT / 2) (rand_pos g + 2 * k))"
    have "selected_game (difficulty_selection_scan dt g) = COIN_COLLECTOR \<longrightarrow>
             (\<exists>k. accepted rnd (real_of_int WINDOW_WIDTH / 2) (real_of_int WINDOW_HEIGHT / 2)
                     (rand_pos (difficulty_selection_scan dt g) + 2 * k))"
      using a by (simp add: difficulty_selection_scan_eq)
    from difficulty_selection_commit_ok[OF this, of inp] obtain h2 where
      h2: "difficulty_selection_commit rnd inp (difficulty_selection_scan dt g) = Inr h2" by blast
    with t have r: "case_difficulty_selection rnd inp dt g = Inr h2"
      by (simp add: case_difficulty_selection_def Let_def)
    from difficulty_selection_commit_fields[OF h2]
    have "menu_select_timer h2 = 0
        \<and> current_difficulty h2 = (if zone_choice g = 1 then EASY else if zone_choice g = 2 then MEDIUM
                                    else if zone_choice g = 3 then HARD else current_difficulty g)
        \<and> state h2 = (if selected_game g = BALANCE_HOLD then GAME_BALANCE_HOLD
                       else if selected_game g = COIN_COLLECTOR then GAME_COIN_COLLECTOR
                       else if selected_game g = DODGE then GAME_DODGE else state g)"
      by (simp add: difficulty_selection_scan_eq)
    with r show "\<exists>g2. case_difficulty_selection rnd inp dt g = Inr g2
              \<and> menu_select_timer g2 = 0
        \<and> current_difficulty g2 = (if zone_choice g = 1 then EASY else if zone_choice g = 2 then MEDIUM
                                    else if zone_choice g = 3 then HARD else current_difficulty g)
        \<and> state g2 = (if selected_game g = BALANCE_HOLD then GAME_BALANCE_HOLD
                       else if selected_game g = COIN_COLLECTOR then GAME_COIN_COLLECTOR
                       else if selected_game g = DODGE then GAME_DODGE else state g)" by blast
  qed
  have c18: "(menu_select_timer (difficulty_selection_scan dt g) \<ge> MENU_SELECT_TIME_REQUIRED
        \<and> selected_game g = COIN_COLLECTOR
        \<and> (\<forall>k. \<not> accepted rnd (real_of_int WINDOW_WIDTH / 2) (real_of_int WINDOW_HEIGHT / 2) (rand_pos g + 2 * k)) \<longrightarrow>
        case_difficulty_selection rnd inp dt g = Inl Never_Returns)"
  proof (intro impI, elim conjE)
    assume t: "menu_select_timer (difficulty_selection_scan dt g) \<ge> MENU_SELECT_TIME_REQUIRED"
      and s: "selected_game g = COIN_COLLECTOR"
      and a: "\<forall>k. \<not> accepted rnd (real_of_int WINDOW_WIDTH / 2) (real_of_int WINDOW_HEIGHT / 2) (rand_pos g + 2 * k)"
    have "selected_game (difficulty_selection_scan dt g) = COIN_COLLECTOR"
      using s by (simp add: difficulty_selection_scan_eq)
    moreover have "\<forall>k. \<not> accepted rnd (real_of_int WINDOW_WIDTH / 2) (real_of_int WINDOW_HEIGHT / 2)
                     (rand_pos (difficulty_selection_scan dt g) + 2 * k)"
      using a by (simp add: difficulty_selection_scan_eq)
    ultimately have "difficulty_selection_commit rnd inp (difficulty_selection_scan dt g) = Inl Never_Returns"
      by (rule difficulty_selection_commit_never)
    with t show "case_difficulty_selection rnd inp dt g = Inl Never_Returns"
      by (simp add: case_difficulty_selection_def Let_def)
  qed
  show ?thesis
    by (intro conjI) (rule c1, rule c2, rule c3, rule c4, rule c5, rule c6, rule c7, rule c8, rule c9, rule c10, rule c11, rule c12, rule c13, rule c14, rule c15, rule c16, rule c17, rule c18)
qed

lemma leaning_left_state_simps:
  "current_total_weight leaning_left_state = 5000" "x_cob leaning_left_state = - 500"
  "player_selection_choice leaning_left_state = 1" "menu_select_timer leaning_left_state = 149 / 100"
  "selected_game leaning_left_state = NO_GAME_SELECTED" "state leaning_left_state = PLAYER_SELECTION"
  by (simp_all add: leaning_left_state_def connected_start_def program_start_def init_player_def Let_def)

lemma menu_left_state_simps:
  "current_total_weight menu_left_state = 5000" "x_cob menu_left_state = - 500"
  "menu_select_timer menu_left_state = 149 / 100" "selected_game menu_left_state = BALANCE_HOLD"
  "state menu_left_state = MAIN_MENU" "selected_player_index menu_left_state = 0"
  by (simp_all add: menu_left_state_def connected_start_def program_start_def init_player_def Let_def)

lemma menu_centre_state_simps:
  "current_total_weight menu_centre_state = 5000" "x_cob menu_centre_state = 0"
  "menu_select_timer menu_centre_state = 149 / 100" "selected_game menu_centre_state = DODGE"
  "state menu_centre_state = MAIN_MENU" "selected_player_index menu_centre_state = 0"
  by (simp_all add: menu_centre_state_def connected_start_def program_start_def init_player_def Let_def)

lemma difficulty_right_state_simps:
  "current_total_weight difficulty_right_state = 5000" "x_cob difficulty_right_state = 500"
  "menu_select_timer difficulty_right_state = 149 / 100"
  "selected_game difficulty_right_state = COIN_COLLECTOR"
  "difficulty_selection difficulty_right_state = 3"
  "state difficulty_right_state = DIFFICULTY_SELECTION" "rand_pos difficulty_right_state = 0"
  by (simp_all add: difficulty_right_state_def connected_start_def program_start_def init_player_def Let_def)

text \<open>
  Four holds of 1.49 seconds and one more frame of 16 milliseconds. Leaning left on the
  player screen commits \<open>Player 1\<close>; on the main menu the same frame would start a new
  hold, since the choice differs from the previous one there. Leaning left on the main
  menu commits Balance-Hold and opens the difficulty screen; standing centred commits
  Dodge and starts it. Leaning right on the difficulty screen, with Coin-Collector
  chosen, commits the hard difficulty and starts the game.
\<close>

theorem selection_hold_timer_witness:
  "zone_choice leaning_left_state = 1
   \<and> menu_select_timer (player_selection_scan (16 / 1000) leaning_left_state) = 1506 / 1000
   \<and> menu_select_timer (main_menu_scan (16 / 1000) leaning_left_state) = 16 / 1000
   \<and> (\<exists>g'. case_player_selection (16 / 1000) leaning_left_state = Inr g' \<and> state g' = MAIN_MENU
          \<and> menu_select_timer g' = 0 \<and> selected_player_index g' = 0)
   \<and> (\<exists>g1. case_main_menu (board_input 20016) (16 / 1000) menu_left_state = Inr g1
          \<and> state g1 = DIFFICULTY_SELECTION \<and> menu_select_timer g1 = 0
          \<and> selected_game g1 = BALANCE_HOLD)
   \<and> (\<exists>g1. case_main_menu (board_input 20016) (16 / 1000) menu_centre_state = Inr g1
          \<and> state g1 = GAME_DODGE \<and> menu_select_timer g1 = 0 \<and> selected_game g1 = DODGE)
   \<and> (\<exists>g2. case_difficulty_selection zero_rand (board_input 20016) (16 / 1000)
                 difficulty_right_state = Inr g2
          \<and> state g2 = GAME_COIN_COLLECTOR \<and> menu_select_timer g2 = 0
          \<and> current_difficulty g2 = HARD)"
proof -
  have z: "zone_choice leaning_left_state = 1"
    by (simp add: zone_choice_def leaning_left_state_simps)
  note t = selection_hold_timer[where g = leaning_left_state and dt = "16 / 1000"]
  have a: "menu_select_timer (player_selection_scan (16 / 1000) leaning_left_state) = 1506 / 1000"
    using t[THEN conjunct2, THEN conjunct2, THEN conjunct2, THEN conjunct2, THEN conjunct1]
    by (simp add: z leaning_left_state_simps)
  have b: "menu_select_timer (main_menu_scan (16 / 1000) leaning_left_state) = 16 / 1000"
    using t[THEN conjunct2, THEN conjunct2, THEN conjunct2, THEN conjunct2, THEN conjunct2, THEN conjunct1]
    by (simp add: z leaning_left_state_simps game_of_zone_def)
  have c: "\<exists>g'. case_player_selection (16 / 1000) leaning_left_state = Inr g' \<and> state g' = MAIN_MENU
          \<and> menu_select_timer g' = 0 \<and> selected_player_index g' = 0"
    using t[THEN conjunct2, THEN conjunct2, THEN conjunct2, THEN conjunct2, THEN conjunct2, THEN conjunct2, THEN conjunct2, THEN conjunct2, THEN conjunct2, THEN conjunct2, THEN conjunct1]
    unfolding a z by simp
  have zl: "zone_choice menu_left_state = 1"
    by (simp add: zone_choice_def menu_left_state_simps)
  note tl = selection_hold_timer[where g = menu_left_state and dt = "16 / 1000"
              and inp = "board_input 20016"]
  have al: "menu_select_timer (main_menu_scan (16 / 1000) menu_left_state) = 1506 / 1000"
    using tl[THEN conjunct2, THEN conjunct2, THEN conjunct2, THEN conjunct2, THEN conjunct2, THEN conjunct1]
    by (simp add: zl menu_left_state_simps game_of_zone_def)
  have d: "\<exists>g1. case_main_menu (board_input 20016) (16 / 1000) menu_left_state = Inr g1
          \<and> state g1 = DIFFICULTY_SELECTION \<and> menu_select_timer g1 = 0
          \<and> selected_game g1 = BALANCE_HOLD"
    using tl[THEN conjunct2, THEN conjunct2, THEN conjunct2, THEN conjunct2, THEN conjunct2, THEN conjunct2, THEN conjunct2, THEN conjunct2, THEN conjunct2, THEN conjunct2, THEN conjunct2, THEN conjunct2, THEN conjunct2, THEN conjunct2, THEN conjunct1]
    unfolding al zl by (auto simp: game_of_zone_def)
  have zc: "zone_choice menu_centre_state = 2"
    by (simp add: zone_choice_def menu_centre_state_simps)
  note tc = selection_hold_timer[where g = menu_centre_state and dt = "16 / 1000"
              and inp = "board_input 20016"]
  have ac: "menu_select_timer (main_menu_scan (16 / 1000) menu_centre_state) = 1506 / 1000"
    using tc[THEN conjunct2, THEN conjunct2, THEN conjunct2, THEN conjunct2, THEN conjunct2, THEN conjunct1]
    by (simp add: zc menu_centre_state_simps game_of_zone_def)
  have e: "\<exists>g1. case_main_menu (board_input 20016) (16 / 1000) menu_centre_state = Inr g1
          \<and> state g1 = GAME_DODGE \<and> menu_select_timer g1 = 0 \<and> selected_game g1 = DODGE"
    using tc[THEN conjunct2, THEN conjunct2, THEN conjunct2, THEN conjunct2, THEN conjunct2, THEN conjunct2, THEN conjunct2, THEN conjunct2, THEN conjunct2, THEN conjunct2, THEN conjunct2, THEN conjunct2, THEN conjunct2, THEN conjunct2, THEN conjunct1]
    unfolding ac zc by (auto simp: game_of_zone_def menu_centre_state_simps)
  have zr: "zone_choice difficulty_right_state = 3"
    by (simp add: zone_choice_def difficulty_right_state_simps)
  note tr = selection_hold_timer[where g = difficulty_right_state and dt = "16 / 1000"
              and inp = "board_input 20016" and rnd = zero_rand]
  have ar: "menu_select_timer (difficulty_selection_scan (16 / 1000) difficulty_right_state) = 1506 / 1000"
    using tr[THEN conjunct2, THEN conjunct2, THEN conjunct2, THEN conjunct2, THEN conjunct2, THEN conjunct2, THEN conjunct1]
    by (simp add: zr difficulty_right_state_simps)
  have acc: "\<exists>k. accepted zero_rand (real_of_int WINDOW_WIDTH / 2) (real_of_int WINDOW_HEIGHT / 2)
                 (rand_pos difficulty_right_state + 2 * k)"
    using zero_rand_accepted[of 0] by (intro exI[of _ 0]) (simp add: difficulty_right_state_simps)
  have f: "\<exists>g2. case_difficulty_selection zero_rand (board_input 20016) (16 / 1000)
                 difficulty_right_state = Inr g2
          \<and> state g2 = GAME_COIN_COLLECTOR \<and> menu_select_timer g2 = 0
          \<and> current_difficulty g2 = HARD"
    using tr[THEN conjunct2, THEN conjunct2, THEN conjunct2, THEN conjunct2, THEN conjunct2, THEN conjunct2, THEN conjunct2, THEN conjunct2, THEN conjunct2, THEN conjunct2, THEN conjunct2, THEN conjunct2, THEN conjunct2, THEN conjunct2, THEN conjunct2, THEN conjunct2, THEN conjunct1] acc
    unfolding ar zr by (auto simp: difficulty_right_state_simps)
  from z a b c d e f show ?thesis by (intro conjI)
qed

subsection \<open>Balance-Hold and Coin-Collector: entering the winning state\<close>

lemma balance_hold_update_cases:
  "\<exists>tg ht bp.
      balance_hold_update rnd inp dt g =
        g\<lparr>balance_hold_target := tg, hold_timer := ht, beeps_played := bp\<rparr>
    \<or> balance_hold_update rnd inp dt g =
        g\<lparr>balance_hold_target := tg, hold_timer := ht, beeps_played := bp,
          coins := coins g + 1, state := WINNING\<rparr>
    \<or> balance_hold_update rnd inp dt g =
        init_balance_hold_game rnd (logic_time inp)
          (g\<lparr>balance_hold_target := tg, hold_timer := ht, beeps_played := bp, coins := coins g + 1\<rparr>)"
proof (cases "is_in_zone (player g) (move_target dt (balance_hold_target g)) BH_HOLD_RADIUS")
  case True
  show ?thesis
    apply (rule exI[of _ "move_target dt (balance_hold_target g)"])
    apply (rule exI[of _ "hold_timer g + dt"])
    apply (rule exI[of _ "beeps_played g"])
    using True by (simp add: balance_hold_update_def Let_def)
next
  case False
  show ?thesis
    apply (rule exI[of _ "move_target dt (balance_hold_target g)"])
    apply (rule exI[of _ 0])
    apply (rule exI[of _ 0])
    using False by (simp add: balance_hold_update_def Let_def)
qed

lemma balance_hold_update_shape:
  "\<exists>tg ht bp c st p t th r gst. balance_hold_update rnd inp dt g =
      g\<lparr>balance_hold_target := tg, hold_timer := ht, beeps_played := bp, coins := c, state := st,
        player := p, trail_points := t, trail_head := th, rand_pos := r, game_start_time := gst\<rparr>"
proof -
  have gen: "\<exists>tg ht bp c st p t th r gst. h =
      g\<lparr>balance_hold_target := tg, hold_timer := ht, beeps_played := bp, coins := c, state := st,
        player := p, trail_points := t, trail_head := th, rand_pos := r, game_start_time := gst\<rparr>"
    if "h = g\<lparr>balance_hold_target := balance_hold_target h, hold_timer := hold_timer h,
          beeps_played := beeps_played h, coins := coins h, state := state h,
          player := player h, trail_points := trail_points h, trail_head := trail_head h,
          rand_pos := rand_pos h, game_start_time := game_start_time h\<rparr>" for h
    using that by blast
  from balance_hold_update_cases[of rnd inp dt g] obtain tg ht bp where
    c: "balance_hold_update rnd inp dt g =
        g\<lparr>balance_hold_target := tg, hold_timer := ht, beeps_played := bp\<rparr>
    \<or> balance_hold_update rnd inp dt g =
        g\<lparr>balance_hold_target := tg, hold_timer := ht, beeps_played := bp,
          coins := coins g + 1, state := WINNING\<rparr>
    \<or> balance_hold_update rnd inp dt g =
        init_balance_hold_game rnd (logic_time inp)
          (g\<lparr>balance_hold_target := tg, hold_timer := ht, beeps_played := bp, coins := coins g + 1\<rparr>)"
    by blast
  let ?k = "g\<lparr>balance_hold_target := tg, hold_timer := ht, beeps_played := bp, coins := coins g + 1\<rparr>"
  obtain p t tg' r where i: "init_balance_hold_game rnd (logic_time inp) ?k =
      ?k\<lparr>player := p, trail_points := t, trail_head := 0, balance_hold_target := tg',
        rand_pos := r, game_start_time := logic_time inp, hold_timer := 0, beeps_played := 0\<rparr>"
    using init_balance_hold_game_shape by blast
  from c show ?thesis
  proof (elim disjE)
    assume a: "balance_hold_update rnd inp dt g =
        g\<lparr>balance_hold_target := tg, hold_timer := ht, beeps_played := bp\<rparr>"
    show ?thesis unfolding a by (rule gen) simp
  next
    assume a: "balance_hold_update rnd inp dt g =
        g\<lparr>balance_hold_target := tg, hold_timer := ht, beeps_played := bp,
          coins := coins g + 1, state := WINNING\<rparr>"
    show ?thesis unfolding a by (rule gen) simp
  next
    assume a: "balance_hold_update rnd inp dt g =
        init_balance_hold_game rnd (logic_time inp) ?k"
    show ?thesis unfolding a i by (rule gen) simp
  qed
qed


lemma coin_slot_step_shape:
  assumes "coin_slot_step rnd i g = Inr g'"
  shows "\<exists>cs c r ct st. g' = g\<lparr>coin_collector_coins := cs, coins := c, rand_pos := r,
                                  coin_timer := ct, state := st\<rparr>"
proof -
  have gen: "\<exists>cs c r ct st. h = g\<lparr>coin_collector_coins := cs, coins := c, rand_pos := r,
                                  coin_timer := ct, state := st\<rparr>"
    if "h = g\<lparr>coin_collector_coins := coin_collector_coins h, coins := coins h,
              rand_pos := rand_pos h, coin_timer := coin_timer h, state := state h\<rparr>" for h
    using that by blast
  let ?z = "is_in_zone (player g)
             \<lparr>t_x = c_x (coin_collector_coins g ! i), t_y = c_y (coin_collector_coins g ! i),
              t_velocity_x = 0, t_velocity_y = 0\<rparr>
             \<lfloor>real_of_int STARTING_COIN_SIZE * (12 / 10)\<rfloor>"
  have in_range: "\<not> i \<ge> length (coin_collector_coins g)"
    using assms by (auto simp: coin_slot_step_def)
  show ?thesis
  proof (cases "c_active (coin_collector_coins g ! i) \<noteq> 0")
    case False
    with assms in_range have "g' = g" by (simp add: coin_slot_step_def)
    then show ?thesis by (intro gen) simp
  next
    case active: True
    show ?thesis
    proof (cases ?z)
      case False
      with assms in_range active have "g' = g" by (simp add: coin_slot_step_def)
      then show ?thesis by (intro gen) simp
    next
      case zone: True
    show ?thesis
    proof (cases "coins g + 1 < current_game_target g")
      case False
      with assms in_range active zone show ?thesis
        by (intro gen) (auto simp: coin_slot_step_def Let_def)
    next
      case more: True
      show ?thesis
      proof (cases "spawn_coin rnd (p_x (player g)) (p_y (player g)) (rand_pos g)")
        case None
        with assms in_range active zone more show ?thesis
          by (simp add: coin_slot_step_def Let_def)
      next
        case (Some res)
        obtain cx cy r where res: "res = (cx, cy, r)" by (cases res)
        note sp = Some[unfolded res]
        from assms in_range active zone more sp show ?thesis
          by (intro gen) (auto simp: coin_slot_step_def Let_def split: if_splits)
      qed
    qed
    qed
  qed
qed

lemma coin_slots_loop_shape:
  assumes "coin_slots_loop rnd is g = Inr g'"
  shows "\<exists>cs c r ct st. g' = g\<lparr>coin_collector_coins := cs, coins := c, rand_pos := r,
                                  coin_timer := ct, state := st\<rparr>"
  using assms
proof (induction "is" arbitrary: g)
  case Nil
  then have "g' = g\<lparr>coin_collector_coins := coin_collector_coins g, coins := coins g,
               rand_pos := rand_pos g, coin_timer := coin_timer g, state := state g\<rparr>" by simp
  then show ?case by blast
next
  case (Cons i rest)
  from Cons.prems obtain g1 where st: "coin_slot_step rnd i g = Inr g1"
    and l: "coin_slots_loop rnd rest g1 = Inr g'"
    by (cases "coin_slot_step rnd i g") simp_all
  from coin_slot_step_shape[OF st] obtain cs c r ct st' where
    g1: "g1 = g\<lparr>coin_collector_coins := cs, coins := c, rand_pos := r, coin_timer := ct, state := st'\<rparr>"
    by blast
  from Cons.IH[OF l] obtain cs2 c2 r2 ct2 st2 where
    "g' = g1\<lparr>coin_collector_coins := cs2, coins := c2, rand_pos := r2, coin_timer := ct2, state := st2\<rparr>"
    by blast
  then have "g' = g\<lparr>coin_collector_coins := cs2, coins := c2, rand_pos := r2, coin_timer := ct2, state := st2\<rparr>"
    unfolding g1 by simp
  then show ?case by blast
qed

lemma filename_valid_index:
  assumes "get_profile_filename base i = Some f"
  shows "0 \<le> i \<and> i < 3"
  using assms by (simp add: get_profile_filename_def available_players_def split: if_splits)

lemma init_confetti_fields:
  "length (confetti (init_confetti rnd px py g)) = NUM_CONFETTI"
  "\<forall>c\<in>set (confetti (init_confetti rnd px py g)).
      cf_x c = px \<and> cf_y c = py \<and> cf_lifetime c = CONFETTI_LIFETIME"
  by (auto simp: init_confetti_def)

lemma init_confetti_shape:
  "\<exists>cf r. init_confetti rnd px py g = g\<lparr>confetti := cf, rand_pos := r\<rparr>"
  unfolding init_confetti_def by blast

lemma winning_entry_effects:
  assumes "winning_entry rnd inp h = Inr g'"
  shows "\<exists>fs fw cf r.
      get_profile_filename ''score.txt'' (selected_player_index h) = Some fs
    \<and> get_profile_filename ''wins.txt'' (selected_player_index h) = Some fw
    \<and> length cf = NUM_CONFETTI
    \<and> (\<forall>c\<in>set cf. cf_x c = p_x (player h) \<and> cf_y c = p_y (player h)
                      \<and> cf_lifetime c = CONFETTI_LIFETIME)
    \<and> g' = h\<lparr>win_message_start_time := logic_time inp,
              lowest_time_to_win :=
                (if lowest_time_to_win h = - 1
                    \<or> real (unat (logic_time inp - game_start_time h)) / 1000 < lowest_time_to_win h
                 then real (unat (logic_time inp - game_start_time h)) / 1000
                 else lowest_time_to_win h),
              score_files :=
                (if (lowest_time_to_win h = - 1
                     \<or> real (unat (logic_time inp - game_start_time h)) / 1000 < lowest_time_to_win h)
                    \<and> fs \<notin> unwritable h
                 then (score_files h)
                        (fs \<mapsto> printf_2f (real (unat (logic_time inp - game_start_time h)) / 1000))
                 else score_files h),
              total_wins := total_wins h + 1,
              wins_files :=
                (if fw \<notin> unwritable h then (wins_files h)(fw \<mapsto> total_wins h + 1)
                 else wins_files h),
              confetti := cf, rand_pos := r\<rparr>"
proof -
  let ?wt = "real (unat (logic_time inp - game_start_time h)) / 1000"
  let ?imp = "lowest_time_to_win h = - 1 \<or> ?wt < lowest_time_to_win h"
  from assms obtain fw where fw: "get_profile_filename ''wins.txt'' (selected_player_index h) = Some fw"
    by (auto simp: winning_entry_def Let_def write_lowest_time_def split: if_splits option.splits sum.splits)
  from filename_valid_index[OF fw] valid_index_filename obtain fs where
    fs: "get_profile_filename ''score.txt'' (selected_player_index h) = Some fs" by blast
  let ?k = "h\<lparr>win_message_start_time := logic_time inp,
              lowest_time_to_win := (if ?imp then ?wt else lowest_time_to_win h),
              score_files := (if ?imp \<and> fs \<notin> unwritable h
                              then (score_files h)(fs \<mapsto> printf_2f ?wt) else score_files h),
              total_wins := total_wins h + 1,
              wins_files := (if fw \<notin> unwritable h then (wins_files h)(fw \<mapsto> total_wins h + 1)
                             else wins_files h)\<rparr>"
  have g': "g' = init_confetti rnd (p_x (player h)) (p_y (player h)) ?k"
    using assms fw fs
    by (cases ?imp; cases "fs \<in> unwritable h"; cases "fw \<in> unwritable h")
       (simp_all add: winning_entry_def Let_def write_lowest_time_def write_total_wins_def)
  obtain cf r where ic: "init_confetti rnd (p_x (player h)) (p_y (player h)) ?k = ?k\<lparr>confetti := cf, rand_pos := r\<rparr>"
    using init_confetti_shape by blast
  have cf: "cf = confetti (init_confetti rnd (p_x (player h)) (p_y (player h)) ?k)"
    unfolding ic by simp
  have "length cf = NUM_CONFETTI"
    "\<forall>c\<in>set cf. cf_x c = p_x (player h) \<and> cf_y c = p_y (player h) \<and> cf_lifetime c = CONFETTI_LIFETIME"
    unfolding cf using init_confetti_fields[of rnd "p_x (player h)" "p_y (player h)" ?k]
    by (simp_all del: NUM_CONFETTI_def CONFETTI_LIFETIME_def)
  then show ?thesis using fs fw g'[unfolded ic] by blast
qed




lemma frame_cases:
  assumes "frame rnd inp g = Inr g'" and "state g \<noteq> CONNECTING"
  shows "g' = (reset_game_state (sensed inp g))\<lparr>state := CONNECTING, connection_start_time := logic_time inp\<rparr>
       \<or> g' = case_connecting inp
                ((reset_game_state (sensed inp g))\<lparr>state := CONNECTING, connection_start_time := logic_time inp\<rparr>)
       \<or> state_switch rnd inp (frame_delta inp g) ((sensed inp g)\<lparr>last_input_time := current_time inp\<rparr>) = Inr g'
       \<or> state_switch rnd inp (frame_delta inp g) (sensed inp g) = Inr g'"
proof (cases "fst (read_wii_balance_board_data (poll_ret inp) (g\<lparr>last_frame_time := current_time inp\<rparr>)) \<noteq> 0")
  case True
  with assms show ?thesis by (simp add: frame_unfold)
next
  case False
  with assms have fr: "state_switch rnd inp (frame_delta inp g) (inactivity_check inp (sensed inp g)) = Inr g'"
    by (simp add: frame_unfold)
  from inactivity_check_cases[of inp "sensed inp g"] show ?thesis
  proof (elim disjE)
    assume "inactivity_check inp (sensed inp g) = (sensed inp g)\<lparr>last_input_time := current_time inp\<rparr>"
    with fr show ?thesis by simp
  next
    assume "inactivity_check inp (sensed inp g) = sensed inp g"
    with fr show ?thesis by simp
  next
    assume a: "inactivity_check inp (sensed inp g) =
      (reset_game_state (sensed inp g))\<lparr>state := CONNECTING, connection_start_time := logic_time inp\<rparr>"
    from fr[unfolded a] show ?thesis by (simp add: state_switch_def)
  qed
qed

lemma case_dodge_loop:
  assumes "case_dodge rnd dt g = Inr g'"
  shows "\<exists>g0 g1. (g0 = g \<or> (\<exists>tx ty. g0 = update_player_position tx ty dt g))
           \<and> (\<not> (current_total_weight g > MIN_TOTAL_WEIGHT
                    \<and> (\<bar>x_cob g\<bar> > DEAD_ZONE \<or> \<bar>y_cob g\<bar> > DEAD_ZONE)) \<longrightarrow> g0 = g)
           \<and> dodge_blocks_loop dt [0..<MAX_DODGE_BLOCKS] g0 = Inr g1
           \<and> (\<exists>bs r bt sp iv. g' = g1\<lparr>dodge_blocks := bs, rand_pos := r, block_spawn_timer := bt,
                                       current_block_speed := sp, dynamic_block_spawn_interval := iv\<rparr>)"
proof -
  define g0 where "g0 = (if current_total_weight g > MIN_TOTAL_WEIGHT
                 \<and> (\<bar>x_cob g\<bar> > DEAD_ZONE \<or> \<bar>y_cob g\<bar> > DEAD_ZONE)
             then update_player_position
                    (real_of_int WINDOW_WIDTH / 2 + x_cob g * COB_SCALE_DODGE * real_of_int WINDOW_WIDTH)
                    (real_of_int WINDOW_HEIGHT / 2 + y_cob g * - COB_SCALE_DODGE * real_of_int WINDOW_HEIGHT)
                    dt g
             else g)"
  note cd = assms[unfolded case_dodge_def Let_def, folded g0_def]
  have a: "g0 = g \<or> (\<exists>tx ty. g0 = update_player_position tx ty dt g)"
    unfolding g0_def by (simp only: split: if_split) blast
  have b: "\<not> (current_total_weight g > MIN_TOTAL_WEIGHT
                    \<and> (\<bar>x_cob g\<bar> > DEAD_ZONE \<or> \<bar>y_cob g\<bar> > DEAD_ZONE)) \<longrightarrow> g0 = g"
    unfolding g0_def by (simp only: if_False split: if_split) simp
  show ?thesis
  proof (cases "dodge_blocks_loop dt [0..<MAX_DODGE_BLOCKS] g0")
    case (Inl e)
    with cd show ?thesis by (simp only: sum.case) simp
  next
    case (Inr g1)
    define g2 where "g2 = g1\<lparr>block_spawn_timer := block_spawn_timer g1 + dt\<rparr>"
    obtain bs r where sp: "spawn_dodge_block rnd g2 = g2\<lparr>dodge_blocks := bs, rand_pos := r\<rparr>"
      using spawn_dodge_block_shape by blast
    from cd[unfolded Inr sum.case, folded g2_def]
    have "g' = g1\<lparr>dodge_blocks := dodge_blocks g', rand_pos := rand_pos g',
                 block_spawn_timer := block_spawn_timer g',
                 current_block_speed := current_block_speed g',
                 dynamic_block_spawn_interval := dynamic_block_spawn_interval g'\<rparr>"
      unfolding sp by (auto simp: g2_def split: if_splits)
    then have "\<exists>bs r bt sp iv. g' = g1\<lparr>dodge_blocks := bs, rand_pos := r, block_spawn_timer := bt,
                                       current_block_speed := sp, dynamic_block_spawn_interval := iv\<rparr>"
      by blast
    with a b Inr show ?thesis by blast
  qed
qed














lemma sensed_board:
  assumes "iface g" and "0 \<le> fd g"
  shows "sensed (board_input t) g =
           g\<lparr>last_frame_time := t, poll_timeout_count := 0, current_total_weight := 5000,
             x_cob := 0, y_cob := 0\<rparr>"
  using assms
  by (intro game.equality)
     (simp_all add: sensed_def read_ready board_input_def dispatch_events_balance dead_zone_def)


lemma frame_loaded:
  assumes "state g \<noteq> CONNECTING" and "iface g" and "0 \<le> fd g"
    and "poll_ret inp = POLL_READY es"
    and "MIN_TOTAL_WEIGHT \<le> current_total_weight (sensed inp g)"
  shows "frame rnd inp g =
           state_switch rnd inp (frame_delta inp g) ((sensed inp g)\<lparr>last_input_time := current_time inp\<rparr>)"
proof -
  have rc: "fst (read_wii_balance_board_data (poll_ret inp) (g\<lparr>last_frame_time := current_time inp\<rparr>)) = 0"
    unfolding assms(4) using assms(2,3) by (simp add: read_ready)
  show ?thesis using assms(1) rc
    by (simp add: frame_unfold inactivity_check_loaded[OF assms(5)])
qed

lemma board_frame:
  assumes "state g \<noteq> CONNECTING" and "iface g" and "0 \<le> fd g"
  shows "frame rnd (board_input t) g =
           state_switch rnd (board_input t) (frame_delta (board_input t) g)
             (g\<lparr>last_frame_time := t, poll_timeout_count := 0, current_total_weight := 5000,
                x_cob := 0, y_cob := 0, last_input_time := t\<rparr>)"
proof -
  have p: "poll_ret (board_input t) = POLL_READY [BALANCE_BOARD 1250 1250 1250 1250]"
    by (simp add: board_input_def)
  have w: "MIN_TOTAL_WEIGHT \<le> current_total_weight (sensed (board_input t) g)"
    unfolding sensed_board[OF assms(2,3)] by simp
  have "current_time (board_input t) = t" by (simp add: board_input_def)
  with frame_loaded[OF assms p w, of rnd] show ?thesis
    unfolding sensed_board[OF assms(2,3)] by simp
qed





lemma collision_state_simps:
  "state collision_state = GAME_DODGE" "iface collision_state" "fd collision_state = 3"
  "selected_player_index collision_state = 0"
  "player collision_state = \<lparr>p_x = 960, p_y = 540, p_velocity_x = 0, p_velocity_y = 0\<rparr>"
  "dodge_blocks collision_state =
     [\<lparr>b_x = 10393376 / 10000, b_y = 500, b_speed = 3984 / 10, b_active = 1\<rparr>,
      \<lparr>b_x = 17871776 / 10000, b_y = 120, b_speed = 4968 / 10, b_active = 1\<rparr>]
     @ replicate 8 \<lparr>b_x = 0, b_y = 0, b_speed = 0, b_active = 0\<rparr>"
  "last_frame_time collision_state = 24336"
  "total_wins collision_state = 0" "lowest_time_to_win collision_state = - 1"
  "win_message_start_time collision_state = 0"
  "score_files collision_state = Map.empty" "wins_files collision_state = Map.empty"
  by (simp_all add: collision_state_def connected_start_def program_start_def init_player_def
        zero_player_def Let_def)














subsection \<open>Dodge: the spawn interval between sessions\<close>

lemma kept_refl: "kept g g"
  by (simp add: kept_def)

lemma kept_trans: "kept a b \<Longrightarrow> kept b c \<Longrightarrow> kept a c"
  by (auto simp: kept_def)

lemma case_connecting_kept: "kept g (case_connecting inp g)"
  using case_connecting_shape[of inp g] by (auto simp: kept_def)

lemma case_transitioning_kept: "kept g (case_transitioning inp g)"
  by (simp add: kept_def case_transitioning_def Let_def)

lemma reset_kept: "kept g ((reset_game_state g)\<lparr>state := st, connection_start_time := t\<rparr>)"
  "kept g ((reset_game_state g)\<lparr>state := st\<rparr>)"
  by (simp_all add: kept_def reset_game_state_def)

lemma sensed_kept: "kept g (sensed inp g)"
  by (simp add: kept_def sensed_fields)

lemma case_player_selection_kept:
  assumes "case_player_selection dt g = Inr g'"
  shows "kept g g'"
  using assms
  by (auto simp: case_player_selection_def Let_def player_selection_scan_eq player_selection_commit_def
        kept_def split: if_splits option.splits)

lemma case_main_menu_kept:
  assumes "case_main_menu inp dt g = Inr g'"
  shows "kept g g'"
proof -
  let ?s = "main_menu_scan dt g"
  have s: "kept g ?s" by (simp add: main_menu_scan_eq kept_def)
  show ?thesis
  proof (cases "menu_select_timer ?s \<ge> MENU_SELECT_TIME_REQUIRED")
    case False
    with assms have "g' = ?s" by (simp add: case_main_menu_def Let_def)
    with s show ?thesis by simp
  next
    case True
    with assms have c: "main_menu_commit inp ?s = Inr g'" by (simp add: case_main_menu_def Let_def)
    show ?thesis
    proof (cases "selected_game ?s = DODGE")
      case False
      with c have "g' = ?s\<lparr>state := DIFFICULTY_SELECTION, menu_select_timer := 0\<rparr>"
        by (simp add: main_menu_commit_def)
      with s show ?thesis by (simp add: kept_def)
    next
      case True
      with c obtain h where g': "g' = (init_dodge_game (logic_time inp) h)\<lparr>menu_select_timer := 0\<rparr>"
        and h: "dynamic_block_spawn_interval h = dynamic_block_spawn_interval ?s"
        by (auto simp: main_menu_commit_def Let_def split: option.splits)
      obtain p t bs where "init_dodge_game (logic_time inp) h =
        h\<lparr>player := p, trail_points := t, trail_head := 0, dodge_blocks := bs,
          block_spawn_timer := 0, current_block_speed := BLOCK_INITIAL_SPEED, dodge_score := 0,
          game_start_time := logic_time inp\<rparr>"
        using init_dodge_game_shape by blast
      with g' h s show ?thesis by (simp add: kept_def)
    qed
  qed
qed

lemma case_difficulty_selection_kept:
  assumes "case_difficulty_selection rnd inp dt g = Inr g'"
  shows "kept g g'"
proof -
  let ?s = "difficulty_selection_scan dt g"
  have s: "kept g ?s" by (simp add: difficulty_selection_scan_eq kept_def)
  show ?thesis
  proof (cases "menu_select_timer ?s \<ge> MENU_SELECT_TIME_REQUIRED")
    case False
    with assms have "g' = ?s" by (simp add: case_difficulty_selection_def Let_def)
    with s show ?thesis by simp
  next
    case True
    with assms have c: "difficulty_selection_commit rnd inp ?s = Inr g'"
      by (simp add: case_difficulty_selection_def Let_def)
    from difficulty_selection_commit_fields[OF c] have "kept ?s g'" by (simp add: kept_def)
    with s show ?thesis by (rule kept_trans)
  qed
qed

lemma winning_entry_kept:
  assumes "winning_entry rnd inp h = Inr g'"
  shows "kept h g'"
  using winning_entry_effects[OF assms] by (auto simp: kept_def)

lemma case_hold_or_coins_kept:
  assumes "case_hold_or_coins rnd inp dt g = Inr g'"
  shows "kept g g'"
proof -
  define tx where "tx = real_of_int WINDOW_WIDTH / 2 + x_cob g * COB_SCALE_GENERAL * real_of_int WINDOW_WIDTH"
  define ty where "ty = real_of_int WINDOW_HEIGHT / 2 + y_cob g * - COB_SCALE_GENERAL * real_of_int WINDOW_HEIGHT"
  define u where "u = update_player_position tx ty dt g"
  have u: "kept g u" unfolding u_def by (simp add: update_player_position_shape kept_def)
  note c = assms[unfolded case_hold_or_coins_def Let_def, folded tx_def ty_def, folded u_def]
  show ?thesis
  proof (cases "state u = GAME_BALANCE_HOLD")
    case True
    define b where "b = balance_hold_update rnd inp dt u"
    from balance_hold_update_shape[of rnd inp dt u] have b: "kept u b"
      unfolding b_def by (auto simp: kept_def)
    from c True have c1: "(if state b = WINNING then winning_entry rnd inp b else Inr b) = Inr g'"
      unfolding b_def by simp
    have "kept b g'"
    proof (cases "state b = WINNING")
      case True
      with c1 show ?thesis by (simp add: winning_entry_kept)
    next
      case False
      with c1 show ?thesis by (simp add: kept_refl)
    qed
    with u b show ?thesis by (blast intro: kept_trans)
  next
    case False
    define v where "v = (if current_difficulty u = HARD then u\<lparr>coin_timer := coin_timer u - dt\<rparr> else u)"
    have v: "kept u v" unfolding v_def by (simp add: kept_def)
    from c False have c1: "(if current_difficulty v = HARD \<and> coin_timer v \<le> 0 then
                Inr ((reset_game_state v)\<lparr>state := MAIN_MENU\<rparr>)
              else
                (case coin_slots_loop rnd [0..<nat (current_game_target v)] v of
                   Inl e \<Rightarrow> Inl e
                 | Inr k \<Rightarrow> if state k = WINNING then winning_entry rnd inp k else Inr k)) = Inr g'"
      unfolding v_def by simp
    have "kept v g'"
    proof (cases "current_difficulty v = HARD \<and> coin_timer v \<le> 0")
      case True
      with c1 have "g' = (reset_game_state v)\<lparr>state := MAIN_MENU\<rparr>" by simp
      then show ?thesis by (simp add: reset_kept)
    next
      case False
      with c1 have c2: "(case coin_slots_loop rnd [0..<nat (current_game_target v)] v of
                   Inl e \<Rightarrow> Inl e
                 | Inr k \<Rightarrow> if state k = WINNING then winning_entry rnd inp k else Inr k) = Inr g'"
        by simp
      then obtain k where k: "coin_slots_loop rnd [0..<nat (current_game_target v)] v = Inr k"
        by (cases "coin_slots_loop rnd [0..<nat (current_game_target v)] v") simp_all
      from coin_slots_loop_shape[OF k] have vk: "kept v k" by (auto simp: kept_def)
      from c2 k have c3: "(if state k = WINNING then winning_entry rnd inp k else Inr k) = Inr g'" by simp
      have "kept k g'"
      proof (cases "state k = WINNING")
        case True
        with c3 show ?thesis by (simp add: winning_entry_kept)
      next
        case False
        with c3 show ?thesis by (simp add: kept_refl)
      qed
      with vk show ?thesis by (rule kept_trans)
    qed
    with u v show ?thesis by (blast intro: kept_trans)
  qed
qed

lemma case_winning_pace:
  "dynamic_block_spawn_interval (case_winning inp dt g) =
     (if cleanup_due inp g \<and> dodge_score g > 0 then BLOCK_SPAWN_INTERVAL
      else dynamic_block_spawn_interval g)"
  "dodge_score (case_winning inp dt g) =
     (if cleanup_due inp g \<and> dodge_score g > 0 then 0 else dodge_score g)"
  by (simp_all add: case_winning_def Let_def update_confetti_def cleanup_due_def reset_game_state_def
        init_player_def)

lemma state_switch_pace:
  assumes "state_switch rnd inp dt k = Inr g'" and "state k \<noteq> GAME_DODGE"
  shows "kept k g'
       \<or> (state k = WINNING \<and> cleanup_due inp k \<and> 0 < dodge_score k
           \<and> dynamic_block_spawn_interval g' = BLOCK_SPAWN_INTERVAL \<and> dodge_score g' = 0)"
proof (cases "state k")
  case CONNECTING
  with assms(1) show ?thesis by (auto simp: state_switch_def case_connecting_kept)
next
  case TRANSITIONING
  with assms(1) show ?thesis by (auto simp: state_switch_def case_transitioning_kept)
next
  case PLAYER_SELECTION
  with assms(1) show ?thesis by (simp add: state_switch_def case_player_selection_kept)
next
  case MAIN_MENU
  with assms(1) show ?thesis by (simp add: state_switch_def case_main_menu_kept)
next
  case DIFFICULTY_SELECTION
  with assms(1) show ?thesis by (simp add: state_switch_def case_difficulty_selection_kept)
next
  case GAME_BALANCE_HOLD
  with assms(1) show ?thesis by (simp add: state_switch_def case_hold_or_coins_kept)
next
  case GAME_COIN_COLLECTOR
  with assms(1) show ?thesis by (simp add: state_switch_def case_hold_or_coins_kept)
next
  case GAME_DODGE
  with assms(2) show ?thesis by simp
next
  case WINNING
  with assms(1) have g': "g' = case_winning inp dt k" by (simp add: state_switch_def)
  show ?thesis
  proof (cases "cleanup_due inp k \<and> 0 < dodge_score k")
    case True
    then show ?thesis unfolding g' using WINNING by (simp add: case_winning_pace)
  next
    case False
    then have c: "\<not> (cleanup_due inp k \<and> 0 < dodge_score k)" by simp
    have "kept k g'" unfolding g' kept_def case_winning_pace if_not_P[OF c] by simp
    then show ?thesis by simp
  qed
qed

lemma frame_pace:
  assumes "frame rnd inp g = Inr g'" and "state g \<noteq> GAME_DODGE"
  shows "kept g g'
       \<or> (state g = WINNING \<and> cleanup_due inp g \<and> 0 < dodge_score g
           \<and> dynamic_block_spawn_interval g' = BLOCK_SPAWN_INTERVAL \<and> dodge_score g' = 0)"
proof (cases "state g = CONNECTING")
  case True
  let ?k = "g\<lparr>last_frame_time := current_time inp, last_input_time := current_time inp\<rparr>"
  from assms(1) True have "state_switch rnd inp (frame_delta inp g) ?k = Inr g'"
    by (simp add: frame_unfold inactivity_check_def)
  from state_switch_pace[OF this] True have "kept ?k g'" by simp
  then show ?thesis by (simp add: kept_def)
next
  case False
  let ?r = "(reset_game_state (sensed inp g))\<lparr>state := CONNECTING, connection_start_time := logic_time inp\<rparr>"
  have r: "kept g ?r" by (simp add: kept_def reset_game_state_def sensed_fields)
  from frame_cases[OF assms(1) False] show ?thesis
  proof (elim disjE)
    assume "g' = ?r"
    with r show ?thesis by simp
  next
    assume "g' = case_connecting inp ?r"
    with r case_connecting_kept[of ?r inp] show ?thesis by (blast intro: kept_trans)
  next
    let ?k = "(sensed inp g)\<lparr>last_input_time := current_time inp\<rparr>"
    assume a: "state_switch rnd inp (frame_delta inp g) ?k = Inr g'"
    have "state ?k \<noteq> GAME_DODGE" using assms(2) by (simp add: sensed_fields)
    from state_switch_pace[OF a this] show ?thesis
      by (simp add: kept_def cleanup_due_def sensed_fields)
  next
    let ?k = "sensed inp g"
    assume a: "state_switch rnd inp (frame_delta inp g) ?k = Inr g'"
    have "state ?k \<noteq> GAME_DODGE" using assms(2) by (simp add: sensed_fields)
    from state_switch_pace[OF a this] show ?thesis
      by (simp add: kept_def cleanup_due_def sensed_fields)
  qed
qed

lemma frames_carry:
  assumes "dodge_score g = 0" and "outside_dodge rnd inps g" and "frames rnd inps g = Inr g'"
  shows "dynamic_block_spawn_interval g' = dynamic_block_spawn_interval g \<and> dodge_score g' = 0"
  using assms
proof (induction inps arbitrary: g)
  case Nil
  then show ?case by simp
next
  case (Cons inp rest)
  from Cons.prems(3) obtain g1 where f: "frame rnd inp g = Inr g1"
    and r: "frames rnd rest g1 = Inr g'"
    by (cases "frame rnd inp g") simp_all
  from Cons.prems(2) f have nd: "state g \<noteq> GAME_DODGE" and o: "outside_dodge rnd rest g1"
    by simp_all
  from frame_pace[OF f nd] Cons.prems(1)
  have k: "dynamic_block_spawn_interval g1 = dynamic_block_spawn_interval g" "dodge_score g1 = 0"
    by (auto simp: kept_def)
  from Cons.IH[OF k(2) o r] k(1) show ?case by simp
qed

lemma init_dodge_game_fields:
  "dynamic_block_spawn_interval (init_dodge_game now g) = dynamic_block_spawn_interval g"
  "dodge_score (init_dodge_game now g) = 0"
  "block_spawn_timer (init_dodge_game now g) = 0"
  "current_block_speed (init_dodge_game now g) = BLOCK_INITIAL_SPEED"
  "dodge_blocks (init_dodge_game now g) = map (\<lambda>b. b\<lparr>b_active := 0\<rparr>) (dodge_blocks g)"
  by (simp_all add: init_dodge_game_def Let_def init_player_def)

lemma case_dodge_interval:
  assumes "case_dodge rnd dt g = Inr g'"
  shows "dynamic_block_spawn_interval g' = max (1 / 2) (dynamic_block_spawn_interval g - dt / 100)"
proof -
  define g0 where "g0 = (if current_total_weight g > MIN_TOTAL_WEIGHT
                 \<and> (\<bar>x_cob g\<bar> > DEAD_ZONE \<or> \<bar>y_cob g\<bar> > DEAD_ZONE)
             then update_player_position
                    (real_of_int WINDOW_WIDTH / 2 + x_cob g * COB_SCALE_DODGE * real_of_int WINDOW_WIDTH)
                    (real_of_int WINDOW_HEIGHT / 2 + y_cob g * - COB_SCALE_DODGE * real_of_int WINDOW_HEIGHT)
                    dt g
             else g)"
  note cd = assms[unfolded case_dodge_def Let_def, folded g0_def]
  have a: "dynamic_block_spawn_interval g0 = dynamic_block_spawn_interval g"
    unfolding g0_def by (simp add: update_player_position_shape)
  show ?thesis
  proof (cases "dodge_blocks_loop dt [0..<MAX_DODGE_BLOCKS] g0")
    case (Inl e)
    with cd show ?thesis by (simp only: sum.case) simp
  next
    case (Inr g1)
    from dodge_blocks_loop_shape[OF Inr] a
    have b: "dynamic_block_spawn_interval g1 = dynamic_block_spawn_interval g" by auto
    define g2 where "g2 = g1\<lparr>block_spawn_timer := block_spawn_timer g1 + dt\<rparr>"
    from cd[unfolded Inr sum.case, folded g2_def]
    have "dynamic_block_spawn_interval g' = max (1 / 2) (dynamic_block_spawn_interval g2 - dt / 100)"
      by (auto simp: spawn_dodge_block_fields split: if_splits)
    then show ?thesis using b by (simp add: g2_def)
  qed
qed

lemma frame_dodge_interval:
  assumes "frame rnd inp g = Inr g'" and "state g = GAME_DODGE"
  shows "dynamic_block_spawn_interval g' = dynamic_block_spawn_interval g
       \<or> dynamic_block_spawn_interval g'
           = max (1 / 2) (dynamic_block_spawn_interval g - frame_delta inp g / 100)"
proof -
  let ?r = "(reset_game_state (sensed inp g))\<lparr>state := CONNECTING, connection_start_time := logic_time inp\<rparr>"
  have r: "kept g ?r" by (simp add: kept_def reset_game_state_def sensed_fields)
  have nc: "state g \<noteq> CONNECTING" using assms(2) by simp
  from frame_cases[OF assms(1) nc] show ?thesis
  proof (elim disjE)
    assume "g' = ?r"
    with r show ?thesis by (simp add: kept_def)
  next
    assume "g' = case_connecting inp ?r"
    with r case_connecting_kept[of ?r inp] show ?thesis by (auto simp: kept_def)
  next
    assume "state_switch rnd inp (frame_delta inp g) ((sensed inp g)\<lparr>last_input_time := current_time inp\<rparr>) = Inr g'"
    then have "case_dodge rnd (frame_delta inp g) ((sensed inp g)\<lparr>last_input_time := current_time inp\<rparr>) = Inr g'"
      using assms(2) by (simp add: state_switch_def sensed_fields)
    from case_dodge_interval[OF this] show ?thesis by (simp add: sensed_fields)
  next
    assume "state_switch rnd inp (frame_delta inp g) (sensed inp g) = Inr g'"
    then have "case_dodge rnd (frame_delta inp g) (sensed inp g) = Inr g'"
      using assms(2) by (simp add: state_switch_def sensed_fields)
    from case_dodge_interval[OF this] show ?thesis by (simp add: sensed_fields)
  qed
qed

lemma frame_quiet_returns:
  assumes "state g = WINNING \<or> state g = CONNECTING \<or> state g = TRANSITIONING"
  shows "\<exists>k. frame rnd inp g = Inr k"
proof -
  have sw: "\<exists>k. state_switch rnd inp dt h = Inr k"
    if "state h = WINNING \<or> state h = CONNECTING \<or> state h = TRANSITIONING" for dt h
    using that by (auto simp: state_switch_def)
  show ?thesis
  proof (cases "state g = CONNECTING")
    case True
    have "state (inactivity_check inp (g\<lparr>last_frame_time := current_time inp\<rparr>)) = CONNECTING"
      using True by (simp add: inactivity_check_def)
    then show ?thesis using True sw by (simp add: frame_unfold)
  next
    case False
    show ?thesis
    proof (cases "fst (read_wii_balance_board_data (poll_ret inp) (g\<lparr>last_frame_time := current_time inp\<rparr>)) \<noteq> 0")
      case True
      with False show ?thesis by (simp add: frame_unfold)
    next
      case rc: False
      let ?h = "sensed inp g"
      have st: "state ?h = state g" by (simp add: sensed_fields)
      from inactivity_check_cases[of inp ?h]
      have "state (inactivity_check inp ?h) = state g \<or> state (inactivity_check inp ?h) = CONNECTING"
        using st by auto
      with assms have "state (inactivity_check inp ?h) = WINNING
          \<or> state (inactivity_check inp ?h) = CONNECTING
          \<or> state (inactivity_check inp ?h) = TRANSITIONING" by auto
      from sw[OF this] show ?thesis using False rc by (simp add: frame_unfold)
    qed
  qed
qed

text \<open>
  Claim C10. \<^verbatim>\<open>init_dodge_game\<close> marks every block inactive, sets the block speed to
  \<open>BLOCK_INITIAL_SPEED\<close>, the spawn timer and the score to zero, and leaves the
  spawn interval as it is. The cleanup of the winning state sets the interval to
  \<open>BLOCK_SPAWN_INTERVAL\<close> exactly when it is due and the Dodge score is positive.
  Nothing else restores it: a frame that starts in Dodge leaves the interval alone or
  shortens it by a hundredth of the frame time, not below one half, so it never raises
  an interval of one half or more; a frame that starts in any other state leaves it
  alone unless it is the cleanup with a positive score.
  So from a state with score zero, as after a round lost before any block was dodged,
  every run of frames that start outside Dodge keeps the interval and the score zero up
  to and including the frame that starts the next Dodge session. Frames that start in
  the winning, the connecting or the transitioning state always return.
\<close>

theorem spawn_interval_carries_over:
  "dynamic_block_spawn_interval (init_dodge_game now g) = dynamic_block_spawn_interval g
   \<and> dodge_blocks (init_dodge_game now g) = map (\<lambda>b. b\<lparr>b_active := 0\<rparr>) (dodge_blocks g)
   \<and> current_block_speed (init_dodge_game now g) = BLOCK_INITIAL_SPEED
   \<and> block_spawn_timer (init_dodge_game now g) = 0
   \<and> dodge_score (init_dodge_game now g) = 0
   \<and> dynamic_block_spawn_interval (case_winning inp dt g) =
        (if cleanup_due inp g \<and> 0 < dodge_score g then BLOCK_SPAWN_INTERVAL
         else dynamic_block_spawn_interval g)
   \<and> (frame rnd inp g = Inr g' \<and> state g = GAME_DODGE \<longrightarrow>
        dynamic_block_spawn_interval g' = dynamic_block_spawn_interval g
        \<or> dynamic_block_spawn_interval g'
             = max (1 / 2) (dynamic_block_spawn_interval g - frame_delta inp g / 100))
   \<and> (frame rnd inp g = Inr g' \<and> state g \<noteq> GAME_DODGE \<longrightarrow>
        dynamic_block_spawn_interval g' = dynamic_block_spawn_interval g
        \<or> (state g = WINNING \<and> cleanup_due inp g \<and> 0 < dodge_score g
            \<and> dynamic_block_spawn_interval g' = BLOCK_SPAWN_INTERVAL))
   \<and> (dodge_score g = 0 \<and> outside_dodge rnd inps g \<and> frames rnd inps g = Inr g'' \<longrightarrow>
        dynamic_block_spawn_interval g'' = dynamic_block_spawn_interval g \<and> dodge_score g'' = 0)
   \<and> (state g = WINNING \<or> state g = CONNECTING \<or> state g = TRANSITIONING \<longrightarrow>
        (\<exists>k. frame rnd inp g = Inr k))
   \<and> (frame rnd inp g = Inr g' \<and> state g = GAME_DODGE
        \<and> 1 / 2 \<le> dynamic_block_spawn_interval g \<longrightarrow>
        dynamic_block_spawn_interval g' \<le> dynamic_block_spawn_interval g)"
proof -
  have c7: "frame rnd inp g = Inr g' \<and> state g = GAME_DODGE \<longrightarrow>
        dynamic_block_spawn_interval g' = dynamic_block_spawn_interval g
        \<or> dynamic_block_spawn_interval g'
             = max (1 / 2) (dynamic_block_spawn_interval g - frame_delta inp g / 100)"
    using frame_dodge_interval by blast
  have c8: "frame rnd inp g = Inr g' \<and> state g \<noteq> GAME_DODGE \<longrightarrow>
        dynamic_block_spawn_interval g' = dynamic_block_spawn_interval g
        \<or> (state g = WINNING \<and> cleanup_due inp g \<and> 0 < dodge_score g
            \<and> dynamic_block_spawn_interval g' = BLOCK_SPAWN_INTERVAL)"
    using frame_pace[of rnd inp g g'] by (auto simp: kept_def)
  have c9: "dodge_score g = 0 \<and> outside_dodge rnd inps g \<and> frames rnd inps g = Inr g'' \<longrightarrow>
        dynamic_block_spawn_interval g'' = dynamic_block_spawn_interval g \<and> dodge_score g'' = 0"
    using frames_carry by blast
  have c10: "state g = WINNING \<or> state g = CONNECTING \<or> state g = TRANSITIONING \<longrightarrow>
        (\<exists>k. frame rnd inp g = Inr k)"
    using frame_quiet_returns by blast
  have c11: "frame rnd inp g = Inr g' \<and> state g = GAME_DODGE
        \<and> 1 / 2 \<le> dynamic_block_spawn_interval g \<longrightarrow>
        dynamic_block_spawn_interval g' \<le> dynamic_block_spawn_interval g"
  proof (intro impI, elim conjE)
    assume fr: "frame rnd inp g = Inr g'" and d: "state g = GAME_DODGE"
      and h: "1 / 2 \<le> dynamic_block_spawn_interval g"
    have "0 \<le> frame_delta inp g"
      unfolding frame_delta_def by (intro divide_nonneg_nonneg of_nat_0_le_iff) simp
    with h have "max (1 / 2) (dynamic_block_spawn_interval g - frame_delta inp g / 100)
                   \<le> dynamic_block_spawn_interval g" by simp
    with frame_dodge_interval[OF fr d]
    show "dynamic_block_spawn_interval g' \<le> dynamic_block_spawn_interval g" by auto
  qed
  show ?thesis
    by (intro conjI)
       (rule init_dodge_game_fields(1), rule init_dodge_game_fields(5), rule init_dodge_game_fields(4),
        rule init_dodge_game_fields(3), rule init_dodge_game_fields(2), rule case_winning_pace(1),
        rule c7, rule c8, rule c9, rule c10, rule c11)
qed

lemma board_input_simps:
  "current_time (board_input t) = t" "logic_time (board_input t) = t + 1"
  "xwii_init (board_input t) = INIT_OK 3"
  by (simp_all add: board_input_def)

lemma collision_loop_fields:
  assumes "player g = \<lparr>p_x = 960, p_y = 540, p_velocity_x = 0, p_velocity_y = 0\<rparr>"
    and "dodge_blocks g =
           [\<lparr>b_x = 10393376 / 10000, b_y = 500, b_speed = 3984 / 10, b_active = 1\<rparr>,
            \<lparr>b_x = 17871776 / 10000, b_y = 120, b_speed = 4968 / 10, b_active = 1\<rparr>]
           @ replicate 8 \<lparr>b_x = 0, b_y = 0, b_speed = 0, b_active = 0\<rparr>"
  shows "\<exists>g'. dodge_blocks_loop (16 / 1000) [0..<MAX_DODGE_BLOCKS] g = Inr g' \<and> state g' = WINNING
            \<and> dodge_score g' = dodge_score g"
  unfolding upt_ten
  by (simp add: dodge_block_step_def Let_def assms SDL_HasIntersection_def c_trunc_def)

lemma collision_frame_fields:
  "\<exists>g'. frame zero_rand (board_input 24352) collision_state = Inr g' \<and> state g' = WINNING
       \<and> dodge_score g' = 0 \<and> iface g' \<and> fd g' = 3 \<and> win_message_start_time g' = 0
       \<and> last_frame_time g' = 24352
       \<and> dynamic_block_spawn_interval g' = 195664 / 100000"
proof -
  let ?g = collision_state
  let ?h = "?g\<lparr>last_frame_time := 24352, poll_timeout_count := 0, current_total_weight := 5000,
                x_cob := 0, y_cob := 0, last_input_time := 24352\<rparr>"
  let ?inp = "board_input 24352"
  have d: "frame_delta ?inp ?g = 16 / 1000"
    by (simp add: frame_delta_def collision_state_simps board_input_def)
  have fr: "frame zero_rand ?inp ?g = case_dodge zero_rand (16 / 1000) ?h"
    using board_frame[of ?g zero_rand 24352]
    by (simp add: collision_state_simps d state_switch_def)
  have idx: "get_profile_filename ''dodge_score.txt'' (selected_player_index ?h)
               = Some ''player 1_dodge_score.txt''"
    by (simp add: collision_state_simps profile_filenames)
  from case_dodge_returns[OF idx] obtain g' where
    cd: "case_dodge zero_rand (16 / 1000) ?h = Inr g'" by blast
  from case_dodge_loop[OF cd] obtain g0 g1 bs r bt sp iv where
    g0: "\<not> (current_total_weight ?h > MIN_TOTAL_WEIGHT
                    \<and> (\<bar>x_cob ?h\<bar> > DEAD_ZONE \<or> \<bar>y_cob ?h\<bar> > DEAD_ZONE)) \<longrightarrow> g0 = ?h"
    and l: "dodge_blocks_loop (16 / 1000) [0..<MAX_DODGE_BLOCKS] g0 = Inr g1"
    and g': "g' = g1\<lparr>dodge_blocks := bs, rand_pos := r, block_spawn_timer := bt,
                     current_block_speed := sp, dynamic_block_spawn_interval := iv\<rparr>"
    by blast
  from g0 have g0h: "g0 = ?h" by simp
  have "\<exists>k. dodge_blocks_loop (16 / 1000) [0..<MAX_DODGE_BLOCKS] ?h = Inr k \<and> state k = WINNING
          \<and> dodge_score k = dodge_score ?h"
    by (rule collision_loop_fields) (simp_all add: collision_state_simps)
  with l g0h have s1: "state g1 = WINNING" "dodge_score g1 = dodge_score ?h" by auto
  from dodge_blocks_loop_shape[OF l] obtain bs2 sc hs fs st where
    "g1 = g0\<lparr>dodge_blocks := bs2, dodge_score := sc, dodge_high_score := hs,
              dodge_files := fs, state := st\<rparr>" by blast
  then have "iface g1" "fd g1 = 3" "win_message_start_time g1 = 0" "last_frame_time g1 = 24352"
    unfolding g0h by (simp_all add: collision_state_simps)
  moreover have "dodge_score ?h = 0"
    by (simp add: collision_state_def connected_start_def program_start_def init_player_def Let_def)
  ultimately have "state g' = WINNING \<and> dodge_score g' = 0 \<and> iface g' \<and> fd g' = 3
      \<and> win_message_start_time g' = 0 \<and> last_frame_time g' = 24352"
    unfolding g' using s1 by simp
  moreover from case_dodge_interval[OF cd]
  have "dynamic_block_spawn_interval g' = 195664 / 100000"
    by (simp add: collision_state_def connected_start_def program_start_def init_player_def Let_def)
  ultimately show ?thesis using cd unfolding fr by blast
qed

lemma winning_frame_leaves:
  assumes "state g = WINNING" and "iface g" and "0 \<le> fd g"
    and "WIN_ANIMATION_DURATION < unat (t + 1 - win_message_start_time g)"
  shows "\<exists>g'. frame rnd (board_input t) g = Inr g' \<and> state g' = PLAYER_SELECTION \<and> \<not> iface g'
            \<and> last_frame_time g' = t \<and> player_selection_choice g' = 0
            \<and> menu_select_timer g' = 0 \<and> selected_game g' = NO_GAME_SELECTED"
proof -
  let ?k = "g\<lparr>last_frame_time := t, poll_timeout_count := 0, current_total_weight := 5000,
               x_cob := 0, y_cob := 0, last_input_time := t\<rparr>"
  have nc: "state g \<noteq> CONNECTING" using assms(1) by simp
  have fr: "frame rnd (board_input t) g
              = Inr (case_winning (board_input t) (frame_delta (board_input t) g) ?k)"
    using board_frame[OF nc assms(2,3), of rnd t] assms(1) by (simp add: state_switch_def)
  have due: "WIN_ANIMATION_DURATION < unat (logic_time (board_input t) - win_message_start_time ?k)"
    using assms(4) by (simp add: board_input_simps)
  have "state (case_winning (board_input t) dt ?k) = PLAYER_SELECTION
      \<and> \<not> iface (case_winning (board_input t) dt ?k)
      \<and> last_frame_time (case_winning (board_input t) dt ?k) = t
      \<and> player_selection_choice (case_winning (board_input t) dt ?k) = 0
      \<and> menu_select_timer (case_winning (board_input t) dt ?k) = 0
      \<and> selected_game (case_winning (board_input t) dt ?k) = NO_GAME_SELECTED" for dt
    unfolding case_winning_def Let_def
    using due by (simp add: update_confetti_def reset_game_state_def init_player_def Let_def)
  then show ?thesis unfolding fr by blast
qed

lemma disconnected_frame:
  assumes "\<not> iface g" and "state g \<noteq> CONNECTING"
  shows "\<exists>g'. frame rnd inp g = Inr g' \<and> state g' = CONNECTING
            \<and> last_frame_time g' = current_time inp \<and> player_selection_choice g' = 0
            \<and> menu_select_timer g' = 0 \<and> selected_game g' = NO_GAME_SELECTED"
proof -
  have "fst (read_wii_balance_board_data (poll_ret inp) (g\<lparr>last_frame_time := current_time inp\<rparr>)) = - 1"
    using assms(1) by (simp add: read_disconnected)
  then have "frame rnd inp g = Inr ((reset_game_state (sensed inp g))
                \<lparr>state := CONNECTING, connection_start_time := logic_time inp\<rparr>)"
    using assms(2) by (simp add: frame_unfold)
  then show ?thesis by (simp add: reset_game_state_def sensed_fields)
qed

lemma connecting_frame:
  assumes "state g = CONNECTING"
  shows "\<exists>g'. frame rnd (board_input t) g = Inr g' \<and> state g' = TRANSITIONING \<and> iface g'
            \<and> fd g' = 3 \<and> transition_start_time g' = t + 1 \<and> last_frame_time g' = t
            \<and> player_selection_choice g' = player_selection_choice g
            \<and> menu_select_timer g' = menu_select_timer g \<and> selected_game g' = selected_game g"
  using assms
  by (simp add: frame_unfold inactivity_check_def state_switch_def case_connecting_def
        board_input_simps)

lemma transitioning_frame:
  assumes "state g = TRANSITIONING" and "iface g" and "0 \<le> fd g"
    and "TRANSITION_DURATION \<le> real (unat (t + 1 - transition_start_time g)) / 1000"
  shows "\<exists>g'. frame rnd (board_input t) g = Inr g' \<and> state g' = PLAYER_SELECTION \<and> iface g'
            \<and> fd g' = fd g \<and> last_frame_time g' = t
            \<and> player_selection_choice g' = player_selection_choice g
            \<and> menu_select_timer g' = menu_select_timer g \<and> selected_game g' = selected_game g"
proof -
  let ?k = "g\<lparr>last_frame_time := t, poll_timeout_count := 0, current_total_weight := 5000,
               x_cob := 0, y_cob := 0, last_input_time := t\<rparr>"
  have nc: "state g \<noteq> CONNECTING" using assms(1) by simp
  have fr: "frame rnd (board_input t) g = Inr (case_transitioning (board_input t) ?k)"
    using board_frame[OF nc assms(2,3), of rnd t] assms(1) by (simp add: state_switch_def)
  have "case_transitioning (board_input t) ?k = ?k\<lparr>state := PLAYER_SELECTION\<rparr>"
    using assms(4) by (simp add: case_transitioning_def Let_def board_input_simps)
  then show ?thesis unfolding fr using assms(2) by simp
qed

lemma player_selection_frame:
  assumes "state g = PLAYER_SELECTION" and "iface g" and "0 \<le> fd g"
    and "player_selection_choice g = 0"
    and "MENU_SELECT_TIME_REQUIRED \<le> frame_delta (board_input t) g"
  shows "\<exists>g'. frame rnd (board_input t) g = Inr g' \<and> state g' = MAIN_MENU \<and> iface g'
            \<and> fd g' = fd g \<and> last_frame_time g' = t \<and> selected_player_index g' = 1
            \<and> menu_select_timer g' = 0 \<and> selected_game g' = selected_game g"
proof -
  let ?k = "g\<lparr>last_frame_time := t, poll_timeout_count := 0, current_total_weight := 5000,
               x_cob := 0, y_cob := 0, last_input_time := t\<rparr>"
  define dt where "dt = frame_delta (board_input t) g"
  have nc: "state g \<noteq> CONNECTING" using assms(1) by simp
  have fr: "frame rnd (board_input t) g = case_player_selection dt ?k"
    using board_frame[OF nc assms(2,3), of rnd t] assms(1) by (simp add: state_switch_def dt_def)
  have z: "zone_choice ?k = 2" by (simp add: zone_choice_def)
  let ?s = "player_selection_scan dt ?k"
  have s: "?s = ?k\<lparr>player_selection_choice := 2, menu_select_timer := dt\<rparr>"
    unfolding player_selection_scan_eq z using assms(4) by simp
  have t: "MENU_SELECT_TIME_REQUIRED \<le> menu_select_timer ?s"
    unfolding s using assms(5) by (simp add: dt_def)
  have v: "0 \<le> (1::int)" "(1::int) < 3" by simp_all
  from valid_index_filename[OF v] obtain f1 where
    f1: "get_profile_filename ''score.txt'' 1 = Some f1" by blast
  from valid_index_filename[OF v] obtain f2 where
    f2: "get_profile_filename ''wins.txt'' 1 = Some f2" by blast
  have "case_player_selection dt ?k = player_selection_commit ?s"
    unfolding case_player_selection_def Let_def using t by simp
  also have "\<dots> = Inr (?k\<lparr>player_selection_choice := 2, menu_select_timer := dt,
                          selected_player_index := 1,
                          lowest_time_to_win := read_lowest_time
                             (?k\<lparr>player_selection_choice := 2, menu_select_timer := dt,
                                  selected_player_index := 1\<rparr>) f1,
                          total_wins := read_total_wins
                             (?k\<lparr>player_selection_choice := 2, menu_select_timer := dt,
                                  selected_player_index := 1\<rparr>) f2,
                          state := MAIN_MENU, menu_select_timer := 0\<rparr>)"
    unfolding s by (simp add: player_selection_commit_def Let_def f1 f2)
  finally show ?thesis unfolding fr using assms(2) by simp
qed

lemma main_menu_frame:
  assumes "state g = MAIN_MENU" and "iface g" and "0 \<le> fd g"
    and "selected_game g = NO_GAME_SELECTED"
    and "0 \<le> selected_player_index g" and "selected_player_index g < 3"
    and "MENU_SELECT_TIME_REQUIRED \<le> frame_delta (board_input t) g"
  shows "\<exists>g'. frame rnd (board_input t) g = Inr g' \<and> state g' = GAME_DODGE
            \<and> block_spawn_timer g' = 0 \<and> current_block_speed g' = BLOCK_INITIAL_SPEED"
proof -
  let ?k = "g\<lparr>last_frame_time := t, poll_timeout_count := 0, current_total_weight := 5000,
               x_cob := 0, y_cob := 0, last_input_time := t\<rparr>"
  define dt where "dt = frame_delta (board_input t) g"
  have nc: "state g \<noteq> CONNECTING" using assms(1) by simp
  have fr: "frame rnd (board_input t) g = case_main_menu (board_input t) dt ?k"
    using board_frame[OF nc assms(2,3), of rnd t] assms(1) by (simp add: state_switch_def dt_def)
  have z: "zone_choice ?k = 2" by (simp add: zone_choice_def)
  let ?s = "main_menu_scan dt ?k"
  have s: "?s = ?k\<lparr>selected_game := DODGE, menu_select_timer := dt\<rparr>"
    unfolding main_menu_scan_eq z using assms(4) by (simp add: game_of_zone_def)
  have t: "MENU_SELECT_TIME_REQUIRED \<le> menu_select_timer ?s"
    unfolding s using assms(7) by (simp add: dt_def)
  from valid_index_filename[OF assms(5,6)] obtain f where
    f: "get_profile_filename ''dodge_score.txt'' (selected_player_index g) = Some f" by blast
  let ?h = "?k\<lparr>selected_game := DODGE, menu_select_timer := dt, state := GAME_DODGE,
               dodge_high_score := read_dodge_high_score
                  (?k\<lparr>selected_game := DODGE, menu_select_timer := dt\<rparr>) f\<rparr>"
  have "case_main_menu (board_input t) dt ?k = main_menu_commit (board_input t) ?s"
    unfolding case_main_menu_def Let_def using t by simp
  also have "\<dots> = Inr ((init_dodge_game (logic_time (board_input t)) ?h)\<lparr>menu_select_timer := 0\<rparr>)"
    unfolding s by (simp add: main_menu_commit_def Let_def f)
  finally have c: "frame rnd (board_input t) g
      = Inr ((init_dodge_game (logic_time (board_input t)) ?h)\<lparr>menu_select_timer := 0\<rparr>)"
    unfolding fr .
  obtain p tr bs where "init_dodge_game (logic_time (board_input t)) ?h =
      ?h\<lparr>player := p, trail_points := tr, trail_head := 0, dodge_blocks := bs,
        block_spawn_timer := 0, current_block_speed := BLOCK_INITIAL_SPEED, dodge_score := 0,
        game_start_time := logic_time (board_input t)\<rparr>"
    using init_dodge_game_shape by blast
  then show ?thesis unfolding c by simp
qed

text \<open>
  The round of \<open>collision_state\<close> is lost with score zero and the interval at
  1.95664 seconds. The winning state is left in the next frame, the device is closed by
  the reset and opened again, the player chooses a profile and Dodge: the new session
  starts with the blocks, the speed and the timer reset and the interval still at
  1.95664 seconds. With a score of 3 the cleanup would have set it to 2.
\<close>

theorem spawn_interval_carries_over_witness:
  "(\<exists>g1 g2 g3. frame zero_rand (board_input 24352) collision_state = Inr g1
       \<and> state g1 = WINNING \<and> dodge_score g1 = 0
       \<and> dynamic_block_spawn_interval g1 = 195664 / 100000
       \<and> dynamic_block_spawn_interval g1 \<le> dynamic_block_spawn_interval collision_state
       \<and> frame zero_rand (board_input 24368) g1 = Inr g2
       \<and> state g2 = PLAYER_SELECTION
       \<and> dynamic_block_spawn_interval g2 = 195664 / 100000
       \<and> frames zero_rand way_back g1 = Inr g3
       \<and> state g3 = GAME_DODGE \<and> dodge_score g3 = 0
       \<and> block_spawn_timer g3 = 0 \<and> current_block_speed g3 = 300
       \<and> dynamic_block_spawn_interval g3 = 195664 / 100000)
   \<and> dynamic_block_spawn_interval (init_dodge_game 30401 collision_state) = 19568 / 10000
   \<and> dodge_score (init_dodge_game 30401 (collision_state\<lparr>dodge_score := 3\<rparr>)) = 0
   \<and> dynamic_block_spawn_interval
        (case_winning (board_input 24368) (16 / 1000)
           (collision_state\<lparr>state := WINNING, dodge_score := 3\<rparr>)) = 2"
proof -
  from collision_frame_fields obtain g1 where
    f1: "frame zero_rand (board_input 24352) collision_state = Inr g1"
    and g1: "state g1 = WINNING" "dodge_score g1 = 0" "iface g1" "fd g1 = 3"
      "win_message_start_time g1 = 0" "last_frame_time g1 = 24352"
      "dynamic_block_spawn_interval g1 = 195664 / 100000"
    by blast
  have iv: "dynamic_block_spawn_interval collision_state = 19568 / 10000"
    by (simp add: collision_state_def connected_start_def program_start_def init_player_def Let_def)
  from spawn_interval_carries_over[where g = collision_state and rnd = zero_rand
         and inp = "board_input 24352" and g' = g1, THEN conjunct2, THEN conjunct2, THEN conjunct2, THEN conjunct2, THEN conjunct2, THEN conjunct2, THEN conjunct2, THEN conjunct2, THEN conjunct2, THEN conjunct2] f1
  have le: "dynamic_block_spawn_interval g1 \<le> dynamic_block_spawn_interval collision_state"
    by (simp add: collision_state_simps iv)
  from spawn_interval_carries_over[where g = g1 and rnd = zero_rand
         and inp = "board_input 24368", THEN conjunct2, THEN conjunct2, THEN conjunct2, THEN conjunct2, THEN conjunct2, THEN conjunct2, THEN conjunct2, THEN conjunct2, THEN conjunct2, THEN conjunct1] g1(1)
  obtain g2 where f2: "frame zero_rand (board_input 24368) g1 = Inr g2" by auto
  have "WIN_ANIMATION_DURATION < unat (24368 + 1 - win_message_start_time g1)"
    unfolding g1 by simp
  from winning_frame_leaves[OF g1(1,3) _ this, of zero_rand] g1(4) f2
  have g2: "state g2 = PLAYER_SELECTION" "\<not> iface g2" "player_selection_choice g2 = 0"
      "menu_select_timer g2 = 0" "selected_game g2 = NO_GAME_SELECTED"
    by auto
  from spawn_interval_carries_over[where g = g1 and rnd = zero_rand
         and inp = "board_input 24368" and g' = g2, THEN conjunct2, THEN conjunct2, THEN conjunct2, THEN conjunct2, THEN conjunct2, THEN conjunct2, THEN conjunct2, THEN conjunct1] f2 g1(1,2)
  have iv2: "dynamic_block_spawn_interval g2 = 195664 / 100000"
    by (simp add: g1(7))
  from disconnected_frame[OF g2(2), of zero_rand "board_input 24384"] g2(1) obtain g3 where
    f3: "frame zero_rand (board_input 24384) g2 = Inr g3"
    and g3: "state g3 = CONNECTING" "player_selection_choice g3 = 0"
      "menu_select_timer g3 = 0" "selected_game g3 = NO_GAME_SELECTED"
    by auto
  from connecting_frame[OF g3(1), of zero_rand 24400] g3 obtain g4 where
    f4: "frame zero_rand (board_input 24400) g3 = Inr g4"
    and g4: "state g4 = TRANSITIONING" "iface g4" "fd g4 = 3" "transition_start_time g4 = 24401"
      "player_selection_choice g4 = 0" "menu_select_timer g4 = 0"
      "selected_game g4 = NO_GAME_SELECTED"
    by auto
  have "TRANSITION_DURATION \<le> real (unat (26400 + 1 - transition_start_time g4)) / 1000"
    unfolding g4 by simp
  from transitioning_frame[OF g4(1,2) _ this, of zero_rand] g4 obtain g5 where
    f5: "frame zero_rand (board_input 26400) g4 = Inr g5"
    and g5: "state g5 = PLAYER_SELECTION" "iface g5" "fd g5 = 3" "last_frame_time g5 = 26400"
      "player_selection_choice g5 = 0" "selected_game g5 = NO_GAME_SELECTED"
    by auto
  have "MENU_SELECT_TIME_REQUIRED \<le> frame_delta (board_input 28400) g5"
    by (simp add: frame_delta_def g5 board_input_simps)
  from player_selection_frame[OF g5(1,2) _ g5(5) this, of zero_rand] g5 obtain g6 where
    f6: "frame zero_rand (board_input 28400) g5 = Inr g6"
    and g6: "state g6 = MAIN_MENU" "iface g6" "fd g6 = 3" "last_frame_time g6 = 28400"
      "selected_player_index g6 = 1" "selected_game g6 = NO_GAME_SELECTED"
    by auto
  have "MENU_SELECT_TIME_REQUIRED \<le> frame_delta (board_input 30400) g6"
    by (simp add: frame_delta_def g6 board_input_simps)
  from main_menu_frame[OF g6(1,2) _ g6(6) _ _ this, of zero_rand] g6 obtain g7 where
    f7: "frame zero_rand (board_input 30400) g6 = Inr g7"
    and g7: "state g7 = GAME_DODGE" "block_spawn_timer g7 = 0" "current_block_speed g7 = 300"
    by auto
  have run: "frames zero_rand way_back g1 = Inr g7"
    by (simp add: way_back_def f2 f3 f4 f5 f6 f7)
  have out: "outside_dodge zero_rand way_back g1"
    by (simp add: way_back_def f2 f3 f4 f5 f6 f7 g1 g2 g3 g4 g5 g6)
  from spawn_interval_carries_over[where g = g1 and rnd = zero_rand and inps = way_back
         and g'' = g7, THEN conjunct2, THEN conjunct2, THEN conjunct2, THEN conjunct2, THEN conjunct2, THEN conjunct2, THEN conjunct2, THEN conjunct2, THEN conjunct1] g1(2) out run
  have carry: "dynamic_block_spawn_interval g7 = dynamic_block_spawn_interval g1"
    "dodge_score g7 = 0" by simp_all
  have a: "\<exists>g1 g2 g3. frame zero_rand (board_input 24352) collision_state = Inr g1
       \<and> state g1 = WINNING \<and> dodge_score g1 = 0
       \<and> dynamic_block_spawn_interval g1 = 195664 / 100000
       \<and> dynamic_block_spawn_interval g1 \<le> dynamic_block_spawn_interval collision_state
       \<and> frame zero_rand (board_input 24368) g1 = Inr g2
       \<and> state g2 = PLAYER_SELECTION
       \<and> dynamic_block_spawn_interval g2 = 195664 / 100000
       \<and> frames zero_rand way_back g1 = Inr g3
       \<and> state g3 = GAME_DODGE \<and> dodge_score g3 = 0
       \<and> block_spawn_timer g3 = 0 \<and> current_block_speed g3 = 300
       \<and> dynamic_block_spawn_interval g3 = 195664 / 100000"
    using f1 g1(1,2,7) le f2 g2(1) iv2 run g7 carry by auto
  have b: "dynamic_block_spawn_interval (init_dodge_game 30401 collision_state) = 19568 / 10000"
    using spawn_interval_carries_over[where g = collision_state and now = 30401, THEN conjunct1]
    by (simp add: iv)
  have c: "dodge_score (init_dodge_game 30401 (collision_state\<lparr>dodge_score := 3\<rparr>)) = 0"
    using spawn_interval_carries_over[where g = "collision_state\<lparr>dodge_score := 3\<rparr>"
            and now = 30401, THEN conjunct2, THEN conjunct2, THEN conjunct2, THEN conjunct2, THEN conjunct1] .
  have due: "cleanup_due (board_input 24368) (collision_state\<lparr>state := WINNING, dodge_score := 3\<rparr>)"
    by (simp add: cleanup_due_def collision_state_simps board_input_simps)
  have d: "dynamic_block_spawn_interval
        (case_winning (board_input 24368) (16 / 1000)
           (collision_state\<lparr>state := WINNING, dodge_score := 3\<rparr>)) = 2"
    using spawn_interval_carries_over[where g = "collision_state\<lparr>state := WINNING, dodge_score := 3\<rparr>"
            and inp = "board_input 24368" and dt = "16 / 1000", THEN conjunct2, THEN conjunct2, THEN conjunct2, THEN conjunct2, THEN conjunct2, THEN conjunct1] due
    by simp
  from a b c d show ?thesis by (intro conjI)
qed

end
